(* ===== verification/Prelude.thy ===== *)
theory Prelude
  imports Complex_Main "HOL-Library.AList" "HOL-Library.Sublist"
begin

text \<open>
  Shared vocabulary of the development.

  \<^item> JavaScript's \<open>Set\<close> and \<open>Map\<close> remember insertion order. A \<open>Set\<close> is a distinct list
    (\<open>jset_add\<close>, \<open>jset_delete\<close>), a \<open>Map\<close> an association list with the operations
    \<open>AList.update\<close> (in place, or at the end) and \<open>AList.delete\<close>.
  \<^item> A component of the interface (a React component, a module with state, a promise that
    settles) is a step function: an event and the current state give the next state and the
    list of effects the code asks its surroundings for. \<open>run_steps\<close> folds a step function over
    a list of events; the locale \<open>reactive\<close> states once what it means for a step function to
    keep an invariant, and derives the invariant for every run.
\<close>

named_theorems js_simps "rewrite rules for the JavaScript collections"

section \<open>Insertion-ordered sets\<close>

definition jset_add :: "'a \<Rightarrow> 'a list \<Rightarrow> 'a list" where
  "jset_add x xs = (if x \<in> set xs then xs else xs @ [x])"

definition jset_delete :: "'a \<Rightarrow> 'a list \<Rightarrow> 'a list" where
  "jset_delete x xs = filter (\<lambda>y. y \<noteq> x) xs"

lemma set_jset_add [simp, js_simps]: "set (jset_add x xs) = insert x (set xs)"
  by (auto simp: jset_add_def)

lemma set_jset_delete [simp, js_simps]: "set (jset_delete x xs) = set xs - {x}"
  by (auto simp: jset_delete_def)

lemma distinct_jset_add [intro]: "distinct xs \<Longrightarrow> distinct (jset_add x xs)"
  by (simp add: jset_add_def)

lemma distinct_jset_delete [intro]: "distinct xs \<Longrightarrow> distinct (jset_delete x xs)"
  by (simp add: jset_delete_def)

lemma length_jset_add: "length (jset_add x xs) \<le> Suc (length xs)"
  by (simp add: jset_add_def)

lemma length_jset_delete: "length (jset_delete x xs) \<le> length xs"
  by (simp add: jset_delete_def)

lemma jset_delete_idem [simp, js_simps]: "x \<notin> set xs \<Longrightarrow> jset_delete x xs = xs"
  by (auto simp: jset_delete_def intro: filter_True)

lemma length_jset_delete_in:
  "distinct xs \<Longrightarrow> x \<in> set xs \<Longrightarrow> Suc (length (jset_delete x xs)) = length xs"
proof (induction xs)
  case (Cons y ys)
  then show ?case
    by (cases "x = y") (auto simp: jset_delete_def intro!: arg_cong [where f = length] filter_True)
qed simp

text \<open>
  What a page relies on when it keeps a selection or a registry in a \<open>Set\<close>: membership after
  an insertion and a deletion, and that the set stays free of duplicates.
\<close>

locale js_set =
  fixes add :: "'a \<Rightarrow> 'c \<Rightarrow> 'c"
    and remove :: "'a \<Rightarrow> 'c \<Rightarrow> 'c"
    and elems :: "'c \<Rightarrow> 'a list"
  assumes set_add: "set (elems (add x c)) = insert x (set (elems c))"
    and set_remove: "set (elems (remove x c)) = set (elems c) - {x}"
    and distinct_add: "distinct (elems c) \<Longrightarrow> distinct (elems (add x c))"
    and distinct_remove: "distinct (elems c) \<Longrightarrow> distinct (elems (remove x c))"
begin

lemma size_add:
  assumes "distinct (elems c)"
  shows "length (elems (add x c)) = card (insert x (set (elems c)))"
  using assms by (metis distinct_add distinct_card set_add)

lemma size_remove:
  assumes "distinct (elems c)"
  shows "length (elems (remove x c)) = card (set (elems c) - {x})"
  using assms by (metis distinct_remove distinct_card set_remove)

lemma add_remove_absent:
  assumes "x \<notin> set (elems c)"
  shows "set (elems (remove x (add x c))) = set (elems c)"
  using assms by (auto simp: set_add set_remove)

end

interpretation jset: js_set jset_add jset_delete "\<lambda>xs. xs"
  by unfold_locales auto

section \<open>Step functions and their runs\<close>

fun run_steps :: "('s \<Rightarrow> 'e \<Rightarrow> 's \<times> 'o list) \<Rightarrow> 's \<Rightarrow> 'e list \<Rightarrow> 's \<times> 'o list" where
  "run_steps step s [] = (s, [])"
| "run_steps step s (e # es) =
     (let (s', out) = step s e; (s'', outs) = run_steps step s' es in (s'', out @ outs))"

lemma run_steps_Cons [simp]:
  "fst (run_steps step s (e # es)) = fst (run_steps step (fst (step s e)) es)"
  "snd (run_steps step s (e # es)) = snd (step s e) @ snd (run_steps step (fst (step s e)) es)"
  by (auto split: prod.splits)

declare run_steps.simps(2) [simp del]

lemma run_steps_append:
  "fst (run_steps step s (es @ fs)) = fst (run_steps step (fst (run_steps step s es)) fs)"
  "snd (run_steps step s (es @ fs)) =
     snd (run_steps step s es) @ snd (run_steps step (fst (run_steps step s es)) fs)"
  by (induction es arbitrary: s) auto

locale reactive =
  fixes step :: "'s \<Rightarrow> 'e \<Rightarrow> 's \<times> 'o list"
    and inv :: "'s \<Rightarrow> bool"
  assumes step_inv: "inv s \<Longrightarrow> inv (fst (step s e))"
begin

lemma run_inv: "inv s \<Longrightarrow> inv (fst (run_steps step s es))"
  by (induction es arbitrary: s) (auto intro: step_inv)

lemma run_prefix_inv: "inv s \<Longrightarrow> inv (fst (run_steps step s (take n es)))"
  by (rule run_inv)

end

text \<open>
  A component whose effects obey a rule: every effect of a step from a state of the invariant
  satisfies \<open>ok\<close>.
\<close>

locale reactive_output = reactive step inv for step :: "'s \<Rightarrow> 'e \<Rightarrow> 's \<times> 'o list" and inv +
  fixes ok :: "'o \<Rightarrow> bool"
  assumes step_ok: "inv s \<Longrightarrow> x \<in> set (snd (step s e)) \<Longrightarrow> ok x"
begin

lemma run_ok: "inv s \<Longrightarrow> x \<in> set (snd (run_steps step s es)) \<Longrightarrow> ok x"
  by (induction es arbitrary: s) (auto intro: step_ok step_inv)

end

text \<open>The same for the events that satisfy \<open>P\<close> only.\<close>

lemma run_steps_guarded:
  assumes "\<And>s e. J s \<Longrightarrow> P e \<Longrightarrow> J (fst (step s e)) \<and> list_all ok (snd (step s e))"
    and "J s" "list_all P es"
  shows "J (fst (run_steps step s es)) \<and> list_all ok (snd (run_steps step s es))"
  using assms(2,3) by (induction es arbitrary: s) (simp_all add: assms(1))

section \<open>List lemmas\<close>

lemma filter_map_update_length:
  "length (filter P (map (\<lambda>x. if Q x then f x else x) xs)) =
     length (filter (\<lambda>x. P (if Q x then f x else x)) xs)"
  by (induction xs) auto

lemma length_filter_mono: "(\<And>x. x \<in> set xs \<Longrightarrow> P x \<Longrightarrow> Q x) \<Longrightarrow> length (filter P xs) \<le> length (filter Q xs)"
  by (induction xs) (auto simp: le_SucI)

lemma map_of_update_other: "k \<noteq> k' \<Longrightarrow> map_of (AList.update k v m) k' = map_of m k'"
  by (simp add: update_conv')

end
