(* ===== verification/Js_Text.thy ===== *)
theory Js_Text
  imports Prelude
begin

text \<open>
  JavaScript strings. A \<open>string\<close> of the model is the UTF-8 encoding of the string of the program:
  a \<open>char\<close> is one byte, so comparison, concatenation, prefix tests and percent-encoding are exact,
  and what the language counts in UTF-16 code units is counted by \<open>js_length\<close>.
  \<open>toUpperCase\<close> is modelled on ASCII letters, the only ones it is applied to.
\<close>

section \<open>UTF-8\<close>

abbreviation byte :: "char \<Rightarrow> nat" where
  "byte c \<equiv> of_char c"

definition utf8_cont :: "char \<Rightarrow> bool" where
  "utf8_cont c \<longleftrightarrow> 128 \<le> byte c \<and> byte c < 192"

text \<open>The number of bytes the sequence that starts with this byte takes; 0 where none can start.\<close>

definition utf8_size :: "nat \<Rightarrow> nat" where
  "utf8_size b =
     (if b < 128 then 1 else if b < 194 then 0 else if b < 224 then 2
      else if b < 240 then 3 else if b < 245 then 4 else 0)"

text \<open>One well-formed sequence: no overlong form, no surrogate, nothing beyond U+10FFFF.\<close>

definition utf8_seq :: "string \<Rightarrow> bool" where
  "utf8_seq bs =
     (case bs of [] \<Rightarrow> False
      | b # rest \<Rightarrow>
          utf8_size (byte b) = length bs \<and> list_all utf8_cont rest \<and>
          (case rest of [] \<Rightarrow> True
           | c # _ \<Rightarrow>
               (byte b = 224 \<longrightarrow> 160 \<le> byte c) \<and> (byte b = 237 \<longrightarrow> byte c < 160) \<and>
               (byte b = 240 \<longrightarrow> 144 \<le> byte c) \<and> (byte b = 244 \<longrightarrow> byte c < 144)))"

text \<open>A well-formed text is a sequence of them.\<close>

function utf8_text :: "string \<Rightarrow> bool" where
  "utf8_text [] = True"
| "utf8_text (b # bs) =
     (let n = utf8_size (byte b) in
      n \<noteq> 0 \<and> utf8_seq (take n (b # bs)) \<and> utf8_text (drop (n - 1) bs))"
  by pat_completeness auto
termination by (relation "measure length") auto

text \<open>UTF-16 code units: one per sequence, two where the sequence has four bytes.\<close>

definition js_length :: "string \<Rightarrow> nat" where
  "js_length s = length (filter (\<lambda>c. \<not> utf8_cont c) s) + length (filter (\<lambda>c. 240 \<le> byte c) s)"

definition ascii :: "string \<Rightarrow> bool" where
  "ascii s \<longleftrightarrow> list_all (\<lambda>c. byte c < 128) s"

lemma js_length_ascii: "ascii s \<Longrightarrow> js_length s = length s"
  by (induction s) (auto simp: ascii_def js_length_def utf8_cont_def)

lemma js_length_append: "js_length (a @ b) = js_length a + js_length b"
  by (simp add: js_length_def)

lemma ascii_utf8_text: "ascii s \<Longrightarrow> utf8_text s"
  by (induction s) (auto simp: ascii_def utf8_seq_def utf8_size_def)

lemma utf8_seq_Cons: "utf8_seq (b # bs) \<Longrightarrow> utf8_size (byte b) = Suc (length bs)"
  by (simp add: utf8_seq_def)

lemma utf8_text_seq_append:
  assumes "utf8_seq q"
  shows "utf8_text (q @ s) = utf8_text s"
proof -
  obtain b bs where q: "q = b # bs" using assms by (cases q) (auto simp: utf8_seq_def)
  have "utf8_size (byte b) = Suc (length bs)" using assms q by (simp add: utf8_seq_Cons)
  then show ?thesis using assms q by simp
qed

section \<open>White space and trim\<close>

text \<open>
  The white space and line terminators of ECMAScript: six ASCII characters, U+00A0, U+FEFF,
  U+1680, U+2000 to U+200A, U+2028, U+2029, U+202F, U+205F, U+3000.
\<close>

definition whitespace :: "string list" where
  "whitespace =
     map (\<lambda>n. [char_of n]) [9 :: nat, 10, 11, 12, 13, 32] @
     map (map (char_of :: nat \<Rightarrow> char))
       ([[0xC2, 0xA0], [0xEF, 0xBB, 0xBF], [0xE1, 0x9A, 0x80], [0xE2, 0x80, 0xA8],
         [0xE2, 0x80, 0xA9], [0xE2, 0x80, 0xAF], [0xE2, 0x81, 0x9F], [0xE3, 0x80, 0x80]] @
        map (\<lambda>k. [0xE2, 0x80, k]) [0x80, 0x81, 0x82, 0x83, 0x84, 0x85, 0x86, 0x87, 0x88, 0x89, 0x8A])"

definition starts_with :: "string \<Rightarrow> string \<Rightarrow> bool" where
  "starts_with s p \<longleftrightarrow> take (length p) s = p"

definition ends_with :: "string \<Rightarrow> string \<Rightarrow> bool" where
  "ends_with s p \<longleftrightarrow> starts_with (rev s) (rev p)"

definition leading_ws :: "string \<Rightarrow> string option" where
  "leading_ws s = find (starts_with s) whitespace"

definition trailing_ws :: "string \<Rightarrow> string option" where
  "trailing_ws s = find (ends_with s) whitespace"

lemma whitespace_nonempty: "w \<in> set whitespace \<Longrightarrow> w \<noteq> []"
  by (auto simp: whitespace_def)

lemma starts_with_iff: "starts_with s p \<longleftrightarrow> (\<exists>t. s = p @ t)"
  by (metis append_eq_conv_conj append_take_drop_id starts_with_def)

lemma ends_with_iff: "ends_with s p \<longleftrightarrow> (\<exists>t. s = t @ p)"
  unfolding ends_with_def starts_with_iff by (metis rev_append rev_rev_ident)

lemma leading_ws_SomeD: "leading_ws s = Some w \<Longrightarrow> w \<in> set whitespace \<and> starts_with s w"
  by (auto simp: leading_ws_def find_Some_iff)

lemma trailing_ws_SomeD: "trailing_ws s = Some w \<Longrightarrow> w \<in> set whitespace \<and> ends_with s w"
  by (auto simp: trailing_ws_def find_Some_iff)

lemma leading_ws_None: "leading_ws s = None \<longleftrightarrow> (\<forall>w \<in> set whitespace. \<not> starts_with s w)"
  by (auto simp: leading_ws_def find_None_iff)

lemma trailing_ws_None: "trailing_ws s = None \<longleftrightarrow> (\<forall>w \<in> set whitespace. \<not> ends_with s w)"
  by (auto simp: trailing_ws_def find_None_iff)

lemma leading_ws_shorter: "leading_ws s = Some w \<Longrightarrow> length (drop (length w) s) < length s"
  by (drule leading_ws_SomeD) (auto simp: starts_with_iff dest: whitespace_nonempty)

lemma trailing_ws_shorter: "trailing_ws s = Some w \<Longrightarrow> length (take (length s - length w) s) < length s"
  by (drule trailing_ws_SomeD) (auto simp: ends_with_iff dest: whitespace_nonempty)

function trim_start :: "string \<Rightarrow> string" where
  "trim_start s = (case leading_ws s of None \<Rightarrow> s | Some w \<Rightarrow> trim_start (drop (length w) s))"
  by pat_completeness auto
termination by (relation "measure length") (auto dest: leading_ws_shorter)

function trim_end :: "string \<Rightarrow> string" where
  "trim_end s =
     (case trailing_ws s of None \<Rightarrow> s | Some w \<Rightarrow> trim_end (take (length s - length w) s))"
  by pat_completeness auto
termination by (relation "measure length") (auto dest: trailing_ws_shorter)

declare trim_start.simps [simp del] trim_end.simps [simp del]

definition trim :: "string \<Rightarrow> string" where
  "trim s = trim_end (trim_start s)"

lemma trim_start_None: "leading_ws (trim_start s) = None"
  by (induction s rule: trim_start.induct) (subst trim_start.simps, simp split: option.split)

lemma trim_end_None: "trailing_ws (trim_end s) = None"
  by (induction s rule: trim_end.induct) (subst trim_end.simps, simp split: option.split)

lemma trim_start_fix: "leading_ws s = None \<Longrightarrow> trim_start s = s"
  by (subst trim_start.simps) simp

lemma trim_end_fix: "trailing_ws s = None \<Longrightarrow> trim_end s = s"
  by (subst trim_end.simps) simp

lemma trim_end_prefix: "\<exists>t. s = trim_end s @ t"
proof (induction s rule: trim_end.induct)
  case (1 s)
  show ?case
  proof (cases "trailing_ws s")
    case None
    then show ?thesis by (simp add: trim_end_fix)
  next
    case (Some w)
    with "1" obtain t where "take (length s - length w) s = trim_end (take (length s - length w) s) @ t"
      by blast
    then have "s = trim_end (take (length s - length w) s) @ t @ drop (length s - length w) s"
      by (metis append.assoc append_take_drop_id)
    moreover have "trim_end s = trim_end (take (length s - length w) s)"
      using Some by (subst trim_end.simps) simp
    ultimately show ?thesis by metis
  qed
qed

lemma leading_ws_None_prefix: "leading_ws (a @ b) = None \<Longrightarrow> leading_ws a = None"
  by (auto simp: leading_ws_None starts_with_iff)

lemma trim_no_ws: "leading_ws (trim s) = None" "trailing_ws (trim s) = None"
  unfolding trim_def
  by (metis leading_ws_None_prefix trim_end_prefix trim_start_None) (rule trim_end_None)

lemma trim_fix: "leading_ws s = None \<Longrightarrow> trailing_ws s = None \<Longrightarrow> trim s = s"
  by (simp add: trim_def trim_start_fix trim_end_fix)

lemma whitespace_bytes: "w \<in> set whitespace \<Longrightarrow> c \<in> set w \<Longrightarrow> byte c \<le> 32 \<or> 128 \<le> byte c"
  by (auto simp: whitespace_def)

lemma trim_plain:
  assumes "list_all (\<lambda>c. 32 < byte c \<and> byte c < 128) s"
  shows "trim s = s"
proof (rule trim_fix)
  have no: "c \<notin> set s" if "w \<in> set whitespace" "c \<in> set w" for w c
    using whitespace_bytes [OF that] assms by (auto simp: list_all_iff)
  have ne: "\<exists>c. c \<in> set w" if "w \<in> set whitespace" for w
    using whitespace_nonempty [OF that] by (cases w) auto
  show "leading_ws s = None" unfolding leading_ws_None
  proof
    fix w assume w: "w \<in> set whitespace"
    with ne obtain c where "c \<in> set w" by blast
    with no [OF w] show "\<not> starts_with s w" by (auto simp: starts_with_iff)
  qed
  show "trailing_ws s = None" unfolding trailing_ws_None
  proof
    fix w assume w: "w \<in> set whitespace"
    with ne obtain c where "c \<in> set w" by blast
    with no [OF w] show "\<not> ends_with s w" by (auto simp: ends_with_iff)
  qed
qed

lemma trim_trim [simp]: "trim (trim s) = trim s"
  by (rule trim_fix) (rule trim_no_ws)+

lemma trim_Nil [simp]: "trim [] = []"
  by (rule trim_fix)
    (auto simp: leading_ws_None trailing_ws_None starts_with_iff ends_with_iff dest: whitespace_nonempty)

section \<open>Other string operations\<close>

text \<open>\<open>replaceAll\<close> of a one-byte pattern by a fixed text.\<close>

definition replace_char :: "char \<Rightarrow> string \<Rightarrow> string \<Rightarrow> string" where
  "replace_char c r s = concat (map (\<lambda>x. if x = c then r else [x]) s)"

fun split_on :: "char \<Rightarrow> string \<Rightarrow> string list" where
  "split_on c [] = [[]]"
| "split_on c (x # xs) =
     (if x = c then [] # split_on c xs
      else case split_on c xs of [] \<Rightarrow> [[x]] | p # ps \<Rightarrow> (x # p) # ps)"

fun join :: "string \<Rightarrow> string list \<Rightarrow> string" where
  "join sep [] = []"
| "join sep [x] = x"
| "join sep (x # y # ys) = x @ sep @ join sep (y # ys)"

definition contains :: "string \<Rightarrow> string \<Rightarrow> bool" where
  "contains s p \<longleftrightarrow> list_ex (\<lambda>k. starts_with (drop k s) p) [0..<Suc (length s)]"

definition upper_char :: "char \<Rightarrow> char" where
  "upper_char c = (if 97 \<le> byte c \<and> byte c \<le> 122 then char_of (byte c - 32) else c)"

definition lower_char :: "char \<Rightarrow> char" where
  "lower_char c = (if 65 \<le> byte c \<and> byte c \<le> 90 then char_of (byte c + 32) else c)"

definition to_upper :: "string \<Rightarrow> string" where
  "to_upper s = map upper_char s"

definition to_lower :: "string \<Rightarrow> string" where
  "to_lower s = map lower_char s"

lemma replace_char_Nil [simp]: "replace_char c r [] = []"
  by (simp add: replace_char_def)

lemma replace_char_Cons [simp]:
  "replace_char c r (x # xs) = (if x = c then r else [x]) @ replace_char c r xs"
  by (simp add: replace_char_def)

lemma replace_char_append [simp]: "replace_char c r (a @ b) = replace_char c r a @ replace_char c r b"
  by (simp add: replace_char_def)

lemma replace_char_absent: "c \<notin> set s \<Longrightarrow> replace_char c r s = s"
  by (induction s) auto

lemma set_replace_char: "set (replace_char c r s) \<subseteq> (set s - {c}) \<union> set r"
  by (induction s) auto

lemma split_on_nonempty [simp]: "split_on c s \<noteq> []"
  by (induction s) (auto split: list.splits)

lemma split_on_absent: "c \<notin> set s \<Longrightarrow> split_on c s = [s]"
  by (induction s) auto

lemma split_on_append_sep: "c \<notin> set a \<Longrightarrow> split_on c (a @ c # b) = a # split_on c b"
  by (induction a) auto

lemma split_on_parts: "p \<in> set (split_on c s) \<Longrightarrow> c \<notin> set p"
  by (induction s arbitrary: p) (auto split: list.splits if_splits)

lemma split_on_join:
  "ps \<noteq> [] \<Longrightarrow> \<forall>p \<in> set ps. c \<notin> set p \<Longrightarrow> split_on c (join [c] ps) = ps"
proof (induction ps rule: induct_list012)
  case (3 x y zs)
  then show ?case by (simp add: split_on_append_sep)
qed (auto simp: split_on_absent)

section \<open>Decimal digits\<close>

definition digit_char :: "nat \<Rightarrow> char" where
  "digit_char d = char_of (48 + d)"

function decimal :: "nat \<Rightarrow> string" where
  "decimal n = (if n < 10 then [digit_char n] else decimal (n div 10) @ [digit_char (n mod 10)])"
  by pat_completeness auto
termination by (relation "measure id") auto

declare decimal.simps [simp del]

definition is_digit :: "char \<Rightarrow> bool" where
  "is_digit c \<longleftrightarrow> 48 \<le> byte c \<and> byte c \<le> 57"

definition digit_value :: "char \<Rightarrow> nat" where
  "digit_value c = byte c - 48"

definition digits_value :: "string \<Rightarrow> nat" where
  "digits_value s = foldl (\<lambda>v c. 10 * v + digit_value c) 0 s"

definition pad_start :: "nat \<Rightarrow> char \<Rightarrow> string \<Rightarrow> string" where
  "pad_start n c s = replicate (n - length s) c @ s"

lemma byte_digit_char: "d < 10 \<Longrightarrow> byte (digit_char d) = 48 + d"
  by (simp add: digit_char_def)

lemma digit_char_props [simp]:
  assumes "d < 10"
  shows "is_digit (digit_char d)" "digit_value (digit_char d) = d"
  using assms by (simp_all add: is_digit_def digit_value_def byte_digit_char)

lemma digits_value_append: "digits_value (a @ [c]) = 10 * digits_value a + digit_value c"
  by (simp add: digits_value_def)

lemma decimal_nonempty [simp]: "decimal n \<noteq> []"
  by (subst decimal.simps) simp

lemma decimal_digits: "list_all is_digit (decimal n)"
proof (induction n rule: decimal.induct)
  case (1 n)
  then show ?case by (subst decimal.simps) auto
qed

lemma digits_value_decimal [simp]: "digits_value (decimal n) = n"
proof (induction n rule: decimal.induct)
  case (1 n)
  then show ?case
    by (subst decimal.simps) (auto simp: digits_value_append, simp add: digits_value_def)
qed

lemma digits_value_replicate0: "digits_value (replicate k (digit_char 0) @ s) = digits_value s"
  by (induction k) (simp_all add: digits_value_def)

lemma digit_char_inverse: "is_digit c \<Longrightarrow> digit_char (digit_value c) = c"
  by (simp add: digit_char_def digit_value_def is_digit_def)

lemma digit_value_less: "is_digit c \<Longrightarrow> digit_value c < 10"
  by (auto simp: digit_value_def is_digit_def intro: le_less_trans)

lemma digits_value_less: "list_all is_digit s \<Longrightarrow> digits_value s < 10 ^ length s"
proof (induction s rule: rev_induct)
  case Nil
  then show ?case by (simp add: digits_value_def)
next
  case (snoc c s)
  then have "digits_value s < 10 ^ length s" "digit_value c < 10" by (auto simp: digit_value_less)
  then show ?case by (simp add: digits_value_append)
qed

text \<open>Padding the digits of a number recovers any digit string of that length.\<close>

lemma length_decimal: "n < 10 ^ k \<Longrightarrow> 0 < k \<Longrightarrow> length (decimal n) \<le> k"
proof (induction k arbitrary: n)
  case (Suc k)
  show ?case
  proof (cases "n < 10")
    case True
    then show ?thesis by (subst decimal.simps) simp
  next
    case False
    then have "k \<noteq> 0" using Suc.prems by (cases k) auto
    moreover have "n div 10 < 10 ^ k" using Suc.prems by (simp add: less_mult_imp_div_less)
    ultimately have "length (decimal (n div 10)) \<le> k" using Suc.IH by simp
    with False show ?thesis by (subst decimal.simps) simp
  qed
qed simp

lemma length_pad_start: "length s \<le> n \<Longrightarrow> length (pad_start n c s) = n"
  by (simp add: pad_start_def)

lemma digits_value_inj:
  "list_all is_digit s \<Longrightarrow> list_all is_digit t \<Longrightarrow> length s = length t \<Longrightarrow>
   digits_value s = digits_value t \<Longrightarrow> s = t"
proof (induction s arbitrary: t rule: rev_induct)
  case (snoc c s)
  then obtain d u where t: "t = u @ [d]" by (cases t rule: rev_cases) auto
  from snoc.prems t have cd: "digit_value c < 10" "digit_value d < 10" "is_digit c" "is_digit d"
    by (auto simp: digit_value_less)
  from snoc.prems t have "10 * digits_value s + digit_value c = 10 * digits_value u + digit_value d"
    by (simp add: digits_value_append)
  with cd have "digits_value s = digits_value u" "digit_value c = digit_value d" by arith+
  moreover have "c = d"
    using \<open>digit_value c = digit_value d\<close> cd digit_char_inverse by metis
  ultimately show ?case using snoc t by simp
qed simp

lemma pad_start_digits_value:
  assumes "list_all is_digit s" "length s = n" "0 < n"
  shows "pad_start n (digit_char 0) (decimal (digits_value s)) = s"
proof (rule digits_value_inj)
  have "digits_value s < 10 ^ n" using assms digits_value_less by blast
  then have len: "length (decimal (digits_value s)) \<le> n" using assms length_decimal by blast
  show "list_all is_digit (pad_start n (digit_char 0) (decimal (digits_value s)))"
    using decimal_digits by (auto simp: pad_start_def list_all_iff)
  show "length (pad_start n (digit_char 0) (decimal (digits_value s))) = length s"
    using len assms by (simp add: length_pad_start)
  show "digits_value (pad_start n (digit_char 0) (decimal (digits_value s))) = digits_value s"
    by (simp add: pad_start_def digits_value_replicate0)
qed (use assms in simp)

end
