(* ===== verification/Uri.thy ===== *)
theory Uri
  imports Js_Text
begin

text \<open>
  The URL functions of the platform that the program calls: \<open>encodeURIComponent\<close>,
  \<open>decodeURIComponent\<close>, \<open>decodeURI\<close> and \<open>URLSearchParams\<close>, on UTF-8 byte strings.
  A \<open>URIError\<close> is the value \<open>None\<close>. The locale \<open>keyed_store\<close> is what the pages use of a
  \<open>URLSearchParams\<close> or a \<open>Map\<close>: reading after writing and deleting.
\<close>

section \<open>Percent-encoding\<close>

definition alnum :: "char \<Rightarrow> bool" where
  "alnum c \<longleftrightarrow> is_digit c \<or> (65 \<le> byte c \<and> byte c \<le> 90) \<or> (97 \<le> byte c \<and> byte c \<le> 122)"

definition hex_digit :: "nat \<Rightarrow> char" where
  "hex_digit v = (if v < 10 then char_of (48 + v) else char_of (55 + v))"

definition hex_value :: "char \<Rightarrow> nat option" where
  "hex_value c =
     (if is_digit c then Some (byte c - 48)
      else if 65 \<le> byte c \<and> byte c \<le> 70 then Some (byte c - 55)
      else if 97 \<le> byte c \<and> byte c \<le> 102 then Some (byte c - 87) else None)"

definition pct :: "char \<Rightarrow> string" where
  "pct c = [CHR ''%'', hex_digit (byte c div 16), hex_digit (byte c mod 16)]"

definition uri_unreserved :: "char \<Rightarrow> bool" where
  "uri_unreserved c \<longleftrightarrow> alnum c \<or> c \<in> set ''-_.!~*()'' \<or> byte c = 39"

definition encodeURIComponent :: "string \<Rightarrow> string" where
  "encodeURIComponent s = concat (map (\<lambda>c. if uri_unreserved c then [c] else pct c) s)"

fun escape :: "string \<Rightarrow> (nat \<times> string) option" where
  "escape (p # a # b # r) =
     (if p \<noteq> CHR ''%'' then None
      else case (hex_value a, hex_value b) of (Some x, Some y) \<Rightarrow> Some (16 * x + y, r) | _ \<Rightarrow> None)"
| "escape _ = None"

fun take_escapes :: "nat \<Rightarrow> string \<Rightarrow> (string \<times> string) option" where
  "take_escapes 0 s = Some ([], s)"
| "take_escapes (Suc n) s =
     (case escape s of None \<Rightarrow> None
      | Some (b, r) \<Rightarrow>
          (case take_escapes n r of None \<Rightarrow> None | Some (bs, r') \<Rightarrow> Some (char_of b # bs, r')))"

lemma escape_shorter: "escape s = Some (b, r) \<Longrightarrow> length r < length s"
  by (induction s rule: escape.induct) (auto split: if_splits option.splits)

lemma take_escapes_shorter: "take_escapes n s = Some (bs, r) \<Longrightarrow> length r \<le> length s"
  by (induction n arbitrary: s bs) (fastforce split: option.splits dest: escape_shorter)+

text \<open>
  The decoding of ECMAScript: an escape below 128 stands for itself unless it is in the set that
  \<open>decodeURI\<close> preserves, a larger one must begin a well-formed UTF-8 sequence of escapes.
\<close>

function decode_uri :: "string \<Rightarrow> string \<Rightarrow> string option" where
  "decode_uri keep [] = Some []"
| "decode_uri keep (c # s) =
     (if c \<noteq> CHR ''%'' then map_option ((#) c) (decode_uri keep s)
      else
        case escape (c # s) of None \<Rightarrow> None
        | Some (b, r) \<Rightarrow>
            if b < 128 then
              map_option ((@) (if char_of b \<in> set keep then take 3 (c # s) else [char_of b]))
                (decode_uri keep r)
            else if utf8_size b = 0 then None
            else
              case take_escapes (utf8_size b - 1) r of None \<Rightarrow> None
              | Some (bs, r') \<Rightarrow>
                  if utf8_seq (char_of b # bs)
                  then map_option ((@) (char_of b # bs)) (decode_uri keep r') else None)"
  by pat_completeness auto
termination
proof (relation "measure (\<lambda>(_, s). length s)", goal_cases)
  case (4 keep c s x b r y bs r')
  then show ?case using escape_shorter [of "c # s"] take_escapes_shorter by fastforce
qed (auto dest: escape_shorter)

definition decodeURIComponent :: "string \<Rightarrow> string option" where
  "decodeURIComponent s = decode_uri [] s"

definition decodeURI :: "string \<Rightarrow> string option" where
  "decodeURI s = decode_uri '';/?:@&=+$,#'' s"

lemma byte_less: "byte c < 256"
  by (rule nat_of_char_less_256)

lemma hex_value_digit: "v < 16 \<Longrightarrow> hex_value (hex_digit v) = Some v"
  by (auto simp: hex_value_def hex_digit_def is_digit_def)

lemma escape_pct: "escape (pct c @ s) = Some (byte c, s)"
proof -
  have "byte c div 16 < 16" using byte_less [of c] by linarith
  then show ?thesis by (simp add: pct_def hex_value_digit)
qed

lemma take_escapes_pct: "take_escapes (length q) (concat (map pct q) @ s) = Some (q, s)"
  by (induction q) (auto simp: escape_pct)

lemma percent_reserved: "\<not> uri_unreserved CHR ''%''"
  by (simp add: uri_unreserved_def alnum_def is_digit_def)

lemma high_reserved: "128 \<le> byte c \<Longrightarrow> \<not> uri_unreserved c"
  by (auto simp: uri_unreserved_def alnum_def is_digit_def)

lemma pct_hd: "pct c @ s = CHR ''%'' # tl (pct c) @ s"
  by (simp add: pct_def)

lemma decode_uri_pct_low:
  assumes "byte c < 128"
  shows "decode_uri [] (pct c @ s) = map_option ((#) c) (decode_uri [] s)"
  unfolding pct_hd using assms escape_pct [of c s] by (simp add: pct_hd) (metis append_Cons append_Nil)

lemma decode_uri_pct_high:
  assumes "utf8_seq (b # q)" "128 \<le> byte b"
  shows "decode_uri [] (concat (map pct (b # q)) @ s) = map_option ((@) (b # q)) (decode_uri [] s)"
proof -
  have size: "utf8_size (byte b) = Suc (length q)" using assms by (simp add: utf8_seq_Cons)
  have "escape (pct b @ concat (map pct q) @ s) = Some (byte b, concat (map pct q) @ s)"
    by (rule escape_pct)
  then show ?thesis
    using assms size take_escapes_pct [of q s] unfolding list.map concat.simps append.assoc
    by (simp add: pct_hd)
qed

lemma utf8_seq_high: "utf8_seq (b # q) \<Longrightarrow> 128 \<le> byte b \<Longrightarrow> c \<in> set (b # q) \<Longrightarrow> 128 \<le> byte c"
  by (auto simp: utf8_seq_def list_all_iff utf8_cont_def)

lemma encodeURIComponent_append:
  "encodeURIComponent (a @ b) = encodeURIComponent a @ encodeURIComponent b"
  by (simp add: encodeURIComponent_def)

lemma encodeURIComponent_high:
  "\<forall>c \<in> set q. 128 \<le> byte c \<Longrightarrow> encodeURIComponent q = concat (map pct q)"
  by (induction q) (auto simp: encodeURIComponent_def high_reserved)

lemma decode_encode:
  assumes "utf8_text s"
  shows "decodeURIComponent (encodeURIComponent s) = Some s"
  unfolding decodeURIComponent_def using assms
proof (induction s rule: utf8_text.induct)
  case 1
  then show ?case by (simp add: encodeURIComponent_def)
next
  case (2 b bs)
  define n where "n = utf8_size (byte b)"
  have seq: "utf8_seq (take n (b # bs))" and n: "n \<noteq> 0"
    and rest: "utf8_text (drop (n - 1) bs)"
    using "2.prems" by (auto simp: n_def Let_def)
  have ih: "decode_uri [] (encodeURIComponent (drop (n - 1) bs)) = Some (drop (n - 1) bs)"
    using "2.IH" n rest by (simp add: n_def)
  define q where "q = take (n - 1) bs"
  have seq': "utf8_seq (b # q)" using seq n by (cases n) (auto simp: q_def)
  have split: "b # bs = (b # q) @ drop (n - 1) bs" by (simp add: q_def)
  show ?case
  proof (cases "byte b < 128")
    case True
    then have "n = 1" by (simp add: n_def utf8_size_def)
    then have "q = []" by (simp add: q_def)
    then show ?thesis
      using ih split True percent_reserved \<open>n = 1\<close>
      by (auto simp: encodeURIComponent_def decode_uri_pct_low)
  next
    case False
    then have high: "\<forall>c \<in> set (b # q). 128 \<le> byte c" using utf8_seq_high [OF seq'] by auto
    have "encodeURIComponent (b # bs) = concat (map pct (b # q)) @ encodeURIComponent (drop (n - 1) bs)"
      by (subst split) (simp only: encodeURIComponent_append encodeURIComponent_high [OF high])
    then have "decode_uri [] (encodeURIComponent (b # bs)) = Some ((b # q) @ drop (n - 1) bs)"
      using decode_uri_pct_high [OF seq', of "encodeURIComponent (drop (n - 1) bs)"] False ih by simp
    then show ?thesis using split by simp
  qed
qed

lemma encodeURIComponent_unreserved: "list_all uri_unreserved s \<Longrightarrow> encodeURIComponent s = s"
  by (induction s) (auto simp: encodeURIComponent_def)

lemma decode_uri_plain: "CHR ''%'' \<notin> set s \<Longrightarrow> decode_uri keep s = Some s"
  by (induction s) auto

section \<open>URLSearchParams\<close>

type_synonym params = "(string \<times> string) list"

definition params_get :: "params \<Rightarrow> string \<Rightarrow> string option" where
  "params_get ps k = map_of ps k"

definition params_has :: "params \<Rightarrow> string \<Rightarrow> bool" where
  "params_has ps k \<longleftrightarrow> k \<in> fst ` set ps"

text \<open>\<open>set\<close> writes the first pair of that name and removes the others, or appends one.\<close>

fun params_set :: "string \<Rightarrow> string \<Rightarrow> params \<Rightarrow> params" where
  "params_set k v [] = [(k, v)]"
| "params_set k v (p # ps) =
     (if fst p = k then (k, v) # filter (\<lambda>q. fst q \<noteq> k) ps else p # params_set k v ps)"

definition params_delete :: "string \<Rightarrow> params \<Rightarrow> params" where
  "params_delete k ps = filter (\<lambda>q. fst q \<noteq> k) ps"

definition form_char :: "char \<Rightarrow> string" where
  "form_char c =
     (if alnum c \<or> c \<in> set ''*-._'' then [c] else if c = CHR '' '' then ''+'' else pct c)"

definition form_encode :: "string \<Rightarrow> string" where
  "form_encode s = concat (map form_char s)"

definition params_string :: "params \<Rightarrow> string" where
  "params_string ps = join ''&'' (map (\<lambda>(k, v). form_encode k @ ''='' @ form_encode v) ps)"

fun form_decode :: "string \<Rightarrow> string" where
  "form_decode [] = []"
| "form_decode (c # s) =
     (if c = CHR ''+'' then CHR '' '' # form_decode s
      else if c = CHR ''%'' then
        (case s of a # b # r \<Rightarrow>
           (case (hex_value a, hex_value b) of
              (Some x, Some y) \<Rightarrow> char_of (16 * x + y) # form_decode r
            | _ \<Rightarrow> c # form_decode s)
         | _ \<Rightarrow> c # form_decode s)
      else c # form_decode s)"

text \<open>
  \<open>new URLSearchParams(text)\<close>. The program only parses texts that \<open>toString\<close> produced, where the
  bytes are those of a well-formed string and no replacement character is needed.
\<close>

definition parse_pair :: "string \<Rightarrow> string \<times> string" where
  "parse_pair s =
     (form_decode (takeWhile (\<lambda>c. c \<noteq> CHR ''='') s),
      form_decode (tl (dropWhile (\<lambda>c. c \<noteq> CHR ''='') s)))"

definition params_parse :: "string \<Rightarrow> params" where
  "params_parse s = map parse_pair (filter (\<lambda>p. p \<noteq> []) (split_on CHR ''&'' s))"

locale keyed_store =
  fixes get :: "'m \<Rightarrow> 'k \<Rightarrow> 'v option"
    and put :: "'k \<Rightarrow> 'v \<Rightarrow> 'm \<Rightarrow> 'm"
    and del :: "'k \<Rightarrow> 'm \<Rightarrow> 'm"
  assumes get_put: "get (put k v m) k' = (if k' = k then Some v else get m k')"
    and get_del: "get (del k m) k' = (if k' = k then None else get m k')"
begin

text \<open>A field is written only where it has a value, and otherwise left as it was.\<close>

definition put_when :: "bool \<Rightarrow> 'k \<Rightarrow> 'v \<Rightarrow> 'm \<Rightarrow> 'm" where
  "put_when b k v m = (if b then put k v m else m)"

lemma get_put_when: "get (put_when b k v m) k' = (if k' = k \<and> b then Some v else get m k')"
  by (simp add: put_when_def get_put)

lemma put_commute: "k \<noteq> k' \<Longrightarrow> get (put k v (put k' v' m)) x = get (put k' v' (put k v m)) x"
  by (simp add: get_put)

lemma get_fold_put:
  "get (fold (\<lambda>k m. case f k of None \<Rightarrow> m | Some v \<Rightarrow> put k v m) ks m) x =
     (if x \<in> set ks \<and> f x \<noteq> None then f x else get m x)"
  by (induction ks arbitrary: m) (auto simp: get_put split: option.splits)

end

lemma map_of_filter_key: "map_of (filter (\<lambda>q. fst q \<noteq> k) ps) k' = (if k' = k then None else map_of ps k')"
  by (induction ps) auto

lemma params_get_set: "params_get (params_set k v ps) k' = (if k' = k then Some v else params_get ps k')"
  by (induction ps) (auto simp: params_get_def map_of_filter_key)

lemma params_get_delete: "params_get (params_delete k ps) k' = (if k' = k then None else params_get ps k')"
  by (simp add: params_get_def params_delete_def map_of_filter_key)

interpretation search_params: keyed_store params_get params_set params_delete
  by unfold_locales (simp_all add: params_get_set params_get_delete)

interpretation js_map: keyed_store map_of AList.update AList.delete
  by unfold_locales (simp_all add: update_conv' delete_conv')

lemma params_has_get: "params_has ps k \<longleftrightarrow> params_get ps k \<noteq> None"
  by (auto simp: params_has_def params_get_def map_of_eq_None_iff)

lemma params_set_new: "\<not> params_has ps k \<Longrightarrow> params_set k v ps = ps @ [(k, v)]"
  by (induction ps) (auto simp: params_has_def)

subsection \<open>Serialising and parsing\<close>

lemma form_decode_char: "form_decode (form_char c @ s) = c # form_decode s"
proof -
  have "byte c div 16 < 16" using byte_less [of c] by linarith
  moreover have "c \<noteq> CHR ''+'' \<and> c \<noteq> CHR ''%''" if "alnum c \<or> c \<in> set ''*-._''"
    using that by (auto simp: alnum_def is_digit_def)
  ultimately show ?thesis by (auto simp: form_char_def pct_def hex_value_digit)
qed

lemma form_decode_encode: "form_decode (form_encode s) = s"
  by (induction s) (simp_all add: form_encode_def form_decode_char)

lemma hex_digit_alnum: "v < 16 \<Longrightarrow> alnum (hex_digit v)"
  by (auto simp: alnum_def hex_digit_def is_digit_def)

lemma alnum_clean: "alnum c \<Longrightarrow> c \<noteq> CHR ''='' \<and> c \<noteq> CHR ''&''"
  by (auto simp: alnum_def is_digit_def)

lemma form_char_clean: "CHR ''='' \<notin> set (form_char c) \<and> CHR ''&'' \<notin> set (form_char c)"
proof -
  have "alnum (hex_digit (byte c div 16))" "alnum (hex_digit (byte c mod 16))"
    using byte_less [of c] by (intro hex_digit_alnum; linarith)+
  note clean = this [THEN alnum_clean]
  consider "alnum c \<or> c \<in> set ''*-._''" | "c = CHR '' ''" "\<not> (alnum c \<or> c \<in> set ''*-._'')"
    | "\<not> (alnum c \<or> c \<in> set ''*-._'')" "c \<noteq> CHR '' ''" by blast
  then show ?thesis
  proof cases
    case 1
    then show ?thesis using alnum_clean [of c] by (simp add: form_char_def) auto
  next
    case 2
    then show ?thesis by (simp add: form_char_def)
  next
    case 3
    then have "form_char c = pct c" by (simp only: form_char_def if_False)
    then show ?thesis using clean by (auto simp: pct_def)
  qed
qed

lemma form_encode_clean: "CHR ''='' \<notin> set (form_encode s)" "CHR ''&'' \<notin> set (form_encode s)"
  using form_char_clean by (auto simp: form_encode_def)

lemma parse_pair_encode: "parse_pair (form_encode k @ ''='' @ form_encode v) = (k, v)"
proof -
  have "takeWhile (\<lambda>c. c \<noteq> CHR ''='') (a @ CHR ''='' # b) = a"
    "dropWhile (\<lambda>c. c \<noteq> CHR ''='') (a @ CHR ''='' # b) = CHR ''='' # b"
    if "CHR ''='' \<notin> set a" for a b :: string
    using that by (induction a) auto
  note this [OF form_encode_clean(1)]
  then show ?thesis by (simp add: parse_pair_def form_decode_encode)
qed

lemma params_parse_string: "params_parse (params_string ps) = ps"
proof (cases "ps = []")
  case True
  then show ?thesis by (simp add: params_parse_def params_string_def)
next
  case False
  let ?f = "\<lambda>(k, v). form_encode k @ ''='' @ form_encode v"
  have "split_on CHR ''&'' (params_string ps) = map ?f ps"
    unfolding params_string_def using False form_encode_clean(2)
    by (intro split_on_join) auto
  moreover have "filter (\<lambda>p. p \<noteq> []) (map ?f ps) = map ?f ps"
    by (rule filter_True) auto
  moreover have "map (parse_pair \<circ> ?f) ps = ps"
    by (rule map_idI) (auto simp: parse_pair_encode simp del: append_Cons)
  ultimately show ?thesis by (simp add: params_parse_def)
qed

end
