(* ===== verification/Js_Number.thy ===== *)
theory Js_Number
  imports Js_Text "HOL-Library.Log_Nat"
begin

text \<open>
  JavaScript numbers: IEEE 754 doubles. A finite number is the rational it denotes (the two zeros
  are one, no operation here tells them apart), and every operation that rounds goes through
  \<open>dbl\<close>, round to nearest with ties to even at 53 significant bits, with gradual underflow and
  overflow to an infinity. On top of it: division, multiplication, \<open>Math.round\<close>, \<open>Math.min\<close>,
  \<open>Number(text)\<close>, \<open>String(number)\<close> and \<open>toFixed\<close>.
\<close>

datatype jsnum = NaN | Infinite bool | Fin rat

section \<open>Rounding\<close>

text \<open>The binary exponent of a positive rational: the largest \<open>e\<close> with \<open>2 powi e \<le> r\<close>.\<close>

definition bexp :: "rat \<Rightarrow> int" where
  "bexp r = (let (n, d) = quotient_of r; e = bitlen n - bitlen d in if 2 powi e \<le> r then e else e - 1)"

definition round_half_even :: "rat \<Rightarrow> int" where
  "round_half_even x =
     (let f = \<lfloor>x\<rfloor>; r = x - of_int f in
      if r < 1 / 2 then f else if 1 / 2 < r then f + 1 else if even f then f else f + 1)"

definition dbl :: "rat \<Rightarrow> jsnum" where
  "dbl r =
     (if r = 0 then Fin 0
      else
        let a = \<bar>r\<bar>; q = max (bexp a - 52) (- 1074);
            v = of_int (round_half_even (a / 2 powi q)) * 2 powi q
        in if 2 ^ 1024 \<le> v then Infinite (r < 0) else Fin (sgn r * v))"

lemma quotient_pos:
  assumes "0 < r" "quotient_of r = (n, d)"
  shows "0 < n" "0 < d" "r = of_int n / of_int d"
  using assms quotient_of_denom_pos [OF assms(2)] quotient_of_div [OF assms(2)]
  by (simp_all add: zero_less_divide_iff)

lemma bitlen_powi:
  fixes n :: int
  assumes "0 < n"
  shows "2 powi (bitlen n - 1) \<le> (of_int n :: rat)" "(of_int n :: rat) < 2 powi (bitlen n)"
proof -
  have len: "1 \<le> bitlen n" using assms by (simp add: bitlen_ge_iff_power)
  have b: "2 ^ nat (bitlen n - 1) \<le> n" "n < 2 ^ nat (bitlen n)" using bitlen_bounds [OF assms] by auto
  have "(of_int (2 ^ nat (bitlen n - 1)) :: rat) \<le> of_int n" using b(1) by (simp only: of_int_le_iff)
  then show "2 powi (bitlen n - 1) \<le> (of_int n :: rat)" using len by (simp add: power_int_def)
  have "(of_int n :: rat) < of_int (2 ^ nat (bitlen n))" using b(2) by (simp only: of_int_less_iff)
  then show "(of_int n :: rat) < 2 powi (bitlen n)" using len by (simp add: power_int_def)
qed

lemma bexp_bounds:
  assumes "0 < r"
  shows "2 powi (bexp r) \<le> r" "r < 2 powi (bexp r + 1)"
proof -
  obtain n d where q: "quotient_of r = (n, d)" by fastforce
  note nd = quotient_pos [OF assms q]
  have n: "2 powi (bitlen n - 1) \<le> (of_int n :: rat)" "(of_int n :: rat) < 2 powi (bitlen n)"
    and d: "2 powi (bitlen d - 1) \<le> (of_int d :: rat)" "(of_int d :: rat) < 2 powi (bitlen d)"
    using bitlen_powi nd by blast+
  define e where "e = bitlen n - bitlen d"
  have d0: "0 < (of_int d :: rat)" using nd by simp
  have "(2 :: rat) powi (e - 1) * of_int d \<le> 2 powi (e - 1) * 2 powi (bitlen d)"
    using d by (intro mult_left_mono) auto
  also have "\<dots> = 2 powi (bitlen n - 1)" by (simp add: e_def flip: power_int_add)
  finally have lo: "2 powi (e - 1) \<le> r" using n d0 nd(3) by (simp add: pos_le_divide_eq)
  have "(of_int n :: rat) < 2 powi (e + 1) * 2 powi (bitlen d - 1)"
    using n by (simp add: e_def flip: power_int_add)
  also have "\<dots> \<le> 2 powi (e + 1) * of_int d" using d by (intro mult_left_mono) auto
  finally have hi: "r < 2 powi (e + 1)" using d0 nd(3) by (simp add: pos_divide_less_eq)
  show "2 powi (bexp r) \<le> r" "r < 2 powi (bexp r + 1)"
    using lo hi by (auto simp: bexp_def q e_def Let_def)
qed

lemma round_half_even_of_int [simp]: "round_half_even (of_int k) = k"
  by (simp add: round_half_even_def)

lemma near_integer:
  fixes x y z :: rat
  assumes "y \<le> x" "x < y + 1"
    and "z \<in> (if x - y < 1 / 2 then {y} else if 1 / 2 < x - y then {y + 1} else {y, y + 1})"
  shows "\<bar>z - x\<bar> \<le> 1 / 2"
  using assms by (auto simp: abs_if split: if_splits)

lemma round_half_even_error: "\<bar>of_int (round_half_even x) - x\<bar> \<le> 1 / 2"
proof (rule near_integer)
  show "of_int \<lfloor>x\<rfloor> \<le> x" "x < of_int \<lfloor>x\<rfloor> + 1" using floor_correct [of x] by simp_all
qed (auto simp: round_half_even_def Let_def)

text \<open>A dyadic rational with at most 53 significant bits is a double: rounding leaves it alone.\<close>

lemma powi_less_cancel: "(2 :: rat) powi a < 2 powi b \<longleftrightarrow> a < b"
  using power_int_strict_increasing [of a b "2 :: rat"] power_int_increasing [of b a "2 :: rat"]
  by (cases "a < b") (auto simp: not_less)

lemma dbl_exact_pos:
  assumes "0 < k" "k \<le> 2 ^ 53" "- 1074 \<le> q" "q \<le> 970"
  shows "dbl (of_int k * 2 powi q) = Fin (of_int k * 2 powi q)"
proof -
  define r :: rat where "r = of_int k * 2 powi q"
  have r0: "0 < r" using assms(1) by (simp add: r_def)
  define q' where "q' = max (bexp r - 52) (- 1074)"
  have kle: "(of_int k :: rat) \<le> 2 powi 53" using assms(2) by (simp add: power_int_def)
  have rle: "r \<le> 2 powi (53 + q)"
    using mult_right_mono [OF kle, of "2 powi q"] by (simp add: r_def power_int_add)
  have "\<exists>m. r / 2 powi q' = of_int m"
  proof (cases "q' \<le> q")
    case True
    then have "r / 2 powi q' = of_int k * 2 powi (q - q')"
      by (simp add: r_def power_int_diff)
    also have "\<dots> = of_int (k * 2 ^ nat (q - q'))" using True by (simp add: power_int_def)
    finally show ?thesis by blast
  next
    case False
    then have q': "q' = bexp r - 52" "q < q'" using assms(3) by (auto simp: q'_def)
    have "2 powi (bexp r) \<le> (2 :: rat) powi (53 + q)" using bexp_bounds [OF r0] rle by linarith
    then have "bexp r \<le> 53 + q" by (meson linorder_not_less powi_less_cancel)
    with q' have "bexp r = 53 + q" by simp
    with bexp_bounds(1) [OF r0] rle have "r = 2 powi (53 + q)" by simp
    then have "r / 2 powi q' = 2 powi (53 + q - q')" by (simp add: power_int_diff)
    also have "\<dots> = of_int (2 ^ 52)" using q' \<open>bexp r = 53 + q\<close> by (simp add: power_int_def)
    finally show ?thesis by blast
  qed
  then obtain m where m: "r / 2 powi q' = of_int m" by blast
  then have v: "of_int (round_half_even (r / 2 powi q')) * 2 powi q' = r"
    by (simp add: field_simps)
  have "(2 :: rat) powi (53 + q) \<le> 2 powi 1023" using assms(4) by (intro power_int_increasing) auto
  with rle have "r \<le> 2 powi 1023" by linarith
  also have "\<dots> < (2 :: rat) powi 1024" by (simp only: powi_less_cancel)
  also have "\<dots> = 2 ^ 1024" by (simp add: power_int_def)
  finally have "r < 2 ^ 1024" .
  with r0 v show ?thesis
    unfolding dbl_def r_def [symmetric] q'_def [symmetric] by (simp add: Let_def q'_def [symmetric] sgn_if)
qed

lemma dbl_0 [simp]: "dbl 0 = Fin 0"
  by (simp add: dbl_def)

lemma dbl_exact:
  assumes "\<bar>k\<bar> \<le> 2 ^ 53" "- 1074 \<le> q" "q \<le> 970"
  shows "dbl (of_int k * 2 powi q) = Fin (of_int k * 2 powi q)"
proof (cases k "0 :: int" rule: linorder_cases)
  case less
  have "dbl (of_int (- k) * 2 powi q) = Fin (of_int (- k) * 2 powi q)"
    by (rule dbl_exact_pos) (use less assms in auto)
  with less show ?thesis by (auto simp: dbl_def Let_def sgn_if split: if_splits)
next
  case greater
  then show ?thesis using assms by (intro dbl_exact_pos) auto
qed simp

lemma dbl_of_int: "\<bar>k\<bar> \<le> 2 ^ 53 \<Longrightarrow> dbl (of_int k) = Fin (of_int k)"
  using dbl_exact [of k 0] by simp

lemma dbl_of_nat: "n \<le> 2 ^ 53 \<Longrightarrow> dbl (of_nat n) = Fin (of_nat n)"
  using dbl_of_int [of "int n"] by simp

text \<open>Dividing an integer of at most 53 bits by a power of two is exact.\<close>

lemma dbl_of_nat_scaled:
  assumes "n \<le> 2 ^ 53" "j \<le> 1074"
  shows "dbl (of_nat n / 2 ^ j) = Fin (of_nat n / 2 ^ j)"
  using dbl_exact [of "int n" "- int j"] assms by (simp add: power_int_minus divide_inverse)

text \<open>Rounding does not cross a power of two.\<close>

lemma round_half_even_le: "x \<le> of_int k \<Longrightarrow> round_half_even x \<le> k"
  using round_half_even_error [of x] by linarith

lemma round_half_even_nonneg: "0 \<le> x \<Longrightarrow> 0 \<le> round_half_even x"
  using round_half_even_error [of x] by linarith

lemma dbl_upper:
  assumes "0 \<le> r" "r \<le> 2 powi e" "- 1074 \<le> e" "e \<le> 1023"
  shows "\<exists>v. dbl r = Fin v \<and> 0 \<le> v \<and> v \<le> 2 powi e"
proof (cases "r = 0")
  case False
  then have r0: "0 < r" using assms by simp
  define q where "q = max (bexp r - 52) (- 1074)"
  have "2 powi (bexp r) \<le> (2 :: rat) powi e" using bexp_bounds(1) [OF r0] assms(2) by linarith
  then have "bexp r \<le> e" by (meson linorder_not_less powi_less_cancel)
  then have q: "q \<le> e" using assms by (simp add: q_def)
  then have int: "(2 :: rat) powi (e - q) = of_int (2 ^ nat (e - q))" by (simp add: power_int_def)
  have "r / 2 powi q \<le> 2 powi (e - q)"
    using assms(2) by (simp add: power_int_diff divide_right_mono)
  then have "round_half_even (r / 2 powi q) \<le> 2 ^ nat (e - q)"
    unfolding int by (rule round_half_even_le)
  then have "(of_int (round_half_even (r / 2 powi q)) :: rat) \<le> 2 powi (e - q)"
    unfolding int by (simp only: of_int_le_iff)
  then have "of_int (round_half_even (r / 2 powi q)) * 2 powi q \<le> (2 :: rat) powi (e - q) * 2 powi q"
    by (rule mult_right_mono) simp
  also have "\<dots> = 2 powi e" by (simp flip: power_int_add)
  finally have v: "of_int (round_half_even (r / 2 powi q)) * 2 powi q \<le> (2 :: rat) powi e" .
  have "(2 :: rat) powi e < 2 powi 1024" using assms(4) by (simp only: powi_less_cancel)
  then have lt: "(2 :: rat) powi e < 2 ^ 1024" by (simp add: power_int_def)
  have "0 \<le> round_half_even (r / 2 powi q)" using r0 by (intro round_half_even_nonneg) simp
  with v lt r0 show ?thesis
    unfolding dbl_def q_def by (simp add: Let_def q_def [symmetric])
qed simp

section \<open>Operations\<close>

fun js_div :: "jsnum \<Rightarrow> jsnum \<Rightarrow> jsnum" where
  "js_div (Fin a) (Fin b) =
     (if b = 0 then (if a = 0 then NaN else Infinite (a < 0)) else dbl (a / b))"
| "js_div (Fin a) (Infinite s) = Fin 0"
| "js_div (Infinite s) (Fin b) = Infinite (s \<noteq> (b < 0))"
| "js_div _ _ = NaN"

fun js_mul :: "jsnum \<Rightarrow> jsnum \<Rightarrow> jsnum" where
  "js_mul (Fin a) (Fin b) = dbl (a * b)"
| "js_mul (Fin a) (Infinite s) = (if a = 0 then NaN else Infinite (s \<noteq> (a < 0)))"
| "js_mul (Infinite s) (Fin b) = (if b = 0 then NaN else Infinite (s \<noteq> (b < 0)))"
| "js_mul (Infinite s) (Infinite t) = Infinite (s \<noteq> t)"
| "js_mul _ _ = NaN"

text \<open>\<open>Math.round\<close>: the nearest integer, the larger of two equally near ones.\<close>

fun js_round :: "jsnum \<Rightarrow> jsnum" where
  "js_round (Fin x) = Fin (of_int \<lfloor>x + 1 / 2\<rfloor>)"
| "js_round v = v"

fun js_less :: "jsnum \<Rightarrow> jsnum \<Rightarrow> bool" where
  "js_less (Fin a) (Fin b) = (a < b)"
| "js_less (Fin _) (Infinite neg) = (\<not> neg)"
| "js_less (Infinite neg) (Fin _) = neg"
| "js_less (Infinite a) (Infinite b) = (a \<and> \<not> b)"
| "js_less _ _ = False"

definition js_min :: "jsnum \<Rightarrow> jsnum \<Rightarrow> jsnum" where
  "js_min a b = (if a = NaN \<or> b = NaN then NaN else if js_less b a then b else a)"

definition js_is_finite :: "jsnum \<Rightarrow> bool" where
  "js_is_finite v = (case v of Fin _ \<Rightarrow> True | _ \<Rightarrow> False)"

definition js_is_integer :: "jsnum \<Rightarrow> bool" where
  "js_is_integer v = (case v of Fin x \<Rightarrow> of_int \<lfloor>x\<rfloor> = x | _ \<Rightarrow> False)"

section \<open>Number(text)\<close>

definition pow10 :: "int \<Rightarrow> rat" where
  "pow10 e = 10 powi e"

text \<open>The exponent part: nothing, or \<open>e\<close> with an optional sign and digits.\<close>

definition parse_exponent :: "string \<Rightarrow> int option" where
  "parse_exponent s =
     (case s of [] \<Rightarrow> Some 0
      | e # r \<Rightarrow>
          if e \<noteq> CHR ''e'' \<and> e \<noteq> CHR ''E'' then None
          else
            let (neg, ds) =
              (case r of CHR ''-'' # ds \<Rightarrow> (True, ds) | CHR ''+'' # ds \<Rightarrow> (False, ds) | _ \<Rightarrow> (False, r))
            in if ds = [] \<or> \<not> list_all is_digit ds then None
               else Some (if neg then - int (digits_value ds) else int (digits_value ds)))"

definition parse_unsigned :: "string \<Rightarrow> jsnum" where
  "parse_unsigned s =
     (if s = ''Infinity'' then Infinite False
      else
        let ip = takeWhile is_digit s; r = dropWhile is_digit s;
            (fp, r') = (case r of CHR ''.'' # t \<Rightarrow> (takeWhile is_digit t, dropWhile is_digit t)
                                 | _ \<Rightarrow> ([], r))
        in if ip = [] \<and> fp = [] then NaN
           else case parse_exponent r' of None \<Rightarrow> NaN
                | Some e \<Rightarrow> dbl (of_nat (digits_value (ip @ fp)) * pow10 (e - int (length fp))))"

fun js_neg :: "jsnum \<Rightarrow> jsnum" where
  "js_neg (Fin x) = Fin (- x)"
| "js_neg (Infinite s) = Infinite (\<not> s)"
| "js_neg NaN = NaN"

definition radix_digit :: "nat \<Rightarrow> char \<Rightarrow> nat option" where
  "radix_digit b c =
     (let v = (if is_digit c then digit_value c
               else if 97 \<le> byte c \<and> byte c \<le> 102 then byte c - 87
               else if 65 \<le> byte c \<and> byte c \<le> 70 then byte c - 55 else 99)
      in if v < b then Some v else None)"

definition parse_radix :: "nat \<Rightarrow> string \<Rightarrow> jsnum" where
  "parse_radix b ds =
     (if ds = [] \<or> list_ex (\<lambda>c. radix_digit b c = None) ds then NaN
      else dbl (of_nat (foldl (\<lambda>v c. b * v + the (radix_digit b c)) 0 ds)))"

text \<open>\<open>Number(text)\<close>, the string-to-number conversion of ECMAScript.\<close>

definition js_Number :: "string \<Rightarrow> jsnum" where
  "js_Number raw =
     (case trim raw of [] \<Rightarrow> Fin 0
      | c # s \<Rightarrow>
          if c = CHR ''0'' \<and> s \<noteq> [] \<and> hd s \<in> set ''xX'' then parse_radix 16 (tl s)
          else if c = CHR ''0'' \<and> s \<noteq> [] \<and> hd s \<in> set ''oO'' then parse_radix 8 (tl s)
          else if c = CHR ''0'' \<and> s \<noteq> [] \<and> hd s \<in> set ''bB'' then parse_radix 2 (tl s)
          else if c = CHR ''-'' then js_neg (parse_unsigned s)
          else if c = CHR ''+'' then parse_unsigned s
          else parse_unsigned (c # s))"

section \<open>String(number) and toFixed\<close>

text \<open>For \<open>0 < x\<close>: the \<open>n\<close> with \<open>10 powi (n - 1) \<le> x < 10 powi n\<close>.\<close>

definition dexp :: "rat \<Rightarrow> int" where
  "dexp x =
     (if 1 \<le> x then int (length (decimal (nat \<lfloor>x\<rfloor>)))
      else 1 - (let y = 1 / x in if y \<le> 1 then 0 else int (length (decimal (nat (\<lceil>y\<rceil> - 1))))))"

text \<open>
  The shortest decimal significand that reads back as the double \<open>x\<close>, and its decimal exponent:
  with \<open>k\<close> digits the two candidates are the neighbours of \<open>x\<close>, the nearer one is preferred.
\<close>

definition shortest_digits :: "rat \<Rightarrow> nat \<times> int" where
  "shortest_digits x =
     (let n = dexp x;
          cand = (\<lambda>k. let u = pow10 (n - int k); f = \<lfloor>x / u\<rfloor>;
                      ok = filter (\<lambda>c. dbl (of_int c * u) = Fin x) [f, f + 1];
                      pick = (\<lambda>c. if c = 10 ^ k then (1, n + 1) else (nat c, n))
                  in case ok of [] \<Rightarrow> None | [c] \<Rightarrow> Some (pick c)
                     | c # d # _ \<Rightarrow> Some (pick (if x - of_int c * u \<le> of_int d * u - x then c else d)))
      in case List.map_filter cand [1..<18] of [] \<Rightarrow> (0, 0) | c # _ \<Rightarrow> c)"

definition js_num_string_pos :: "rat \<Rightarrow> string" where
  "js_num_string_pos x =
     (if of_int \<lfloor>x\<rfloor> = x \<and> x \<le> 2 ^ 53 then decimal (nat \<lfloor>x\<rfloor>)
      else
        let (c, n) = shortest_digits x; s = decimal c; k = int (length s) in
        if k \<le> n \<and> n \<le> 21 then s @ replicate (nat (n - k)) CHR ''0''
        else if 0 < n \<and> n \<le> 21 then take (nat n) s @ ''.'' @ drop (nat n) s
        else if - 6 < n \<and> n \<le> 0 then ''0.'' @ replicate (nat (- n)) CHR ''0'' @ s
        else
          let e = n - 1; et = (if e < 0 then ''-'' else ''+'') @ decimal (nat \<bar>e\<bar>)
          in if k = 1 then s @ ''e'' @ et else [hd s] @ ''.'' @ tl s @ ''e'' @ et)"

fun js_num_string :: "jsnum \<Rightarrow> string" where
  "js_num_string NaN = ''NaN''"
| "js_num_string (Infinite neg) = (if neg then ''-Infinity'' else ''Infinity'')"
| "js_num_string (Fin x) =
     (if x = 0 then ''0'' else if x < 0 then ''-'' @ js_num_string_pos (- x) else js_num_string_pos x)"

text \<open>The digits of \<open>x.toFixed(f)\<close> for \<open>0 \<le> x\<close>.\<close>

definition fixed_digits :: "nat \<Rightarrow> rat \<Rightarrow> string" where
  "fixed_digits f x =
     (let s = decimal (nat \<lfloor>x * 10 ^ f + 1 / 2\<rfloor>)
      in if f = 0 then s
         else let p = pad_start (Suc f) (CHR ''0'') s; k = length p - f
              in take k p @ ''.'' @ drop k p)"

definition to_fixed :: "nat \<Rightarrow> jsnum \<Rightarrow> string" where
  "to_fixed f v =
     (case v of Fin x \<Rightarrow>
        if 10 ^ 21 \<le> \<bar>x\<bar> then js_num_string v
        else if x < 0 then ''-'' @ fixed_digits f (- x) else fixed_digits f x
      | _ \<Rightarrow> js_num_string v)"

lemma decimal_of_digit: "n < 10 \<Longrightarrow> decimal n = [digit_char n]"
  by (subst decimal.simps) simp

lemma js_num_string_of_nat:
  assumes "n \<le> 2 ^ 53"
  shows "js_num_string (Fin (of_nat n)) = decimal n"
proof (cases "n = 0")
  case True
  have "CHR ''0'' = digit_char 0" by (simp add: digit_char_def) code_simp
  with True show ?thesis by (simp add: decimal_of_digit)
next
  case False
  have "(of_nat n :: rat) \<le> of_nat (2 ^ 53)" using assms by (simp only: of_nat_le_iff)
  with False show ?thesis by (simp add: js_num_string_pos_def)
qed

text \<open>Reading back a decimal integer.\<close>

lemma takeWhile_digits: "list_all is_digit s \<Longrightarrow> takeWhile is_digit s = s"
  by (simp add: list_all_iff takeWhile_eq_all_conv)

lemma dropWhile_digits: "list_all is_digit s \<Longrightarrow> dropWhile is_digit s = []"
  by (simp add: list_all_iff dropWhile_eq_Nil_conv)

lemma digit_not_special:
  assumes "is_digit c"
  shows "c \<noteq> CHR ''-''" "c \<noteq> CHR ''+''" "c \<noteq> CHR ''x''" "c \<noteq> CHR ''X''" "c \<noteq> CHR ''o''"
    "c \<noteq> CHR ''O''" "c \<noteq> CHR ''b''" "c \<noteq> CHR ''B''" "c \<noteq> CHR ''I''" "c \<noteq> CHR ''.''"
  using assms by (auto simp: is_digit_def)

lemma digit_not_ws:
  assumes "list_all is_digit s"
  shows "trim s = s"
proof -
  have hd_ws: "\<forall>w \<in> set whitespace. \<not> is_digit (hd w) \<and> \<not> is_digit (last w)"
    by (simp add: whitespace_def is_digit_def)
  have "\<not> starts_with s w" "\<not> ends_with s w" if w: "w \<in> set whitespace" for w
    using hd_ws whitespace_nonempty [OF w] w assms
    by (auto simp: starts_with_iff ends_with_iff list_all_iff)
  then show ?thesis by (intro trim_fix) (auto simp: leading_ws_None trailing_ws_None)
qed

lemma parse_unsigned_digits:
  assumes "list_all is_digit s" "s \<noteq> []"
  shows "parse_unsigned s = dbl (of_nat (digits_value s))"
proof -
  have "s \<noteq> ''Infinity''" using assms by (auto simp: is_digit_def)
  with assms show ?thesis
    by (simp add: parse_unsigned_def takeWhile_digits dropWhile_digits parse_exponent_def pow10_def)
qed

lemma js_Number_digits:
  assumes "list_all is_digit s" "s \<noteq> []"
  shows "js_Number s = dbl (of_nat (digits_value s))"
proof -
  obtain c t where s: "s = c # t" using assms by (cases s) auto
  have "\<not> (t \<noteq> [] \<and> hd t \<in> set ''xX'')" "\<not> (t \<noteq> [] \<and> hd t \<in> set ''oO'')"
    "\<not> (t \<noteq> [] \<and> hd t \<in> set ''bB'')"
    using assms s digit_not_special by (cases t; auto)+
  then have "js_Number s = parse_unsigned s"
    using assms s digit_not_special unfolding js_Number_def digit_not_ws [OF assms(1)]
    by (simp only: list.case if_False simp_thms) (auto dest: digit_not_special)
  with assms show ?thesis by (simp add: parse_unsigned_digits)
qed

lemma js_Number_decimal: "n \<le> 2 ^ 53 \<Longrightarrow> js_Number (decimal n) = Fin (of_nat n)"
  by (simp add: js_Number_digits decimal_digits dbl_of_nat)

end
