(* ===== verification/Api_Client.thy ===== *)
theory Api_Client
  imports Uri Js_Number
begin

text \<open>
  \<open>web/src/lib/api-client.ts\<close> and \<open>web/src/lib/browser-storage.ts\<close>: requests to the server, their
  CSRF header, the interpretation of responses, the listeners told of a lost session, and the
  upload with progress over an \<open>XMLHttpRequest\<close>.

  What the network and the browser decide is input: the response (status, content type, the text
  and what \<open>JSON.parse\<close> makes of it, \<open>None\<close> where it throws), the cookie string, the events of the
  \<open>XMLHttpRequest\<close>. A rejected promise is \<open>Inl\<close>.
\<close>

section \<open>Values\<close>

datatype json = JNull | JBool bool | JNum rat | JStr string | JArr "json list" | JObj "(string \<times> json) list"

text \<open>\<open>ApiError\<close> has a status, a message and an optional code.\<close>

datatype js_error =
    ApiError (error_status: nat) (api_message: string) (error_code: "string option")
  | Abort_Error
  | Other_Error string
  | Json_Error
  | Uri_Error

record api_init =
  init_method :: "string option"
  init_headers :: "(string \<times> string) list"
  init_body :: "json option"

definition no_init :: api_init where
  "no_init = \<lparr>init_method = None, init_headers = [], init_body = None\<rparr>"

definition method_init :: "string \<Rightarrow> api_init" where
  "method_init m = \<lparr>init_method = Some m, init_headers = [], init_body = None\<rparr>"

definition json_init :: "string \<Rightarrow> json \<Rightarrow> api_init" where
  "json_init m b =
     \<lparr>init_method = Some m, init_headers = [(''Content-Type'', ''application/json'')], init_body = Some b\<rparr>"

record http_response =
  resp_status :: nat
  content_type :: "string option"
  resp_json :: "json option"

text \<open>\<open>value?.name\<close> on a parsed body: only an object has the property.\<close>

definition json_field :: "json option \<Rightarrow> string \<Rightarrow> json option" where
  "json_field v k = (case v of Some (JObj fs) \<Rightarrow> map_of fs k | _ \<Rightarrow> None)"

definition string_field :: "json option \<Rightarrow> string \<Rightarrow> string option" where
  "string_field v k = (case json_field v k of Some (JStr s) \<Rightarrow> Some s | _ \<Rightarrow> None)"

section \<open>Browser storage\<close>

text \<open>
  The storage of the window: \<open>None\<close> where there is no window, \<open>Some (store, fails)\<close> with the
  stored items and whether access throws.
\<close>

type_synonym local_storage = "((string \<rightharpoonup> string) \<times> bool) option"

definition readLocalStorage :: "local_storage \<Rightarrow> string \<Rightarrow> string option" where
  "readLocalStorage w key =
     (case w of None \<Rightarrow> None | Some (items, fails) \<Rightarrow> if fails then None else items key)"

definition writeLocalStorage :: "local_storage \<Rightarrow> string \<Rightarrow> string \<Rightarrow> local_storage \<times> bool" where
  "writeLocalStorage w key v =
     (case w of None \<Rightarrow> (None, False)
      | Some (items, fails) \<Rightarrow>
          if fails then (w, False) else (Some (items(key \<mapsto> v), fails), True))"

section \<open>Listeners of a lost session\<close>

definition subscribeUnauthorized :: "nat list \<Rightarrow> nat \<Rightarrow> nat list" where
  "subscribeUnauthorized listeners l = jset_add l listeners"

definition unsubscribeUnauthorized :: "nat list \<Rightarrow> nat \<Rightarrow> nat list" where
  "unsubscribeUnauthorized listeners l = jset_delete l listeners"

text \<open>The listeners that are called, in order.\<close>

definition notifyUnauthorized :: "nat list \<Rightarrow> string \<Rightarrow> string option \<Rightarrow> nat list" where
  "notifyUnauthorized listeners path code =
     (if path = ''/api/v1/auth/login'' \<or>
         (path = ''/api/v1/auth/password'' \<and> code = Some ''invalid_credentials'')
      then [] else listeners)"

section \<open>Requests\<close>

definition isSafeMethod :: "string option \<Rightarrow> bool" where
  "isSafeMethod m =
     (let normalized = to_upper (case m of None \<Rightarrow> ''GET'' | Some s \<Rightarrow> s)
      in normalized = ''GET'' \<or> normalized = ''HEAD'' \<or> normalized = ''OPTIONS'')"

text \<open>\<open>None\<close> is the \<open>URIError\<close> of \<open>decodeURIComponent\<close>; the first matching cookie decides.\<close>

fun find_cookie :: "string \<Rightarrow> string list \<Rightarrow> string option" where
  "find_cookie pre [] = Some []"
| "find_cookie pre (item # items) =
     (let cookie = trim item
      in if starts_with cookie pre then decodeURIComponent (drop (length pre) cookie)
         else find_cookie pre items)"

definition readCookie :: "string \<Rightarrow> string \<Rightarrow> string option" where
  "readCookie document_cookie name =
     find_cookie (encodeURIComponent name @ ''='') (split_on CHR '';'' document_cookie)"

text \<open>\<open>Headers\<close>: names are case-insensitive, kept in lower case.\<close>

definition header_set :: "string \<Rightarrow> string \<Rightarrow> (string \<times> string) list \<Rightarrow> (string \<times> string) list" where
  "header_set k v hs = AList.update (to_lower k) v hs"

definition header_has :: "string \<Rightarrow> (string \<times> string) list \<Rightarrow> bool" where
  "header_has k hs \<longleftrightarrow> map_of hs (to_lower k) \<noteq> None"

definition headers_of :: "(string \<times> string) list \<Rightarrow> (string \<times> string) list" where
  "headers_of init = fold (\<lambda>(k, v). header_set k v) init []"

definition csrf_header :: string where
  "csrf_header = ''X-CSRF-Token''"

definition api_headers :: "string \<Rightarrow> api_init \<Rightarrow> js_error + (string \<times> string) list" where
  "api_headers document_cookie init =
     (let hs = header_set ''Accept'' ''application/json'' (headers_of (init_headers init))
      in if \<not> isSafeMethod (init_method init) \<and> \<not> header_has csrf_header hs then
           (case readCookie document_cookie ''imagesilo_csrf'' of
              None \<Rightarrow> Inl Uri_Error
            | Some token \<Rightarrow> Inr (if token \<noteq> [] then header_set csrf_header token hs else hs))
         else Inr hs)"

definition failure_message :: "json option \<Rightarrow> nat \<Rightarrow> string" where
  "failure_message body status =
     (case string_field body ''message'' of Some m \<Rightarrow> m
      | None \<Rightarrow> ''Request failed with status '' @ decimal status)"

definition failure_of :: "json option \<Rightarrow> nat \<Rightarrow> js_error" where
  "failure_of body status = ApiError status (failure_message body status) (string_field body ''code'')"

definition ok_status :: "nat \<Rightarrow> bool" where
  "ok_status s \<longleftrightarrow> 200 \<le> s \<and> s < 300"

definition json_content :: "string option \<Rightarrow> bool" where
  "json_content ct = contains (case ct of None \<Rightarrow> [] | Some s \<Rightarrow> s) ''application/json''"

text \<open>
  What becomes of a response: the settled promise and the listeners called on the way. A status
  of 204 resolves before anything is read; a body that does not parse rejects before the listeners
  are told.
\<close>

definition api_response ::
    "nat list \<Rightarrow> string \<Rightarrow> http_response \<Rightarrow> (js_error + json option) \<times> nat list" where
  "api_response listeners path r =
     (if resp_status r = 204 then (Inr None, [])
      else if json_content (content_type r) \<and> resp_json r = None then (Inl Json_Error, [])
      else
        let body = (if json_content (content_type r) then resp_json r else None);
            told = (if resp_status r = 401
                    then notifyUnauthorized listeners path (string_field body ''code'') else [])
        in if \<not> ok_status (resp_status r) then (Inl (failure_of body (resp_status r)), told)
           else (Inr body, told))"

text \<open>
  \<open>apiRequest\<close> against a network: the environment answers the request it is given, or fails
  (\<open>None\<close>, where \<open>fetch\<close> rejects).
\<close>

type_synonym network = "string \<Rightarrow> api_init \<Rightarrow> (string \<times> string) list \<Rightarrow> http_response option"

definition apiRequest ::
    "network \<Rightarrow> string \<Rightarrow> nat list \<Rightarrow> string \<Rightarrow> api_init \<Rightarrow> (js_error + json option) \<times> nat list" where
  "apiRequest net document_cookie listeners path init =
     (case api_headers document_cookie init of
        Inl e \<Rightarrow> (Inl e, [])
      | Inr hs \<Rightarrow>
          (case net path init hs of
             None \<Rightarrow> (Inl (Other_Error ''Failed to fetch''), [])
           | Some r \<Rightarrow> api_response listeners path r))"

section \<open>Uploads with progress\<close>

text \<open>
  \<open>uploadForm\<close>. The state of one upload: the outcome of its promise once settled, and whether the
  abort signal is still listened to.
\<close>

record xhr_upload =
  outcome :: "(js_error + json option) option"
  listening :: bool

datatype xhr_event =
    Signal_Abort
  | Xhr_Progress bool nat nat
  | Xhr_Load nat "string option" string "json option"
  | Xhr_Error
  | Xhr_Abort

datatype xhr_effect = Request_Abort | On_Progress jsnum | Told "string option"

text \<open>Opening the request: the headers of the form upload, or the \<open>URIError\<close> of the cookie.\<close>

definition upload_headers :: "string \<Rightarrow> js_error + (string \<times> string) list" where
  "upload_headers document_cookie =
     (let hs = header_set ''Accept'' ''application/json'' []
      in case readCookie document_cookie ''imagesilo_csrf'' of
           None \<Rightarrow> Inl Uri_Error
         | Some token \<Rightarrow> Inr (if token \<noteq> [] then header_set csrf_header token hs else hs))"

definition upload_start :: "string \<Rightarrow> xhr_upload" where
  "upload_start document_cookie =
     (case upload_headers document_cookie of
        Inl e \<Rightarrow> \<lparr>outcome = Some (Inl e), listening = True\<rparr>
      | Inr _ \<Rightarrow> \<lparr>outcome = None, listening = True\<rparr>)"

text \<open>A promise settles once: a later \<open>resolve\<close> or \<open>reject\<close> has no effect.\<close>

definition settle :: "js_error + json option \<Rightarrow> xhr_upload \<Rightarrow> xhr_upload" where
  "settle v u = (if outcome u = None then u\<lparr>outcome := Some v\<rparr> else u)"

definition progress_percent :: "nat \<Rightarrow> nat \<Rightarrow> jsnum" where
  "progress_percent loaded size_total =
     js_min (Fin 100)
       (js_round (js_mul (js_div (Fin (of_nat loaded)) (Fin (of_nat size_total))) (Fin 100)))"

fun xhr_step :: "xhr_upload \<Rightarrow> xhr_event \<Rightarrow> xhr_upload \<times> xhr_effect list" where
  "xhr_step u Signal_Abort =
     (if listening u then (u\<lparr>listening := False\<rparr>, [Request_Abort]) else (u, []))"
| "xhr_step u (Xhr_Progress computable loaded size_total) =
     (u, if computable then [On_Progress (progress_percent loaded size_total)] else [])"
| "xhr_step u (Xhr_Load status ct text parsed) =
     (let u' = u\<lparr>listening := False\<rparr>;
          body = (if json_content ct \<and> text \<noteq> [] then parsed else None)
      in if ok_status status then (settle (Inr body) u', [On_Progress (Fin 100)])
         else (settle (Inl (failure_of body status)) u',
               if status = 401 then [Told (string_field body ''code'')] else []))"
| "xhr_step u Xhr_Error =
     (settle (Inl (ApiError 0 ''Network request failed'' None)) (u\<lparr>listening := False\<rparr>), [])"
| "xhr_step u Xhr_Abort = (settle (Inl Abort_Error) (u\<lparr>listening := False\<rparr>), [])"

section \<open>Lemmas\<close>

lemma find_cookie_skip:
  "\<forall>i \<in> set items. \<not> starts_with (trim i) p \<Longrightarrow> find_cookie p (items @ rest) = find_cookie p rest"
  by (induction items) (auto simp: Let_def)

lemma api_response_ok_iff:
  "(\<exists>b. fst (api_response ls path r) = Inr b) \<longleftrightarrow>
     ok_status (resp_status r) \<and>
     (resp_status r = 204 \<or> \<not> json_content (content_type r) \<or> resp_json r \<noteq> None)"
  by (auto simp: api_response_def Let_def ok_status_def)

lemma settle_outcome: "outcome (settle v u) = (case outcome u of None \<Rightarrow> Some v | Some w \<Rightarrow> Some w)"
  by (auto simp: settle_def split: option.splits)

lemma settle_listening [simp]: "listening (settle v u) = listening u"
  by (simp add: settle_def)

lemma xhr_step_keeps_outcome: "outcome u = Some v \<Longrightarrow> outcome (fst (xhr_step u e)) = Some v"
  by (cases e) (auto simp: settle_outcome Let_def)

interpretation xhr_settled: reactive xhr_step "\<lambda>u. outcome u = Some v" for v
  by unfold_locales (rule xhr_step_keeps_outcome)

lemma js_round_range: "0 \<le> x \<Longrightarrow> \<exists>n :: nat. js_round (Fin x) = Fin (of_nat n)"
proof -
  assume "0 \<le> x"
  then have "0 \<le> \<lfloor>x + 1 / 2\<rfloor>" by simp
  then show ?thesis by (intro exI [of _ "nat \<lfloor>x + 1 / 2\<rfloor>"]) simp
qed

lemma progress_percent_range:
  assumes "loaded \<le> size_total" "0 < size_total"
  shows "\<exists>n \<le> 100. progress_percent loaded size_total = Fin (of_nat n)"
proof -
  have "(of_nat loaded :: rat) / of_nat size_total \<le> 2 powi 0" "0 \<le> (of_nat loaded :: rat) / of_nat size_total"
    using assms by (auto simp: divide_le_eq)
  then obtain v where v: "dbl (of_nat loaded / of_nat size_total) = Fin v" "0 \<le> v" "v \<le> 1"
    using dbl_upper [of "of_nat loaded / of_nat size_total" 0] by auto
  have "v * 100 \<le> 2 powi 7" using v(3) by (simp add: power_int_def)
  with v(2) obtain w where w: "dbl (v * 100) = Fin w" "0 \<le> w"
    using dbl_upper [of "v * 100" 7] by auto
  obtain n where n: "js_round (Fin w) = Fin (of_nat n)" using js_round_range [OF w(2)] by blast
  have "progress_percent loaded size_total = js_min (Fin 100) (Fin (of_nat n))"
    using assms v(1) w(1) n by (simp add: progress_percent_def del: js_round.simps)
  also have "\<dots> = Fin (of_nat (min 100 n))" by (auto simp: js_min_def min_def)
  finally show ?thesis by (intro exI [of _ "min 100 n"]) simp
qed

text \<open>The browser reports \<open>loaded\<close> and \<open>total\<close> consistently where the length is computable.\<close>

fun sane_xhr :: "xhr_event \<Rightarrow> bool" where
  "sane_xhr (Xhr_Progress computable loaded size_total) = (computable \<longrightarrow> 0 < size_total \<and> loaded \<le> size_total)"
| "sane_xhr _ = True"

lemma xhr_progress_bounds:
  "sane_xhr e \<Longrightarrow> On_Progress p \<in> set (snd (xhr_step u e)) \<Longrightarrow> \<exists>n \<le> 100. p = Fin (of_nat n)"
  using progress_percent_range
  by (cases e) (auto simp: Let_def split: if_splits intro: exI [of _ 100])

lemma header_set_get [simp]:
  "map_of (header_set k v hs) k' = (if k' = to_lower k then Some v else map_of hs k')"
  by (simp add: header_set_def update_conv')

end
