(* ===== verification/Api_Types.thy ===== *)
theory Api_Types
  imports Prelude
begin

text \<open>
  The data the server exchanges with the interface, after \<open>web/src/generated/openapi.d.ts\<close> (the
  \<open>schemas\<close> that \<open>web/src/lib/api-types.ts\<close> re-exports), and the table of its operations (the
  \<open>paths\<close> of the same file). Identifiers, dates and enumerations whose members the interface only
  displays are strings; counts and byte sizes are \<open>nat\<close>; an optional property is an \<open>option\<close>.
  Field names carry a prefix where two schemas share one.
\<close>

section \<open>Schemas\<close>

datatype visibility = Public | Private

datatype api_token_scope = Images_Upload | Images_Read_Private | Images_Delete | Aliases_Write

record setup_request =
  bootstrapToken :: string
  sr_displayName :: string
  sr_email :: string
  sr_password :: string
  sr_defaultVisibility :: visibility
  sr_compressionEnabled :: bool
  sr_jpegQuality :: nat
  sr_webpQuality :: nat
  sr_pngCompressionLevel :: nat
  sr_conversionEnabled :: bool
  sr_conversionWebpQuality :: nat
  sr_conversionWebpLossless :: bool

record setup_status =
  initialized :: bool

record admin_session =
  adminId :: string
  displayName :: string
  email :: string
  csrfToken :: string
  session_expiresAt :: string

record processing_summary =
  action :: string
  sourceFormat :: string
  storedFormat :: string
  preserved :: bool
  ps_compressionEnabled :: bool
  ps_conversionEnabled :: bool
  compressionRejected :: "bool option"

record image =
  image_id :: string
  originalName :: string
  mimeType :: string
  extension :: string
  width :: nat
  height :: nat
  sourceSize :: nat
  storedSize :: nat
  sourceSha256 :: string
  storedSha256 :: string
  processingSummary :: processing_summary
  image_visibility :: visibility
  uploadedVia :: string
  standardUrl :: string
  thumbnailUrl :: string
  image_createdAt :: string

record image_list =
  image_items :: "image list"
  image_nextCursor :: "string option"

record migration_image =
  mi_path :: string
  mi_originalName :: string
  mi_mimeType :: string
  mi_extension :: string
  mi_storedSize :: nat
  mi_standardUrl :: string
  modifiedAt :: string

record migration_image_list =
  mi_items :: "migration_image list"
  mi_nextCursor :: "string option"
  skippedFiles :: nat
  mutationsEnabled :: bool

datatype migration_item_status = Mig_Deleted | Mig_CleanupPending | Mig_NotFound | Mig_Error

record migration_operation_item =
  mo_path :: string
  mo_status :: migration_item_status

datatype batch_item_status = Deleted | CleanupPending | Updated | NotFound | Item_Error

record batch_operation_item =
  bo_imageId :: string
  bo_status :: batch_item_status

record image_alias =
  alias_id :: string
  alias_path :: string
  alias_imageId :: string
  alias_source :: string
  alias_createdAt :: string

record image_detail = image +
  aliases :: "image_alias list"

record delete_image_result =
  di_imageId :: string
  imageFileDeleted :: bool
  thumbnailDeleted :: bool
  di_cleanupPending :: bool

record webp_conversion_result =
  wc_image :: image
  originalFileDeleted :: bool
  thumbnailUpdated :: bool
  wc_cleanupPending :: bool

record api_token =
  token_id :: string
  token_name :: string
  tokenPrefix :: string
  token_scopes :: "api_token_scope list"
  token_expiresAt :: "string option"
  token_status :: string
  token_createdAt :: string

record created_api_token = api_token +
  token_secret :: string

record app_settings =
  defaultVisibility :: visibility
  compressionEnabled :: bool
  jpegQuality :: nat
  webpQuality :: nat
  pngCompressionLevel :: nat
  conversionEnabled :: bool
  conversionWebpQuality :: nat
  conversionWebpLossless :: bool

record system_info =
  processingConcurrency :: nat
  deliveryConcurrency :: nat
  maxBatchCount :: nat
  maxUploadBytes :: nat
  maxTotalPixels :: nat
  supportedFormats :: "string list"
  vipsVersion :: string

record index_stats =
  ix_images :: nat
  ix_aliases :: nat
  ix_sessions :: nat
  ix_tokens :: nat

record inspection_result =
  checkedAt :: string
  databaseImages :: nat
  imageFiles :: nat
  thumbnailFiles :: nat
  temporaryFiles :: nat
  in_missingImageCount :: nat
  in_missingImageIds :: "string list"
  orphanImageCount :: nat
  orphanThumbnailCount :: nat

record rebuild_result =
  rb_completedAt :: string
  rb_indexes :: index_stats
  rb_missingImageCount :: nat
  rb_missingImageIds :: "string list"

record daily_result =
  dm_completedAt :: string
  dm_inspection :: inspection_result
  removedTemporaryFiles :: nat
  removedOrphanImages :: nat
  removedOrphanThumbnails :: nat
  cleanupFailures :: nat
  dm_indexConsistent :: bool

record system_overview =
  imageCount :: nat
  storedBytes :: nat
  migrationStoredBytes :: nat
  aliasCount :: nat
  heapAllocBytes :: nat
  heapSysBytes :: nat
  rssBytes :: nat
  goroutines :: nat
  so_indexes :: index_stats
  indexConsistent :: bool
  missingImageCount :: nat
  missingImageIds :: "string list"
  lastInspection :: "inspection_result option"
  lastRebuild :: "rebuild_result option"
  lastDaily :: "daily_result option"

record image_alias_list =
  alias_items :: "image_alias list"
  alias_nextCursor :: "string option"

record import_result =
  imp_imageId :: string
  imp_standardUrl :: string
  imp_sha256 :: string
  imp_alias :: image_alias

text \<open>The strings of the two enumerations, as they travel in requests.\<close>

fun visibility_text :: "visibility \<Rightarrow> string" where
  "visibility_text Public = ''public''"
| "visibility_text Private = ''private''"

fun scope_text :: "api_token_scope \<Rightarrow> string" where
  "scope_text Images_Upload = ''images:upload''"
| "scope_text Images_Read_Private = ''images:read_private''"
| "scope_text Images_Delete = ''images:delete''"
| "scope_text Aliases_Write = ''aliases:write''"

section \<open>Operations\<close>

text \<open>A path template: fixed segments and parameters, and the methods the server offers there.\<close>

datatype segment = Fixed string | Param

definition v1 :: "segment list \<Rightarrow> segment list" where
  "v1 ss = [Fixed ''api'', Fixed ''v1''] @ ss"

definition api_paths_auth :: "(segment list \<times> string list) list" where
  "api_paths_auth =
    [([Fixed ''healthz''], [''GET'']),
     ([Fixed ''readyz''], [''GET'']),
     (v1 [Fixed ''setup'', Fixed ''status''], [''GET'']),
     (v1 [Fixed ''setup''], [''POST'']),
     (v1 [Fixed ''auth'', Fixed ''login''], [''POST'']),
     (v1 [Fixed ''auth'', Fixed ''session''], [''GET'']),
     (v1 [Fixed ''auth'', Fixed ''logout''], [''POST'']),
     (v1 [Fixed ''auth'', Fixed ''password''], [''POST'']),
     (v1 [Fixed ''auth'', Fixed ''profile''], [''PATCH''])]"

definition api_paths_images :: "(segment list \<times> string list) list" where
  "api_paths_images =
    [(v1 [Fixed ''migration-images''], [''GET'']),
     (v1 [Fixed ''migration-images'', Fixed ''batch-delete''], [''POST'']),
     (v1 [Fixed ''migration-images'', Fixed ''refresh''], [''POST'']),
     (v1 [Fixed ''images''], [''GET'', ''POST'']),
     (v1 [Fixed ''images'', Fixed ''batch-delete''], [''POST'']),
     (v1 [Fixed ''images'', Fixed ''batch-visibility''], [''PATCH'']),
     (v1 [Fixed ''images'', Param], [''GET'', ''DELETE'']),
     (v1 [Fixed ''images'', Param, Fixed ''visibility''], [''PATCH'']),
     (v1 [Fixed ''images'', Param, Fixed ''convert-webp''], [''POST'']),
     (v1 [Fixed ''images'', Param, Fixed ''thumbnail''], [''GET'']),
     ([Fixed ''image'', Param], [''GET''])]"

definition api_paths_admin :: "(segment list \<times> string list) list" where
  "api_paths_admin =
    [(v1 [Fixed ''api-tokens''], [''GET'', ''POST'']),
     (v1 [Fixed ''api-tokens'', Param], [''DELETE'']),
     (v1 [Fixed ''settings''], [''GET'']),
     (v1 [Fixed ''settings'', Fixed ''default-visibility''], [''PATCH'']),
     (v1 [Fixed ''settings'', Fixed ''processing''], [''PATCH'']),
     (v1 [Fixed ''system''], [''GET'']),
     (v1 [Fixed ''overview''], [''GET'']),
     (v1 [Fixed ''maintenance'', Fixed ''rebuild''], [''POST'']),
     (v1 [Fixed ''maintenance'', Fixed ''inspect''], [''POST'']),
     (v1 [Fixed ''imports''], [''POST'']),
     (v1 [Fixed ''aliases''], [''GET'', ''POST'']),
     (v1 [Fixed ''aliases'', Fixed ''resolve''], [''GET'']),
     (v1 [Fixed ''aliases'', Param], [''DELETE''])]"

definition api_paths :: "(segment list \<times> string list) list" where
  "api_paths = api_paths_auth @ api_paths_images @ api_paths_admin"

fun segments_match :: "segment list \<Rightarrow> string list \<Rightarrow> bool" where
  "segments_match [] [] = True"
| "segments_match (Fixed t # ts) (s # ss) = (s = t \<and> segments_match ts ss)"
| "segments_match (Param # ts) (s # ss) = (s \<noteq> [] \<and> segments_match ts ss)"
| "segments_match _ _ = False"

text \<open>An operation of the description: a method and a path (without query) that it lists.\<close>

definition api_operation :: "string \<Rightarrow> string list \<Rightarrow> bool" where
  "api_operation m segs \<longleftrightarrow> list_ex (\<lambda>(t, ms). m \<in> set ms \<and> segments_match t segs) api_paths"

instantiation visibility :: linorder
begin

definition less_eq_visibility :: "visibility \<Rightarrow> visibility \<Rightarrow> bool" where
  "less_eq_visibility a b \<longleftrightarrow> a = Public \<or> b = Private"

definition less_visibility :: "visibility \<Rightarrow> visibility \<Rightarrow> bool" where
  "less_visibility a b \<longleftrightarrow> a = Public \<and> b = Private"

instance
proof
  fix x y z :: visibility
  show "x < y \<longleftrightarrow> x \<le> y \<and> \<not> y \<le> x" by (cases x; cases y) (auto simp: less_eq_visibility_def less_visibility_def)
  show "x \<le> x" by (cases x) (auto simp: less_eq_visibility_def)
  show "x \<le> y \<Longrightarrow> y \<le> z \<Longrightarrow> x \<le> z" by (cases x; cases y; cases z) (auto simp: less_eq_visibility_def)
  show "x \<le> y \<Longrightarrow> y \<le> x \<Longrightarrow> x = y" by (cases x; cases y) (auto simp: less_eq_visibility_def)
  show "x \<le> y \<or> y \<le> x" by (cases x; cases y) (auto simp: less_eq_visibility_def)
qed

end

lemma visibility_text_inj: "visibility_text a = visibility_text b \<longleftrightarrow> a = b"
  by (cases a; cases b) auto

lemma scope_text_inj: "scope_text a = scope_text b \<longleftrightarrow> a = b"
  by (cases a; cases b) auto

end
