(* ===== verification/Effects.thy ===== *)
theory Effects
  imports Api_Client Api_Types
begin

text \<open>
  What a page asks of the libraries around it. The router, the query cache and the toaster are not
  part of the repository: a handler of the model returns the calls it makes to them, in order, as
  values of \<open>effect\<close>. Messages are the keys the code passes to \<open>t\<close>, with their counts and names.

  A mutation of the query library runs one request and then \<open>onSuccess\<close> or \<open>onError\<close>; in the model
  a page starts it with \<open>Request\<close> and receives the settled promise as an event.
\<close>

type_synonym query_key = "string list"

datatype toast_kind = Toast_Loading | Toast_Success | Toast_Warning | Toast_Error

record toast =
  toast_kind :: toast_kind
  toast_key :: string
  toast_id :: "string option"
  toast_counts :: "nat list"

datatype effect =
    Request string api_init
  | Upload_Form string "(string \<times> string) list"
  | Invalidate_Queries query_key
  | Cancel_Queries query_key
  | Cancel_Queries_Where "query_key \<Rightarrow> bool"
  | Remove_Queries_Where "query_key \<Rightarrow> bool"
  | Set_Query_Data query_key
  | Fetch_Query query_key
  | Show_Toast toast
  | Navigate string bool
  | Navigate_Back
  | Store_Item string string
  | Reset_Form
  | Focus_Filter_Toggle
  | Scroll_To jsnum
  | Fetch_Next_Page
  | Update_Detail string visibility
  | Write_Clipboard string

definition toast_of :: "toast_kind \<Rightarrow> string \<Rightarrow> string \<Rightarrow> nat list \<Rightarrow> effect" where
  "toast_of k key i counts =
     Show_Toast \<lparr>toast_kind = k, toast_key = key, toast_id = Some i, toast_counts = counts\<rparr>"

definition plain_toast :: "toast_kind \<Rightarrow> string \<Rightarrow> nat list \<Rightarrow> effect" where
  "plain_toast k key counts =
     Show_Toast \<lparr>toast_kind = k, toast_key = key, toast_id = None, toast_counts = counts\<rparr>"

text \<open>The segments of a request's path, its query left out.\<close>

definition request_segments :: "string \<Rightarrow> string list" where
  "request_segments p = tl (split_on CHR ''/'' (takeWhile (\<lambda>c. c \<noteq> CHR ''?'') p))"

definition request_method :: "api_init \<Rightarrow> string" where
  "request_method i = (case init_method i of None \<Rightarrow> ''GET'' | Some m \<Rightarrow> m)"

text \<open>An effect that only sends requests the description of the server lists.\<close>

fun known_request :: "effect \<Rightarrow> bool" where
  "known_request (Request p i) = api_operation (request_method i) (request_segments p)"
| "known_request (Upload_Form p _) = api_operation ''POST'' (request_segments p)"
| "known_request _ = True"

end
