(* ===== verification/Upload.thy ===== *)
theory Upload
  imports Effects
begin

text \<open>
  The upload page, \<open>web/src/features/upload/upload-page.tsx\<close>: a queue of files, up to
  \<open>processingConcurrency\<close> workers that take the next queued file whenever their upload settles,
  cancellation and retry, the abort of everything when the session is lost or the page is left,
  and the object URLs of the previews.

  The state of the component and of its refs is one record. What is in flight inside the promises of
  \<open>submit\<close> and \<open>retry\<close> is explicit: \<open>runs\<close> are the calls of \<open>uploadOne\<close> that await their request,
  \<open>task\<close> holds the local variables of the \<open>submit\<close> or \<open>retry\<close> that awaits them. Identities the
  browser hands out (\<open>crypto.randomUUID\<close>, \<open>new AbortController\<close>, object URLs) come from one
  counter, so they are distinct. A handler sees the state of the last render: React flushes an
  update before the next event. The development-only double mounting of \<open>StrictMode\<close> is left out.
\<close>

section \<open>Data\<close>

datatype upload_status = Queued | Uploading | Complete | Failed | Canceled

record upload_file =
  file_name :: string
  file_size :: nat
  file_type :: string

datatype preview_url = No_Preview | Object_Url nat | Thumbnail string

record upload_item =
  item_id :: nat
  item_file :: upload_file
  previewUrl :: preview_url
  status :: upload_status
  progress :: jsnum
  result :: "image option"
  controller :: "nat option"
  item_error :: "string option"

datatype task_kind = Batch | Retry

datatype task_phase = Working | Invalidating_Images | Invalidating_Overview

record upload_task =
  kind :: task_kind
  queue :: "upload_item list"
  nextIndex :: nat
  completed :: nat
  concurrency :: nat
  workers :: nat
  task_visibility :: "visibility option"
  phase :: task_phase

record upload_page =
  items :: "upload_item list"
  visibility_choice :: "visibility option"
  page_error :: "(string \<times> nat list) option"
  uploading :: bool
  dragActive :: bool
  active :: bool
  controllers :: "nat list"
  previewUrls :: "nat list"
  runs :: "(nat \<times> nat) list"
  task :: "upload_task option"
  system :: "system_info option"
  can_preview :: bool
  fresh :: nat

datatype upload_event =
    System_Loaded system_info
  | Add_Files "upload_file list"
  | Set_Visibility "visibility option"
  | Drag_Over
  | Drag_Leave bool
  | Drop_Files "upload_file list"
  | Paste_Files "upload_file list"
  | Submit
  | Retry_Item nat
  | Cancel_Item nat
  | Run_Progress nat jsnum
  | Run_Settled nat "js_error + image"
  | Invalidated
  | Clear_Queue
  | Leave bool
  | Unmount

datatype upload_effect =
    Start_Upload nat nat upload_file "visibility option"
  | Abort nat
  | Create_Url nat
  | Revoke_Url nat
  | Proceed
  | Page effect

section \<open>Helpers of the source\<close>

definition isSupportedImageFile :: "upload_file \<Rightarrow> bool" where
  "isSupportedImageFile f =
     (if file_type f \<in> {''image/jpeg'', ''image/png'', ''image/webp'', ''image/gif''} then True
      else file_type f = [] \<and>
        list_ex (ends_with (to_lower (file_name f))) [''.jpg'', ''.jpeg'', ''.png'', ''.webp'', ''.gif''])"

definition visibilityStorageKey :: string where
  "visibilityStorageKey = ''imagesilo_upload_visibility''"

definition storedVisibility :: "local_storage \<Rightarrow> visibility option" where
  "storedVisibility w =
     (case readLocalStorage w visibilityStorageKey of
        None \<Rightarrow> None
      | Some v \<Rightarrow> if v = ''public'' then Some Public else if v = ''private'' then Some Private else None)"

definition savingsPercent :: "image \<Rightarrow> string" where
  "savingsPercent im =
     (if sourceSize im = 0 then ''0.0''
      else to_fixed 1
        (js_mul (js_div (dbl (of_nat (sourceSize im) - of_nat (storedSize im))) (Fin (of_nat (sourceSize im))))
          (Fin 100)))"

definition unfinished :: "upload_item list \<Rightarrow> upload_item list" where
  "unfinished its = filter (\<lambda>i. status i \<noteq> Complete) its"

definition hasUnfinished :: "upload_page \<Rightarrow> bool" where
  "hasUnfinished s \<longleftrightarrow> unfinished (items s) \<noteq> []"

definition should_block :: "upload_page \<Rightarrow> string \<Rightarrow> string \<Rightarrow> bool" where
  "should_block s currentPath nextPath \<longleftrightarrow> hasUnfinished s \<and> currentPath \<noteq> nextPath"

definition completedImages :: "upload_page \<Rightarrow> image list" where
  "completedImages s = List.map_filter result (items s)"

definition maxBatch :: "upload_page \<Rightarrow> nat" where
  "maxBatch s = (case system s of None \<Rightarrow> 20 | Some i \<Rightarrow> maxBatchCount i)"

definition processing :: "upload_page \<Rightarrow> nat" where
  "processing s = (case system s of None \<Rightarrow> 1 | Some i \<Rightarrow> processingConcurrency i)"

definition uploadOutcomeMessage :: "js_error \<Rightarrow> string" where
  "uploadOutcomeMessage e =
     (case e of ApiError _ m _ \<Rightarrow> m | Abort_Error \<Rightarrow> ''Upload canceled'' | Other_Error m \<Rightarrow> m
      | Json_Error \<Rightarrow> ''Unexpected end of JSON input'' | Uri_Error \<Rightarrow> ''URI malformed'')"

section \<open>Handlers\<close>

text \<open>\<open>updateItem\<close>, with the patch as a function; nothing happens once the page is inactive.\<close>

definition updateItem :: "nat \<Rightarrow> (upload_item \<Rightarrow> upload_item) \<Rightarrow> upload_page \<Rightarrow> upload_page" where
  "updateItem i patch s =
     (if active s then s\<lparr>items := map (\<lambda>it. if item_id it = i then patch it else it) (items s)\<rparr> else s)"

definition begin_patch :: "nat \<Rightarrow> upload_item \<Rightarrow> upload_item" where
  "begin_patch c it =
     it\<lparr>status := Uploading, progress := Fin 0, result := None, controller := Some c, item_error := None\<rparr>"

definition complete_patch :: "image \<Rightarrow> upload_item \<Rightarrow> upload_item" where
  "complete_patch im it =
     it\<lparr>status := Complete, progress := Fin 100, result := Some im,
        previewUrl := Thumbnail (thumbnailUrl im), controller := None, item_error := None\<rparr>"

definition fail_patch :: "js_error \<Rightarrow> upload_item \<Rightarrow> upload_item" where
  "fail_patch e it =
     it\<lparr>status := (if e = Abort_Error then Canceled else Failed), controller := None,
        item_error := Some (uploadOutcomeMessage e)\<rparr>"

text \<open>\<open>uploadOne\<close> up to its first \<open>await\<close>, with the visibility its closure captured; the
  boolean says whether it awaits a request (otherwise it has returned \<open>false\<close>).\<close>

definition uploadOne_start ::
    "visibility option \<Rightarrow> upload_item \<Rightarrow> upload_page \<Rightarrow> (upload_page \<times> upload_effect list) \<times> bool" where
  "uploadOne_start v source s =
     (if \<not> active s then ((s, []), False)
      else
        let c = fresh s;
            s1 = s\<lparr>fresh := Suc c, controllers := jset_add c (controllers s),
                   runs := runs s @ [(c, item_id source)]\<rparr>
        in ((updateItem (item_id source) (begin_patch c) s1,
             [Start_Upload c (item_id source) (item_file source) v]), True))"

text \<open>The rest of \<open>uploadOne\<close>, when its request settles: the state, the effects, the result.\<close>

definition uploadOne_settle ::
    "nat \<Rightarrow> nat \<Rightarrow> js_error + image \<Rightarrow> upload_page \<Rightarrow> (upload_page \<times> upload_effect list) \<times> bool" where
  "uploadOne_settle c i r s =
     (let (s1, out, res) =
        (case r of
           Inr im \<Rightarrow> (updateItem i (complete_patch im) s, [], True)
         | Inl e \<Rightarrow>
             (case e of
                ApiError st _ _ \<Rightarrow>
                  if st = 401 then (s\<lparr>active := False\<rparr>, map Abort (controllers s), False)
                  else (updateItem i (fail_patch e) s, [], False)
              | _ \<Rightarrow> (updateItem i (fail_patch e) s, [], False)))
      in ((s1\<lparr>controllers := jset_delete c (controllers s1),
              runs := filter (\<lambda>p. fst p \<noteq> c) (runs s1)\<rparr>, out), res))"

text \<open>
  One worker at the head of its loop: it starts the next queued file, or ends. When the last one
  ends, the \<open>await Promise.all\<close> of \<open>submit\<close> continues with the first invalidation.
\<close>

definition worker_step :: "upload_page \<Rightarrow> upload_page \<times> upload_effect list" where
  "worker_step s =
     (case task s of None \<Rightarrow> (s, [])
      | Some t \<Rightarrow>
          if active s \<and> nextIndex t < length (queue t) then
            fst (uploadOne_start (task_visibility t) (queue t ! nextIndex t)
                   (s\<lparr>task := Some (t\<lparr>nextIndex := Suc (nextIndex t)\<rparr>)\<rparr>))
          else if workers t \<le> 1 then
            (s\<lparr>task := Some (t\<lparr>workers := 0, phase := Invalidating_Images\<rparr>)\<rparr>,
             [Page (Invalidate_Queries [''images''])])
          else (s\<lparr>task := Some (t\<lparr>workers := workers t - 1\<rparr>)\<rparr>, []))"

fun start_workers :: "nat \<Rightarrow> upload_page \<Rightarrow> upload_page \<times> upload_effect list" where
  "start_workers 0 s = (s, [])"
| "start_workers (Suc n) s =
     (let (s1, out1) = worker_step s; (s2, out2) = start_workers n s1 in (s2, out1 @ out2))"

definition submit :: "upload_page \<Rightarrow> upload_page \<times> upload_effect list" where
  "submit s =
     (let q = unfinished (items s) in
      if q = [] \<or> uploading s \<or> \<not> active s then (s, [])
      else
        let n = max 1 (min (processing s) (length q))
        in start_workers n
             (s\<lparr>uploading := True, page_error := None,
                task := Some \<lparr>kind = Batch, queue = q, nextIndex = 0, completed = 0, concurrency = n,
                              workers = n, task_visibility = visibility_choice s, phase = Working\<rparr>\<rparr>))"

text \<open>\<open>retry\<close>: one run outside the worker loop; inactive, it goes straight to the invalidations.\<close>

definition retry :: "upload_item \<Rightarrow> upload_page \<Rightarrow> upload_page \<times> upload_effect list" where
  "retry it s =
     (if uploading s then (s, [])
      else
        let t = \<lparr>kind = Retry, queue = [it], nextIndex = 1, completed = 0, concurrency = 1, workers = 1,
                 task_visibility = visibility_choice s, phase = Working\<rparr>;
            ((s1, out), started) = uploadOne_start (visibility_choice s) it (s\<lparr>uploading := True, task := Some t\<rparr>)
        in if started then (s1, out)
           else (s1\<lparr>task := Some (t\<lparr>workers := 0, phase := Invalidating_Images\<rparr>)\<rparr>,
                 out @ [Page (Invalidate_Queries [''images''])]))"

text \<open>A request settles: \<open>uploadOne\<close> returns to its caller, which counts and continues.\<close>

definition run_settled :: "nat \<Rightarrow> js_error + image \<Rightarrow> upload_page \<Rightarrow> upload_page \<times> upload_effect list" where
  "run_settled c r s =
     (case map_of (runs s) c of None \<Rightarrow> (s, [])
      | Some i \<Rightarrow>
          let ((s1, out), ok) = uploadOne_settle c i r s;
              s2 = s1\<lparr>task := map_option (\<lambda>t. if ok then t\<lparr>completed := Suc (completed t)\<rparr> else t) (task s1)\<rparr>;
              (s3, out') = worker_step s2
          in (s3, out @ out'))"

text \<open>The end of \<open>submit\<close> and of \<open>retry\<close>, after both invalidations.\<close>

definition finish_toast :: "upload_task \<Rightarrow> upload_effect" where
  "finish_toast t =
     (case kind t of
        Batch \<Rightarrow>
          if completed t = length (queue t)
          then Page (plain_toast Toast_Success ''toast.uploadComplete'' [completed t])
          else Page (plain_toast Toast_Warning ''toast.uploadPartial''
                       [completed t, length (queue t) - completed t])
      | Retry \<Rightarrow>
          if completed t = 1 then Page (plain_toast Toast_Success ''toast.uploadComplete'' [1])
          else Page (plain_toast Toast_Error ''toast.uploadFailed'' []))"

definition invalidated :: "upload_page \<Rightarrow> upload_page \<times> upload_effect list" where
  "invalidated s =
     (case task s of None \<Rightarrow> (s, [])
      | Some t \<Rightarrow>
          (case phase t of
             Working \<Rightarrow> (s, [])
           | Invalidating_Images \<Rightarrow>
               (s\<lparr>task := Some (t\<lparr>phase := Invalidating_Overview\<rparr>)\<rparr>,
                [Page (Invalidate_Queries [''overview''])])
           | Invalidating_Overview \<Rightarrow>
               if \<not> active s then (s\<lparr>task := None\<rparr>, [])
               else (s\<lparr>task := None, uploading := False\<rparr>, [finish_toast t])))"

text \<open>\<open>addFiles\<close>: the fresh identities are the item ids, and the previews' object URLs.\<close>

definition new_item :: "upload_page \<Rightarrow> nat \<Rightarrow> upload_file \<Rightarrow> upload_item" where
  "new_item s k f =
     \<lparr>item_id = k, item_file = f, previewUrl = (if can_preview s then Object_Url k else No_Preview),
      status = Queued, progress = Fin 0, result = None, controller = None, item_error = None\<rparr>"

definition addFiles :: "upload_file list \<Rightarrow> upload_page \<Rightarrow> upload_page \<times> upload_effect list" where
  "addFiles files s =
     (let supported = filter isSupportedImageFile files in
      if maxBatch s < length (unfinished (items s)) + length supported then
        (s\<lparr>page_error := Some (''upload.tooMany'', [maxBatch s])\<rparr>, [])
      else
        let ids = [fresh s ..< fresh s + length supported];
            urls = (if can_preview s then ids else []);
            err = (if length supported \<noteq> length files then Some (''upload.unsupported'', []) else None)
        in (s\<lparr>page_error := err, items := items s @ map2 (new_item s) ids supported,
              previewUrls := previewUrls s @ urls, fresh := fresh s + length supported\<rparr>,
            map Create_Url urls))"

definition clearQueue :: "upload_page \<Rightarrow> upload_page \<times> upload_effect list" where
  "clearQueue s =
     (if uploading s \<or> items s = [] then (s, [])
      else (s\<lparr>previewUrls := [], items := []\<rparr>, map Revoke_Url (previewUrls s)))"

definition leaveUpload :: "bool \<Rightarrow> upload_page \<Rightarrow> upload_page \<times> upload_effect list" where
  "leaveUpload blocked s =
     (s\<lparr>active := False, controllers := []\<rparr>,
      map Abort (controllers s) @ (if blocked then [Proceed] else []))"

definition stop :: "upload_page \<Rightarrow> upload_page \<times> upload_effect list" where
  "stop s =
     (s\<lparr>active := False, controllers := [], previewUrls := []\<rparr>,
      map Abort (controllers s) @ map Revoke_Url (previewUrls s))"

text \<open>The effect on \<open>[items]\<close>: object URLs no row shows any more are revoked.\<close>

definition retained_urls :: "upload_item list \<Rightarrow> nat list" where
  "retained_urls its =
     List.map_filter (\<lambda>it. case previewUrl it of Object_Url u \<Rightarrow> Some u | _ \<Rightarrow> None) its"

definition retain_previews :: "upload_page \<Rightarrow> upload_page \<times> upload_effect list" where
  "retain_previews s =
     (s\<lparr>previewUrls := filter (\<lambda>u. u \<in> set (retained_urls (items s))) (previewUrls s)\<rparr>,
      map Revoke_Url (filter (\<lambda>u. u \<notin> set (retained_urls (items s))) (previewUrls s)))"

definition find_item :: "nat \<Rightarrow> upload_page \<Rightarrow> upload_item option" where
  "find_item i s = find (\<lambda>it. item_id it = i) (items s)"

text \<open>The effect on \<open>[visibility]\<close>, which also runs when the page is mounted.\<close>

definition store_visibility :: "visibility option \<Rightarrow> upload_effect" where
  "store_visibility v =
     Page (Store_Item visibilityStorageKey (case v of None \<Rightarrow> ''default'' | Some w \<Rightarrow> visibility_text w))"

text \<open>
  The event handlers with the guards of the elements that trigger them: the row of an upload shows
  its cancel button while it uploads, its retry button once it failed or was canceled.
\<close>

fun upload_handle :: "upload_page \<Rightarrow> upload_event \<Rightarrow> upload_page \<times> upload_effect list" where
  "upload_handle s (System_Loaded i) = (s\<lparr>system := Some i\<rparr>, [])"
| "upload_handle s (Add_Files fs) = addFiles fs s"
| "upload_handle s (Set_Visibility v) =
     (s\<lparr>visibility_choice := v\<rparr>, if v = visibility_choice s then [] else [store_visibility v])"
| "upload_handle s Drag_Over = (s\<lparr>dragActive := True\<rparr>, [])"
| "upload_handle s (Drag_Leave inside) = (if inside then s else s\<lparr>dragActive := False\<rparr>, [])"
| "upload_handle s (Drop_Files fs) = addFiles fs (s\<lparr>dragActive := False\<rparr>)"
| "upload_handle s (Paste_Files fs) = (if fs = [] then (s, []) else addFiles fs s)"
| "upload_handle s Submit = submit s"
| "upload_handle s (Retry_Item i) =
     (case find_item i s of
        Some it \<Rightarrow> if status it = Failed \<or> status it = Canceled then retry it s else (s, [])
      | None \<Rightarrow> (s, []))"
| "upload_handle s (Cancel_Item i) =
     (case find_item i s of
        Some it \<Rightarrow>
          (s, if status it = Uploading then (case controller it of None \<Rightarrow> [] | Some c \<Rightarrow> [Abort c]) else [])
      | None \<Rightarrow> (s, []))"
| "upload_handle s (Run_Progress c p) =
     (case map_of (runs s) c of None \<Rightarrow> (s, [])
      | Some i \<Rightarrow> (updateItem i (\<lambda>it. it\<lparr>progress := p\<rparr>) s, []))"
| "upload_handle s (Run_Settled c r) = run_settled c r s"
| "upload_handle s Invalidated = invalidated s"
| "upload_handle s Clear_Queue = clearQueue s"
| "upload_handle s (Leave blocked) = leaveUpload blocked s"
| "upload_handle s Unmount = stop s"

text \<open>A handler, then the render and the effect on \<open>[items]\<close> where they changed.\<close>

definition upload_step :: "upload_page \<Rightarrow> upload_event \<Rightarrow> upload_page \<times> upload_effect list" where
  "upload_step s e =
     (let (s1, out1) = upload_handle s e
      in if items s1 = items s then (s1, out1)
         else let (s2, out2) = retain_previews s1 in (s2, out1 @ out2))"

definition upload_init :: "local_storage \<Rightarrow> bool \<Rightarrow> upload_page" where
  "upload_init w previews =
     \<lparr>items = [], visibility_choice = storedVisibility w, page_error = None, uploading = False,
      dragActive = False, active = True, controllers = [], previewUrls = [], runs = [], task = None,
      system = None, can_preview = previews, fresh = 0\<rparr>"

text \<open>
  The request behind \<open>Start_Upload\<close>, the file standing for its name in the form, and the query for the
  limits of the server.
\<close>

definition upload_request :: "upload_file \<Rightarrow> visibility option \<Rightarrow> effect" where
  "upload_request f v =
     Upload_Form ''/api/v1/images''
       ((''file'', file_name f) # (case v of None \<Rightarrow> [] | Some w \<Rightarrow> [(''visibility'', visibility_text w)]))"

definition system_request :: effect where
  "system_request = Request ''/api/v1/system'' no_init"

text \<open>What the page lets the user press.\<close>

definition submit_disabled :: "upload_page \<Rightarrow> bool" where
  "submit_disabled s \<longleftrightarrow>
     items s = [] \<or> uploading s \<or> list_all (\<lambda>i. status i = Complete) (items s)"

definition shows_completed_links :: "upload_page \<Rightarrow> bool" where
  "shows_completed_links s \<longleftrightarrow> \<not> uploading s \<and> 1 < length (items s) \<and> completedImages s \<noteq> []"

end
