(* ===== verification/Upload_Invariant.thy ===== *)
theory Upload_Invariant
  imports Upload
begin

text \<open>
  The invariant of the upload page and the proof that every event keeps it: rows have distinct
  identities, a row is \<open>Uploading\<close> exactly while one run is in flight for it, a task counts its
  workers, the rows it has started and its successes. \<open>upload_wf k\<close> is the invariant with \<open>k\<close>
  workers standing at the head of their loop, the states between two steps of \<open>worker_step\<close>.
\<close>

section \<open>Invariant\<close>

definition ids :: "upload_item list \<Rightarrow> nat set" where
  "ids its = item_id ` set its"

definition with_status :: "upload_status \<Rightarrow> upload_page \<Rightarrow> nat set" where
  "with_status st s = item_id ` {it \<in> set (items s). status it = st}"

definition page_ok :: "upload_page \<Rightarrow> bool" where
  "page_ok s \<longleftrightarrow>
     distinct (map item_id (items s)) \<and> (\<forall>i \<in> ids (items s). i < fresh s) \<and>
     distinct (map fst (runs s)) \<and> (\<forall>c \<in> fst ` set (runs s). c < fresh s) \<and>
     distinct (controllers s) \<and> (active s \<longrightarrow> set (controllers s) = fst ` set (runs s)) \<and>
     (\<forall>it \<in> set (items s). result it \<noteq> None \<longleftrightarrow> status it = Complete)"

definition task_ok :: "nat \<Rightarrow> upload_page \<Rightarrow> bool" where
  "task_ok k s =
     (case task s of
        None \<Rightarrow> runs s = [] \<and> k = 0 \<and> (active s \<longrightarrow> \<not> uploading s)
      | Some t \<Rightarrow>
          uploading s \<and> nextIndex t \<le> length (queue t) \<and> workers t \<le> concurrency t \<and>
          (if phase t = Working then workers t = length (runs s) + k \<and> 1 \<le> workers t
           else runs s = [] \<and> workers t = 0 \<and> k = 0 \<and>
             (active s \<longrightarrow> nextIndex t = length (queue t))))"

definition started_ids :: "upload_task \<Rightarrow> nat set" where
  "started_ids t = ids (take (nextIndex t) (queue t))"

definition rows_ok :: "upload_page \<Rightarrow> bool" where
  "rows_ok s \<longleftrightarrow>
     (active s \<longrightarrow>
        snd ` set (runs s) = with_status Uploading s \<and> distinct (map snd (runs s)) \<and>
        (case task s of None \<Rightarrow> True
         | Some t \<Rightarrow>
             distinct (map item_id (queue t)) \<and> ids (queue t) \<subseteq> ids (items s) \<and>
             with_status Uploading s \<subseteq> started_ids t \<and>
             with_status Complete s \<inter> ids (drop (nextIndex t) (queue t)) = {} \<and>
             completed t = card (started_ids t \<inter> with_status Complete s)))"

definition upload_wf :: "nat \<Rightarrow> upload_page \<Rightarrow> bool" where
  "upload_wf k s \<longleftrightarrow> page_ok s \<and> task_ok k s \<and> rows_ok s"

abbreviation upload_inv :: "upload_page \<Rightarrow> bool" where
  "upload_inv s \<equiv> upload_wf 0 s"

lemmas upload_inv_defs = upload_wf_def page_ok_def task_ok_def rows_ok_def

section \<open>Updating a row\<close>

text \<open>A patch of a row keeps its identity.\<close>

definition keeps_id :: "(upload_item \<Rightarrow> upload_item) \<Rightarrow> bool" where
  "keeps_id f \<longleftrightarrow> (\<forall>it. item_id (f it) = item_id it)"

lemma keeps_id_patches [simp]:
  "keeps_id (begin_patch c)" "keeps_id (complete_patch im)" "keeps_id (fail_patch e)"
  "keeps_id (\<lambda>it. it\<lparr>progress := p\<rparr>)"
  by (simp_all add: keeps_id_def begin_patch_def complete_patch_def fail_patch_def)

lemma updateItem_simps [simp]:
  "controllers (updateItem i f s) = controllers s" "runs (updateItem i f s) = runs s"
  "task (updateItem i f s) = task s" "active (updateItem i f s) = active s"
  "uploading (updateItem i f s) = uploading s" "fresh (updateItem i f s) = fresh s"
  "previewUrls (updateItem i f s) = previewUrls s" "system (updateItem i f s) = system s"
  "visibility_choice (updateItem i f s) = visibility_choice s" "can_preview (updateItem i f s) = can_preview s"
  by (simp_all add: updateItem_def)

lemma updateItem_inactive [simp]: "\<not> active s \<Longrightarrow> updateItem i f s = s"
  by (simp add: updateItem_def)

lemma map_item_id_update:
  "keeps_id f \<Longrightarrow> map item_id (map (\<lambda>it. if item_id it = i then f it else it) its) = map item_id its"
  by (simp add: keeps_id_def)

lemma map_item_id_updateItem [simp]: "keeps_id f \<Longrightarrow> map item_id (items (updateItem i f s)) = map item_id (items s)"
  by (simp add: updateItem_def map_item_id_update del: map_map)

lemma ids_updateItem [simp]: "keeps_id f \<Longrightarrow> ids (items (updateItem i f s)) = ids (items s)"
  using map_item_id_updateItem [of f i s] unfolding ids_def by (metis list.set_map)

lemma with_status_iff: "j \<in> with_status q s \<longleftrightarrow> (\<exists>it \<in> set (items s). item_id it = j \<and> status it = q)"
  by (auto simp: with_status_def)

lemma with_status_update_iff:
  assumes "active s" "keeps_id f"
  shows "j \<in> with_status q (updateItem i f s) \<longleftrightarrow>
    (\<exists>it \<in> set (items s). item_id it = j \<and> status (if item_id it = i then f it else it) = q)"
  using assms(2) by (auto simp: with_status_iff updateItem_def assms(1) keeps_id_def image_iff Bex_def
      split: if_splits)

lemma with_status_updateItem:
  assumes "active s" "keeps_id f" "i \<in> ids (items s)" "\<And>it. status (f it) = st"
  shows "with_status q (updateItem i f s) = (if q = st then insert i (with_status q s) else with_status q s - {i})"
proof (rule set_eqI)
  fix j
  show "j \<in> with_status q (updateItem i f s) \<longleftrightarrow>
    j \<in> (if q = st then insert i (with_status q s) else with_status q s - {i})"
    unfolding with_status_update_iff [OF assms(1,2)]
    using assms(3,4) by (cases "j = i") (auto simp: with_status_iff ids_def)
qed

lemma with_status_progress [simp]:
  "with_status q (updateItem i (\<lambda>it. it\<lparr>progress := p\<rparr>) s) = with_status q s"
proof (cases "active s")
  case True
  then show ?thesis
    by (intro set_eqI, subst with_status_update_iff) (auto simp: with_status_iff keeps_id_def)
qed simp

lemma with_status_items: "items s = items s' \<Longrightarrow> with_status q s = with_status q s'"
  by (simp add: with_status_def)

lemma with_status_disjoint:
  assumes "distinct (map item_id (items s))" "i \<in> with_status q s" "i \<in> with_status q' s"
  shows "q = q'"
  using assms by (auto simp: with_status_def distinct_map dest: inj_onD)

lemma with_status_ids: "with_status q s \<subseteq> ids (items s)"
  by (auto simp: with_status_def ids_def)

lemma set_items_updateItem:
  assumes "it \<in> set (items (updateItem i f s))"
  shows "it \<in> set (items s) \<or> (active s \<and> (\<exists>x \<in> set (items s). item_id x = i \<and> it = f x))"
  using assms by (auto simp: updateItem_def split: if_splits)

lemma page_ok_updateItem:
  assumes "page_ok s" "keeps_id f"
    "\<And>it. active s \<Longrightarrow> it \<in> set (items s) \<Longrightarrow> item_id it = i \<Longrightarrow>
      result (f it) \<noteq> None \<longleftrightarrow> status (f it) = Complete"
  shows "page_ok (updateItem i f s)"
proof -
  have "result it \<noteq> None \<longleftrightarrow> status it = Complete" if "it \<in> set (items (updateItem i f s))" for it
    using set_items_updateItem [OF that] assms(1,3) by (auto simp: page_ok_def)
  then show ?thesis using assms(1,2) by (simp add: page_ok_def)
qed

section \<open>Starting and settling an upload\<close>

lemma with_status_more [simp]:
  "with_status q (s\<lparr>task := t\<rparr>) = with_status q s" "with_status q (s\<lparr>runs := r\<rparr>) = with_status q s"
  "with_status q (s\<lparr>controllers := cs\<rparr>) = with_status q s" "with_status q (s\<lparr>fresh := n\<rparr>) = with_status q s"
  "with_status q (s\<lparr>active := b\<rparr>) = with_status q s" "with_status q (s\<lparr>uploading := b\<rparr>) = with_status q s"
  "with_status q (s\<lparr>page_error := e\<rparr>) = with_status q s" "with_status q (s\<lparr>previewUrls := u\<rparr>) = with_status q s"
  by (simp_all add: with_status_def)

lemma started_Suc:
  assumes "nextIndex t < length (queue t)"
  shows "started_ids (t\<lparr>nextIndex := Suc (nextIndex t)\<rparr>) = insert (item_id (queue t ! nextIndex t)) (started_ids t)"
  using assms by (simp add: started_ids_def ids_def take_Suc_conv_app_nth)

lemma ids_drop_Suc: "n < length q \<Longrightarrow> ids (drop n q) = insert (item_id (q ! n)) (ids (drop (Suc n) q))"
  by (simp add: ids_def Cons_nth_drop_Suc [symmetric])

lemma next_not_started:
  assumes "distinct (map item_id (queue t))" "nextIndex t < length (queue t)"
  shows "item_id (queue t ! nextIndex t) \<notin> started_ids t"
proof
  assume "item_id (queue t ! nextIndex t) \<in> started_ids t"
  then obtain j where "j < nextIndex t" "item_id (queue t ! j) = item_id (queue t ! nextIndex t)"
    using assms(2) by (auto simp: started_ids_def ids_def in_set_conv_nth)
  with assms show False by (auto simp: distinct_conv_nth)
qed

lemma worker_step_start:
  assumes wf: "upload_wf (Suc k) s" and t: "task s = Some t" and go: "active s" "nextIndex t < length (queue t)"
  shows "upload_wf k (fst (worker_step s))"
proof -
  define i where "i = item_id (queue t ! nextIndex t)"
  define t' where "t' = t\<lparr>nextIndex := Suc (nextIndex t)\<rparr>"
  define s1 where "s1 = s\<lparr>task := Some t', fresh := Suc (fresh s), controllers := jset_add (fresh s) (controllers s),
    runs := runs s @ [(fresh s, i)]\<rparr>"
  have step: "fst (worker_step s) = updateItem i (begin_patch (fresh s)) s1"
    using go t by (simp add: worker_step_def uploadOne_start_def Let_def s1_def i_def t'_def)
  have ph: "phase t = Working" using wf t by (auto simp: upload_wf_def task_ok_def split: if_splits)
  have rows: "snd ` set (runs s) = with_status Uploading s" "distinct (map snd (runs s))"
    "distinct (map item_id (queue t))" "ids (queue t) \<subseteq> ids (items s)"
    "with_status Uploading s \<subseteq> started_ids t"
    "with_status Complete s \<inter> ids (drop (nextIndex t) (queue t)) = {}"
    "completed t = card (started_ids t \<inter> with_status Complete s)"
    using wf go t by (auto simp: upload_wf_def rows_ok_def)
  have i: "i \<in> ids (items s)" using rows(4) go by (auto simp: i_def ids_def)
  have fresh_i: "i \<notin> started_ids t" unfolding i_def by (rule next_not_started) (use rows go in auto)
  have i_up: "i \<notin> with_status Uploading s" using fresh_i rows(5) by auto
  have i_done: "i \<notin> with_status Complete s" using rows(6) go by (auto simp: i_def ids_drop_Suc)
  have "page_ok s1" using wf go by (auto simp: upload_wf_def page_ok_def s1_def)
  then have page: "page_ok (updateItem i (begin_patch (fresh s)) s1)"
    by (rule page_ok_updateItem) (simp_all add: begin_patch_def)
  have act: "active s1" "i \<in> ids (items s1)" using go i by (simp_all add: s1_def)
  note ws = with_status_updateItem [OF act(1) keeps_id_patches(1) act(2), of "fresh s" Uploading]
  have up: "with_status Uploading (updateItem i (begin_patch (fresh s)) s1) = insert i (with_status Uploading s)"
    and dn: "with_status Complete (updateItem i (begin_patch (fresh s)) s1) = with_status Complete s"
    using ws i_done by (simp_all add: begin_patch_def s1_def)
  have started: "started_ids t' = insert i (started_ids t)" using go by (simp add: t'_def i_def started_Suc)
  have "rows_ok (updateItem i (begin_patch (fresh s)) s1)"
    unfolding rows_ok_def up dn using rows go i_up i_done started
    by (auto simp: s1_def t'_def ids_drop_Suc)
  moreover have "task_ok k (updateItem i (begin_patch (fresh s)) s1)"
    using wf t go ph by (auto simp: upload_wf_def task_ok_def s1_def t'_def)
  ultimately show ?thesis using page step by (simp add: upload_wf_def)
qed

text \<open>The rows and the page do not depend on how a task counts its workers.\<close>

lemma rows_ok_task:
  assumes "rows_ok s" "task s = Some t" "queue t' = queue t" "nextIndex t' = nextIndex t" "completed t' = completed t"
  shows "rows_ok (s\<lparr>task := Some t'\<rparr>)"
  using assms by (simp add: rows_ok_def started_ids_def)

lemma page_ok_task [simp]: "page_ok (s\<lparr>task := t\<rparr>) = page_ok s"
  by (simp add: page_ok_def)

lemma worker_step_end:
  assumes wf: "upload_wf (Suc k) s" and t: "task s = Some t"
    and stop: "\<not> (active s \<and> nextIndex t < length (queue t))"
  shows "upload_wf k (fst (worker_step s))"
proof -
  have ok: "page_ok s" "rows_ok s" "task_ok (Suc k) s" using wf by (auto simp: upload_wf_def)
  have ph: "phase t = Working" "workers t = length (runs s) + Suc k" "nextIndex t \<le> length (queue t)"
    "uploading s" "workers t \<le> concurrency t"
    using ok(3) t by (auto simp: task_ok_def split: if_splits)
  have stop': "active s \<longrightarrow> nextIndex t = length (queue t)" using stop ph(3) by auto
  show ?thesis
  proof (cases "workers t \<le> 1")
    case True
    then have "runs s = []" "k = 0" using ph(2) by auto
    have step: "fst (worker_step s) = s\<lparr>task := Some (t\<lparr>workers := 0, phase := Invalidating_Images\<rparr>)\<rparr>"
      using t stop True by (simp only: worker_step_def option.case if_False if_True fst_conv)
    have "rows_ok (fst (worker_step s))" unfolding step by (rule rows_ok_task [OF ok(2) t]) simp_all
    moreover have "task_ok k (fst (worker_step s))"
      unfolding step using ph stop' \<open>runs s = []\<close> \<open>k = 0\<close> by (simp add: task_ok_def)
    ultimately show ?thesis using ok(1) by (simp add: upload_wf_def step)
  next
    case False
    have step: "fst (worker_step s) = s\<lparr>task := Some (t\<lparr>workers := workers t - 1\<rparr>)\<rparr>"
      using t stop False by (simp only: worker_step_def option.case if_False fst_conv)
    have "rows_ok (fst (worker_step s))" unfolding step by (rule rows_ok_task [OF ok(2) t]) simp_all
    moreover have "task_ok k (fst (worker_step s))"
      unfolding step using ph False by (cases "runs s = []") (simp_all add: task_ok_def Suc_le_eq)
    ultimately show ?thesis using ok(1) by (simp add: upload_wf_def step)
  qed
qed

lemma worker_step_wf: "upload_wf (Suc k) s \<Longrightarrow> upload_wf k (fst (worker_step s))"
proof (cases "task s")
  case None
  then show "upload_wf (Suc k) s \<Longrightarrow> ?thesis" by (simp add: upload_wf_def task_ok_def)
next
  case (Some t)
  then show "upload_wf (Suc k) s \<Longrightarrow> ?thesis"
    using worker_step_start [of k s t] worker_step_end [of k s t] by blast
qed

lemma start_workers_wf: "upload_wf n s \<Longrightarrow> upload_wf 0 (fst (start_workers n s))"
proof (induction n arbitrary: s)
  case (Suc n)
  from Suc.prems have "upload_wf n (fst (worker_step s))" by (rule worker_step_wf)
  then show ?case using Suc.IH by (auto simp: case_prod_unfold Let_def)
qed simp

text \<open>Removing the run that settles.\<close>

lemma remove_run:
  assumes "distinct (map fst rs)" "map_of rs c = Some i"
  shows "Suc (length (filter (\<lambda>p. fst p \<noteq> c) rs)) = length rs"
    "fst ` set (filter (\<lambda>p. fst p \<noteq> c) rs) = fst ` set rs - {c}"
    "distinct (map snd rs) \<Longrightarrow> snd ` set (filter (\<lambda>p. fst p \<noteq> c) rs) = snd ` set rs - {i}"
proof -
  have mem: "(c, i) \<in> set rs" using assms(2) by (rule map_of_SomeD)
  have eq: "filter (\<lambda>p. fst p = c) rs = [(c, i)]"
    using assms
  proof (induction rs)
    case (Cons a rs)
    then show ?case by (cases a) (auto simp: filter_empty_conv split: if_splits)
  qed simp
  show "Suc (length (filter (\<lambda>p. fst p \<noteq> c) rs)) = length rs"
    using sum_length_filter_compl [of "\<lambda>p. fst p = c" rs] eq by simp
  show "fst ` set (filter (\<lambda>p. fst p \<noteq> c) rs) = fst ` set rs - {c}" by auto
  have key: "p = (c, i)" if "p \<in> set rs" "fst p = c" for p
  proof -
    have "p \<in> set (filter (\<lambda>p. fst p = c) rs)" using that by simp
    then show ?thesis unfolding eq by simp
  qed
  assume d: "distinct (map snd rs)"
  have "snd p \<noteq> i" if "p \<in> set rs" "fst p \<noteq> c" for p
    using d mem that by (metis distinct_map fst_conv inj_onD snd_conv)
  then show "snd ` set (filter (\<lambda>p. fst p \<noteq> c) rs) = snd ` set rs - {i}"
    using key by (fastforce simp: image_iff)
qed

text \<open>The state in which \<open>uploadOne\<close> has returned to its caller.\<close>

definition after_settle :: "nat \<Rightarrow> nat \<Rightarrow> js_error + image \<Rightarrow> upload_page \<Rightarrow> upload_page" where
  "after_settle c i r s =
     (let ((s1, out), ok) = uploadOne_settle c i r s
      in s1\<lparr>task := map_option (\<lambda>t. if ok then t\<lparr>completed := Suc (completed t)\<rparr> else t) (task s1)\<rparr>)"

definition drop_run :: "nat \<Rightarrow> upload_page \<Rightarrow> upload_page" where
  "drop_run c s = s\<lparr>controllers := jset_delete c (controllers s), runs := filter (\<lambda>p. fst p \<noteq> c) (runs s)\<rparr>"

lemma after_settle_cases:
  "after_settle c i r s =
     (case r of
        Inr im \<Rightarrow>
          drop_run c (updateItem i (complete_patch im) s)
            \<lparr>task := map_option (\<lambda>t. t\<lparr>completed := Suc (completed t)\<rparr>) (task s)\<rparr>
      | Inl e \<Rightarrow>
          if \<exists>m k. e = ApiError 401 m k then drop_run c (s\<lparr>active := False\<rparr>)
          else drop_run c (updateItem i (fail_patch e) s))"
  by (auto simp: after_settle_def uploadOne_settle_def drop_run_def Let_def option.map_ident
      split: sum.splits js_error.splits)

lemma run_settled_after:
  "map_of (runs s) c = Some i \<Longrightarrow>
   fst (run_settled c r s) = fst (worker_step (after_settle c i r s))"
  by (simp add: run_settled_def after_settle_def Let_def case_prod_unfold)

lemma drop_run_simps [simp]:
  "items (drop_run c s) = items s" "active (drop_run c s) = active s" "task (drop_run c s) = task s"
  "uploading (drop_run c s) = uploading s" "fresh (drop_run c s) = fresh s"
  "with_status q (drop_run c s) = with_status q s"
  by (simp_all add: drop_run_def)

lemma page_ok_drop_run: "page_ok s \<Longrightarrow> page_ok (drop_run c s)"
  by (auto simp: page_ok_def drop_run_def distinct_map_filter intro!: distinct_jset_delete)

lemma task_ok_drop_run:
  assumes "page_ok s" "task_ok 0 s" "map_of (runs s) c = Some i" "task s = Some t"
  shows "task_ok 1 (drop_run c s)" "phase t = Working"
  using assms remove_run(1) [of "runs s" c i]
  by (auto simp: task_ok_def page_ok_def drop_run_def split: if_splits)

lemma running_task:
  assumes "upload_wf 0 s" "map_of (runs s) c = Some i"
  obtains t where "task s = Some t"
  using assms by (cases "task s") (auto simp: upload_wf_def task_ok_def)

lemma rows_ok_settled:
  assumes page: "page_ok s" and rows: "rows_ok s" and run: "map_of (runs s) c = Some i"
    and t: "task s = Some t" and f: "keeps_id f" "\<And>it. status (f it) = st" "st \<noteq> Uploading"
  shows "rows_ok (drop_run c (updateItem i f s)
    \<lparr>task := Some (t\<lparr>completed := completed t + (if st = Complete then 1 else 0)\<rparr>)\<rparr>)"
proof (cases "active s")
  case act: True
  have r: "snd ` set (runs s) = with_status Uploading s" "distinct (map snd (runs s))"
    "distinct (map item_id (queue t))" "ids (queue t) \<subseteq> ids (items s)"
    "with_status Uploading s \<subseteq> started_ids t"
    "with_status Complete s \<inter> ids (drop (nextIndex t) (queue t)) = {}"
    "completed t = card (started_ids t \<inter> with_status Complete s)"
    using rows act t by (auto simp: rows_ok_def)
  have i_up: "i \<in> with_status Uploading s" using r(1) map_of_SomeD [OF run] by force
  then have i: "i \<in> ids (items s)" "i \<in> started_ids t" using with_status_ids r(5) by auto
  have i_done: "i \<notin> with_status Complete s"
    using with_status_disjoint [OF _ i_up, of Complete] page by (auto simp: page_ok_def)
  have fst_d: "distinct (map fst (runs s))" using page by (simp add: page_ok_def)
  note rm = remove_run(3) [OF fst_d run r(2)]
  have up: "with_status Uploading (updateItem i f s) = with_status Uploading s - {i}"
    and dn: "with_status Complete (updateItem i f s) =
      (if st = Complete then insert i (with_status Complete s) else with_status Complete s)"
    using with_status_updateItem [OF act f(1) i(1) f(2)] f(3) i_done by auto
  have "i \<notin> ids (drop (nextIndex t) (queue t))"
    using r(3) i(2) unfolding started_ids_def ids_def
    by (metis append_take_drop_id disjoint_iff distinct_append list.set_map map_append)
  moreover have "finite (started_ids t)" by (simp add: started_ids_def ids_def)
  ultimately show ?thesis
    unfolding rows_ok_def using act r up dn rm i i_done f(1)
    by (auto simp: drop_run_def started_ids_def distinct_map_filter Int_insert_right)
qed (simp add: rows_ok_def)

lemma after_settle_wf:
  assumes wf: "upload_wf 0 s" and run: "map_of (runs s) c = Some i"
  shows "upload_wf 1 (after_settle c i r s)"
proof -
  obtain t where t: "task s = Some t" using running_task [OF wf run] .
  have ok: "page_ok s" "task_ok 0 s" "rows_ok s" using wf by (auto simp: upload_wf_def)
  note tk = task_ok_drop_run [OF ok(1,2) run t]
  have i_up: "i \<in> with_status Uploading s" if "active s"
    using ok(3) that map_of_SomeD [OF run] by (force simp: rows_ok_def)
  have "result it = None" if "active s" "it \<in> set (items s)" "item_id it = i" for it
  proof -
    have "status it = Uploading"
      using i_up [OF that(1)] that(2,3) ok(1) by (auto simp: with_status_iff page_ok_def distinct_map dest: inj_onD)
    then show ?thesis using ok(1) that(2) by (auto simp: page_ok_def)
  qed
  then have pf: "page_ok (updateItem i (fail_patch e) s)" for e
    by (intro page_ok_updateItem [OF ok(1)]) (auto simp: fail_patch_def)
  have pc: "page_ok (updateItem i (complete_patch im) s)" for im
    by (rule page_ok_updateItem [OF ok(1)]) (simp_all add: complete_patch_def)
  have pi: "page_ok (s\<lparr>active := False\<rparr>)" using ok(1) by (simp add: page_ok_def)
  have wf1: "upload_wf 1 (drop_run c s'\<lparr>task := Some t'\<rparr>)"
    if "page_ok s'" "rows_ok (drop_run c s'\<lparr>task := Some t'\<rparr>)"
      "runs s' = runs s" "task s' = task s" "uploading s' = uploading s" "active s' \<longrightarrow> active s"
      "queue t' = queue t" "nextIndex t' = nextIndex t" "workers t' = workers t"
      "concurrency t' = concurrency t" "phase t' = phase t" for s' t'
    using that tk page_ok_drop_run [OF that(1), of c] t by (simp add: upload_wf_def task_ok_def drop_run_def)
  show ?thesis
  proof (cases r)
    case (Inr im)
    define t' where "t' = t\<lparr>completed := Suc (completed t)\<rparr>"
    have eq: "after_settle c i r s = drop_run c (updateItem i (complete_patch im) s)\<lparr>task := Some t'\<rparr>"
      using Inr t by (simp add: after_settle_cases t'_def)
    have st: "\<And>it. status (complete_patch im it) = Complete" by (simp add: complete_patch_def)
    have "rows_ok (drop_run c (updateItem i (complete_patch im) s)\<lparr>task := Some t'\<rparr>)"
      using rows_ok_settled [OF ok(1,3) run t keeps_id_patches(2) st] by (simp add: t'_def)
    then show ?thesis unfolding eq by (rule wf1 [OF pc]) (simp_all add: t'_def)
  next
    case (Inl e)
    show ?thesis
    proof (cases "\<exists>m k. e = ApiError 401 m k")
      case True
      then have eq: "after_settle c i r s = drop_run c (s\<lparr>active := False\<rparr>)\<lparr>task := Some t\<rparr>"
        using Inl t by (simp add: after_settle_cases drop_run_def)
      have "rows_ok (drop_run c (s\<lparr>active := False\<rparr>)\<lparr>task := Some t\<rparr>)" by (simp add: rows_ok_def)
      then show ?thesis unfolding eq by (rule wf1 [OF pi]) simp_all
    next
      case False
      have eq: "after_settle c i r s = drop_run c (updateItem i (fail_patch e) s)\<lparr>task := Some t\<rparr>"
        using Inl False t by (simp add: after_settle_cases drop_run_def)
      have "rows_ok (drop_run c (updateItem i (fail_patch e) s)\<lparr>task := Some t\<rparr>)"
      proof -
        define st where "st = (if e = Abort_Error then Canceled else Failed)"
        have st: "\<And>it. status (fail_patch e it) = st" "st \<noteq> Uploading" "st \<noteq> Complete"
          by (simp_all add: fail_patch_def st_def)
        show ?thesis
          using rows_ok_settled [OF ok(1,3) run t keeps_id_patches(3) st(1,2)] st(3) by simp
      qed
      then show ?thesis unfolding eq by (rule wf1 [OF pf]) simp_all
    qed
  qed
qed

section \<open>The handlers keep the invariant\<close>

lemma run_settled_inv: "upload_inv s \<Longrightarrow> upload_inv (fst (run_settled c r s))"
proof (cases "map_of (runs s) c")
  case None
  then show "upload_inv s \<Longrightarrow> ?thesis" by (simp add: run_settled_def)
next
  case (Some i)
  assume "upload_inv s"
  then show ?thesis
    using worker_step_wf [of 0, OF after_settle_wf [OF _ Some, unfolded One_nat_def]] Some
    by (simp add: run_settled_after)
qed

lemma idle_no_task:
  assumes "upload_inv s" "\<not> uploading s"
  shows "task s = None" "runs s = []"
  using assms by (auto simp: upload_wf_def task_ok_def split: option.splits)

lemma unfinished_not_complete:
  assumes "page_ok s"
  shows "with_status Complete s \<inter> ids (unfinished (items s)) = {}"
    "ids (unfinished (items s)) \<subseteq> ids (items s)" "distinct (map item_id (unfinished (items s)))"
  using assms by (auto simp: with_status_iff ids_def unfinished_def page_ok_def distinct_map dest: inj_onD
      intro: inj_on_subset)

text \<open>A task over some unfinished rows, none of them started, with \<open>n\<close> workers about to loop.\<close>

lemma new_task_wf:
  assumes inv: "upload_inv s" and idle: "\<not> uploading s" and act: "active s"
    and q: "ids (queue t) \<subseteq> ids (items s)" "distinct (map item_id (queue t))"
      "with_status Complete s \<inter> ids (queue t) = {}"
    and t: "nextIndex t = 0" "completed t = 0" "workers t = n" "concurrency t = n" "phase t = Working" "1 \<le> n"
  shows "upload_wf n (s\<lparr>uploading := True, page_error := e, task := Some t\<rparr>)"
proof -
  have none: "task s = None" "runs s = []" using idle_no_task [OF inv idle] .
  have up: "with_status Uploading s = {}"
    using inv act none by (auto simp: upload_wf_def rows_ok_def)
  show ?thesis
    using inv none q t up
    by (auto simp: upload_wf_def task_ok_def rows_ok_def page_ok_def started_ids_def ids_def)
qed

lemma submit_inv: "upload_inv s \<Longrightarrow> upload_inv (fst (submit s))"
proof (cases "unfinished (items s) = [] \<or> uploading s \<or> \<not> active s")
  case False
  assume inv: "upload_inv s"
  then have "page_ok s" by (simp add: upload_wf_def)
  note un = unfinished_not_complete [OF this]
  show ?thesis
    using False un by (auto simp: submit_def Let_def intro!: start_workers_wf new_task_wf [OF inv])
qed (auto simp: submit_def)

lemma retry_worker_step:
  assumes "active s" "\<not> uploading s"
  shows "retry it s = worker_step (s\<lparr>uploading := True, task := Some
     \<lparr>kind = Retry, queue = [it], nextIndex = 0, completed = 0, concurrency = 1, workers = 1,
      task_visibility = visibility_choice s, phase = Working\<rparr>\<rparr>)"
  using assms by (simp add: retry_def worker_step_def uploadOne_start_def Let_def updateItem_def)

lemma retry_inv:
  assumes inv: "upload_inv s" and it: "it \<in> set (items s)" "status it = Failed \<or> status it = Canceled"
  shows "upload_inv (fst (retry it s))"
proof -
  consider "uploading s" | "\<not> uploading s" "active s" | "\<not> uploading s" "\<not> active s" by blast
  then show ?thesis
  proof cases
    case 1
    then show ?thesis using inv by (simp add: retry_def)
  next
    case 2
    have "item_id it \<notin> with_status Complete s"
      using inv it by (auto simp: with_status_iff upload_wf_def page_ok_def distinct_map dest: inj_onD)
    then have "upload_wf 1 (s\<lparr>uploading := True, page_error := page_error s, task := Some
       \<lparr>kind = Retry, queue = [it], nextIndex = 0, completed = 0, concurrency = 1, workers = 1,
        task_visibility = visibility_choice s, phase = Working\<rparr>\<rparr>)"
      using it(1) by (intro new_task_wf [OF inv 2]) (auto simp: ids_def)
    then show ?thesis using worker_step_wf [of 0] 2 by (simp add: retry_worker_step)
  next
    case 3
    then show ?thesis
      using inv idle_no_task [OF inv 3(1)]
      by (auto simp: retry_def uploadOne_start_def upload_wf_def page_ok_def task_ok_def rows_ok_def)
  qed
qed

lemma invalidated_inv: "upload_inv s \<Longrightarrow> upload_inv (fst (invalidated s))"
  by (cases "task s")
    (auto simp: invalidated_def upload_wf_def page_ok_def task_ok_def rows_ok_def started_ids_def
      with_status_def split: task_phase.splits if_splits)

lemma updateItem_progress_inv:
  assumes "upload_inv s"
  shows "upload_inv (updateItem i (\<lambda>it. it\<lparr>progress := p\<rparr>) s)"
proof -
  have "page_ok (updateItem i (\<lambda>it. it\<lparr>progress := p\<rparr>) s)"
    using assms by (intro page_ok_updateItem) (auto simp: upload_wf_def page_ok_def)
  with assms show ?thesis
    by (cases "task s") (auto simp: upload_wf_def task_ok_def rows_ok_def)
qed

lemma map_item_id_new_items:
  "length ks = length fs \<Longrightarrow> map item_id (map2 (new_item s) ks fs) = ks"
  by (induction ks fs rule: list_induct2) (auto simp: new_item_def)

lemma new_items_props:
  "it \<in> set (map2 (new_item s) ks fs) \<Longrightarrow> status it = Queued \<and> result it = None \<and> item_id it \<in> set ks"
  by (auto simp: new_item_def dest: set_zip_leftD)

lemma addFiles_accept:
  assumes "\<not> maxBatch s < length (unfinished (items s)) + length (filter isSupportedImageFile files)"
  obtains err new urls where
    "fst (addFiles files s) = s\<lparr>page_error := err, items := items s @ new,
       previewUrls := previewUrls s @ urls, fresh := fresh s + length (filter isSupportedImageFile files)\<rparr>"
    "map item_id new = [fresh s ..< fresh s + length (filter isSupportedImageFile files)]"
    "\<forall>it \<in> set new. status it = Queued \<and> result it = None"
    "urls = (if can_preview s then map item_id new else [])"
    "new = map2 (new_item s) [fresh s ..< fresh s + length (filter isSupportedImageFile files)]
      (filter isSupportedImageFile files)"
proof -
  let ?fs = "filter isSupportedImageFile files"
  let ?new = "map2 (new_item s) [fresh s ..< fresh s + length ?fs] ?fs"
  have "map item_id ?new = [fresh s ..< fresh s + length ?fs]" by (rule map_item_id_new_items) simp
  moreover have "\<forall>it \<in> set ?new. status it = Queued \<and> result it = None" using new_items_props by blast
  moreover have "fst (addFiles files s) = s\<lparr>page_error := (if length ?fs \<noteq> length files then Some (''upload.unsupported'', []) else None),
       items := items s @ ?new, previewUrls := previewUrls s @ (if can_preview s then [fresh s ..< fresh s + length ?fs] else []),
       fresh := fresh s + length ?fs\<rparr>"
    using assms unfolding addFiles_def Let_def by (simp only: if_False fst_conv)
  ultimately show thesis by (intro that [of _ ?new]) (simp_all only:)
qed

lemma addFiles_inv: "upload_inv s \<Longrightarrow> upload_inv (fst (addFiles files s))"
proof (cases "maxBatch s < length (unfinished (items s)) + length (filter isSupportedImageFile files)")
  case True
  then show "upload_inv s \<Longrightarrow> ?thesis"
    by (auto simp: addFiles_def upload_wf_def page_ok_def task_ok_def rows_ok_def with_status_def split: option.splits)
next
  case False
  assume inv: "upload_inv s"
  obtain err new urls where eq: "fst (addFiles files s) = s\<lparr>page_error := err, items := items s @ new,
       previewUrls := previewUrls s @ urls, fresh := fresh s + length (filter isSupportedImageFile files)\<rparr>"
    and new: "map item_id new = [fresh s ..< fresh s + length (filter isSupportedImageFile files)]"
      "\<forall>it \<in> set new. status it = Queued \<and> result it = None"
    using addFiles_accept [OF False] by metis
  have nid: "fresh s \<le> item_id it \<and> item_id it < fresh s + length (filter isSupportedImageFile files)"
    if "it \<in> set new" for it
    using that new(1) by (metis atLeastLessThan_iff image_eqI list.set_map set_upt)
  have ws: "with_status q (s\<lparr>page_error := err, items := items s @ new, previewUrls := u, fresh := n\<rparr>) = with_status q s"
    if "q \<noteq> Queued" for q u n
    using new(2) that by (auto simp: with_status_iff)
  have page: "page_ok (fst (addFiles files s))"
    using inv new nid unfolding eq by (fastforce simp: upload_wf_def page_ok_def ids_def)
  have "ids (items s) \<subseteq> ids (items (fst (addFiles files s)))" by (auto simp: eq ids_def)
  then show ?thesis
    using inv page ws unfolding eq
    by (auto simp: upload_wf_def task_ok_def rows_ok_def split: option.splits)
qed

lemma clearQueue_inv: "upload_inv s \<Longrightarrow> upload_inv (fst (clearQueue s))"
proof (cases "uploading s \<or> items s = []")
  case False
  assume inv: "upload_inv s"
  then have "task s = None" "runs s = []" using idle_no_task False by auto
  then show ?thesis
    using inv False
    by (simp add: clearQueue_def upload_wf_def page_ok_def task_ok_def rows_ok_def with_status_def ids_def)
qed (auto simp: clearQueue_def)

lemma deactivate_inv:
  assumes "upload_inv s"
  shows "upload_inv (s\<lparr>active := False, controllers := []\<rparr>)"
    "upload_inv (s\<lparr>active := False, controllers := [], previewUrls := u\<rparr>)"
  using assms by (auto simp: upload_wf_def page_ok_def task_ok_def rows_ok_def split: option.splits)

lemma upload_inv_frame:
  assumes "upload_inv s" "items s' = items s" "runs s' = runs s" "task s' = task s" "active s' = active s"
    "controllers s' = controllers s" "uploading s' = uploading s" "fresh s' = fresh s"
  shows "upload_inv s'"
  using assms by (auto simp: upload_wf_def page_ok_def task_ok_def rows_ok_def with_status_def split: option.splits)

lemma find_item_SomeD: "find_item i s = Some it \<Longrightarrow> it \<in> set (items s) \<and> item_id it = i"
  by (auto simp: find_item_def find_Some_iff)

lemma upload_handle_inv: "upload_inv s \<Longrightarrow> upload_inv (fst (upload_handle s e))"
proof (cases e)
  case (Retry_Item i)
  then show "upload_inv s \<Longrightarrow> ?thesis"
    by (auto split: option.splits dest: find_item_SomeD intro: retry_inv)
next
  case (Drop_Files fs)
  have "upload_inv s \<Longrightarrow> upload_inv (s\<lparr>dragActive := False\<rparr>)" by (erule upload_inv_frame) simp_all
  then show "upload_inv s \<Longrightarrow> ?thesis" using Drop_Files by (simp add: addFiles_inv)
qed (auto simp: addFiles_inv submit_inv run_settled_inv invalidated_inv clearQueue_inv leaveUpload_def stop_def
    deactivate_inv updateItem_progress_inv split: option.splits elim!: upload_inv_frame)

lemma retain_previews_inv: "upload_inv s \<Longrightarrow> upload_inv (fst (retain_previews s))"
  by (erule upload_inv_frame) (simp_all add: retain_previews_def)

lemma fst_upload_step:
  "fst (upload_step s e) =
     (let s1 = fst (upload_handle s e) in if items s1 = items s then s1 else fst (retain_previews s1))"
  by (simp add: upload_step_def Let_def case_prod_unfold)

lemma upload_step_inv: "upload_inv s \<Longrightarrow> upload_inv (fst (upload_step s e))"
  using upload_handle_inv [of s e] retain_previews_inv by (simp add: fst_upload_step Let_def)

lemma upload_init_inv: "upload_inv (upload_init w p)"
  by (simp add: upload_init_def upload_wf_def page_ok_def task_ok_def rows_ok_def with_status_def ids_def)

interpretation upload: reactive upload_step upload_inv
  by unfold_locales (rule upload_step_inv)

end
