(* ===== verification/Upload_Correct.thy ===== *)
theory Upload_Correct
  imports Upload_Invariant
begin

text \<open>
  What the upload page promises: which uploads a batch starts and in which order, how many run at a
  time, what the closing message says, that a lost session stops everything, that object URLs do not
  leak, and that a task ends once its requests have settled.
\<close>

section \<open>Which uploads are started\<close>

fun start_id :: "upload_effect \<Rightarrow> nat option" where
  "start_id (Start_Upload c i f v) = Some i"
| "start_id _ = None"

definition start_ids :: "upload_effect list \<Rightarrow> nat list" where
  "start_ids outs = List.map_filter start_id outs"

lemma start_ids_simps [simp]:
  "start_ids [] = []" "start_ids (Start_Upload c i f v # outs) = i # start_ids outs"
  "start_ids (a @ b) = start_ids a @ start_ids b" "start_ids (Page x # outs) = start_ids outs"
  "start_ids (Proceed # outs) = start_ids outs" "start_ids (map Abort cs) = []"
  "start_ids (map Revoke_Url us) = []" "start_ids (map Create_Url us) = []"
  "start_ids (Abort c # outs) = start_ids outs"
  by (simp_all add: start_ids_def List.map_filter_def)

lemma store_visibility_simps [simp]:
  "start_ids (store_visibility v # outs) = start_ids outs"
  "store_visibility v \<noteq> Create_Url u" "store_visibility v \<noteq> Revoke_Url u"
  "Create_Url u \<noteq> store_visibility v" "Revoke_Url u \<noteq> store_visibility v"
  by (simp_all add: store_visibility_def)

text \<open>A task that went on from \<open>t\<close> to \<open>t'\<close>, the rows started on the way being the next in line.\<close>

definition advance :: "upload_task \<Rightarrow> upload_task \<Rightarrow> upload_effect list \<Rightarrow> bool" where
  "advance t t' outs \<longleftrightarrow>
     queue t' = queue t \<and> kind t' = kind t \<and> concurrency t' = concurrency t \<and>
     nextIndex t \<le> nextIndex t' \<and> nextIndex t' \<le> max (nextIndex t) (length (queue t)) \<and>
     start_ids outs = map item_id (take (nextIndex t' - nextIndex t) (drop (nextIndex t) (queue t)))"

lemma advance_refl: "queue t' = queue t \<Longrightarrow> kind t' = kind t \<Longrightarrow> concurrency t' = concurrency t \<Longrightarrow>
    nextIndex t' = nextIndex t \<Longrightarrow> start_ids outs = [] \<Longrightarrow> advance t t' outs"
  by (simp add: advance_def)

lemma advance_trans:
  assumes "advance t t' a" "advance t' t'' b"
  shows "advance t t'' (a @ b)"
proof -
  have n: "nextIndex t \<le> nextIndex t'" "nextIndex t' \<le> nextIndex t''" using assms by (auto simp: advance_def)
  then have "take (nextIndex t'' - nextIndex t) (drop (nextIndex t) (queue t)) =
      take (nextIndex t' - nextIndex t) (drop (nextIndex t) (queue t)) @
      take (nextIndex t'' - nextIndex t') (drop (nextIndex t') (queue t))"
    using take_add [of "nextIndex t' - nextIndex t" "nextIndex t'' - nextIndex t'" "drop (nextIndex t) (queue t)"]
    by (simp add: add.commute)
  then show ?thesis using assms n by (auto simp: advance_def)
qed

lemma worker_step_advance:
  assumes "task s = Some t"
  shows "\<exists>t'. task (fst (worker_step s)) = Some t' \<and> advance t t' (snd (worker_step s))"
  using assms
  by (auto simp: worker_step_def uploadOne_start_def Let_def advance_def Cons_nth_drop_Suc [symmetric]
      take_Suc_conv_app_nth simp del: drop_Suc)

lemma start_workers_advance:
  assumes "task s = Some t"
  shows "\<exists>t'. task (fst (start_workers n s)) = Some t' \<and> advance t t' (snd (start_workers n s))"
  using assms
proof (induction n arbitrary: s t)
  case 0
  then show ?case by (auto intro: advance_refl)
next
  case (Suc n)
  obtain t1 where t1: "task (fst (worker_step s)) = Some t1" "advance t t1 (snd (worker_step s))"
    using worker_step_advance [OF Suc.prems] by blast
  obtain t2 where "task (fst (start_workers n (fst (worker_step s)))) = Some t2"
    "advance t1 t2 (snd (start_workers n (fst (worker_step s))))"
    using Suc.IH [OF t1(1)] by blast
  then show ?case using t1 by (auto simp: case_prod_unfold Let_def intro: advance_trans)
qed

lemma uploadOne_settle_no_start: "start_ids (snd (fst (uploadOne_settle c i r s))) = []"
  by (auto simp: uploadOne_settle_def Let_def split: sum.splits js_error.splits)

lemma task_uploadOne_settle: "task (fst (fst (uploadOne_settle c i r s))) = task s"
  by (auto simp: uploadOne_settle_def Let_def split: sum.splits js_error.splits)

lemma snd_run_settled:
  "map_of (runs s) c = Some i \<Longrightarrow>
   snd (run_settled c r s) = snd (fst (uploadOne_settle c i r s)) @ snd (worker_step (after_settle c i r s))"
  by (simp add: run_settled_def after_settle_def Let_def case_prod_unfold)

lemma task_after_settle:
  assumes "task s = Some t"
  shows "\<exists>t'. task (after_settle c i r s) = Some t' \<and> queue t' = queue t \<and> kind t' = kind t \<and>
    concurrency t' = concurrency t \<and> nextIndex t' = nextIndex t \<and> workers t' = workers t \<and> phase t' = phase t"
  using assms task_uploadOne_settle [of c i r s] by (auto simp: after_settle_def case_prod_unfold Let_def)

lemma run_settled_advance:
  assumes "task s = Some t"
  shows "\<exists>t'. task (fst (run_settled c r s)) = Some t' \<and> advance t t' (snd (run_settled c r s))"
proof (cases "map_of (runs s) c")
  case None
  then show ?thesis using assms by (auto simp: run_settled_def intro: advance_refl)
next
  case (Some i)
  obtain t1 where t1: "task (after_settle c i r s) = Some t1" "queue t1 = queue t" "kind t1 = kind t"
    "concurrency t1 = concurrency t" "nextIndex t1 = nextIndex t"
    using task_after_settle [OF assms] by blast
  obtain t2 where "task (fst (worker_step (after_settle c i r s))) = Some t2"
    "advance t1 t2 (snd (worker_step (after_settle c i r s)))"
    using worker_step_advance [OF t1(1)] by blast
  then show ?thesis
    using t1 by (auto simp: run_settled_after [OF Some] snd_run_settled [OF Some] advance_def uploadOne_settle_no_start)
qed

lemma snd_upload_step:
  "start_ids (snd (upload_step s e)) = start_ids (snd (upload_handle s e))"
  "task (fst (upload_step s e)) = task (fst (upload_handle s e))"
  "active (fst (upload_step s e)) = active (fst (upload_handle s e))"
  "runs (fst (upload_step s e)) = runs (fst (upload_handle s e))"
  "uploading (fst (upload_step s e)) = uploading (fst (upload_handle s e))"
  "items (fst (upload_step s e)) = items (fst (upload_handle s e))"
  "system (fst (upload_step s e)) = system (fst (upload_handle s e))"
  by (auto simp: upload_step_def retain_previews_def Let_def case_prod_unfold)

lemma addFiles_frame [simp]:
  "task (fst (addFiles fs s)) = task s" "start_ids (snd (addFiles fs s)) = []"
  "active (fst (addFiles fs s)) = active s" "runs (fst (addFiles fs s)) = runs s"
  "system (fst (addFiles fs s)) = system s" "uploading (fst (addFiles fs s)) = uploading s"
  by (simp_all add: addFiles_def Let_def)

text \<open>The events that begin a task.\<close>

definition begins_task :: "upload_event \<Rightarrow> bool" where
  "begins_task e \<longleftrightarrow> e = Submit \<or> (\<exists>i. e = Retry_Item i)"

lemma step_advance:
  assumes inv: "upload_inv s" and t: "task s = Some t" and e: "\<not> begins_task e"
  shows "(\<exists>t'. task (fst (upload_step s e)) = Some t' \<and> advance t t' (snd (upload_step s e))) \<or>
    (task (fst (upload_step s e)) = None \<and> start_ids (snd (upload_step s e)) = [] \<and>
     (active (fst (upload_step s e)) \<longrightarrow> nextIndex t = length (queue t)))"
proof (cases e)
  case (Run_Settled c r)
  then show ?thesis using run_settled_advance [OF t] by (auto simp: snd_upload_step advance_def)
next
  case Invalidated
  then show ?thesis
    using inv t by (auto simp: snd_upload_step invalidated_def advance_def upload_wf_def task_ok_def finish_toast_def
        split: task_phase.splits task_kind.splits)
qed (use t e in \<open>auto simp: snd_upload_step advance_def begins_task_def clearQueue_def leaveUpload_def stop_def
    split: option.splits\<close>)

lemma idle_step:
  assumes inv: "upload_inv s" and t: "task s = None" and e: "\<not> begins_task e"
  shows "task (fst (upload_step s e)) = None \<and> start_ids (snd (upload_step s e)) = []"
proof -
  have "runs s = []" using inv t by (simp add: upload_wf_def task_ok_def)
  then show ?thesis
    using t e by (cases e) (auto simp: snd_upload_step begins_task_def run_settled_def invalidated_def clearQueue_def
        leaveUpload_def stop_def split: option.splits)
qed

lemma idle_run:
  assumes "upload_inv s" "task s = None" "\<forall>e \<in> set es. \<not> begins_task e"
  shows "task (fst (run_steps upload_step s es)) = None \<and> start_ids (snd (run_steps upload_step s es)) = []"
  using assms by (induction es arbitrary: s) (auto simp: idle_step upload_step_inv)

lemma inactive_step: "\<not> active s \<Longrightarrow> \<not> active (fst (upload_step s e)) \<and> start_ids (snd (upload_step s e)) = []"
proof -
  assume off: "\<not> active s"
  have ws: "\<not> active (fst (worker_step u)) \<and> start_ids (snd (worker_step u)) = []" if "\<not> active u" for u
    using that by (auto simp: worker_step_def split: option.splits)
  have as: "\<not> active (after_settle c i r s)" for c i r
    using off by (auto simp: after_settle_cases split: sum.splits)
  show ?thesis
  proof (cases e)
    case (Run_Settled c r)
    then show ?thesis
      using off ws [OF as] by (cases "map_of (runs s) c")
        (simp_all add: snd_upload_step run_settled_after snd_run_settled uploadOne_settle_no_start, simp add: run_settled_def)
  qed (use off in \<open>auto simp: snd_upload_step submit_def retry_def uploadOne_start_def invalidated_def clearQueue_def
      leaveUpload_def stop_def Let_def finish_toast_def split: option.splits task_phase.splits\<close>)
qed

lemma inactive_run:
  "\<not> active s \<Longrightarrow>
   \<not> active (fst (run_steps upload_step s es)) \<and> start_ids (snd (run_steps upload_step s es)) = []"
proof (induction es arbitrary: s)
  case (Cons e es)
  then show ?case using inactive_step [OF Cons.prems, of e] by simp
qed simp

section \<open>Whole runs\<close>

abbreviation upload_run :: "upload_page \<Rightarrow> upload_event list \<Rightarrow> upload_page \<times> upload_effect list" where
  "upload_run \<equiv> run_steps upload_step"

lemma upload_reach_inv: "upload_inv (fst (upload_run (upload_init w p) es))"
  by (rule upload.run_inv [OF upload_init_inv])

lemma busy_run:
  assumes "upload_inv s" "task s = Some t" "\<forall>e \<in> set es. \<not> begins_task e"
  shows "(\<exists>m. start_ids (snd (upload_run s es)) = take m (map item_id (drop (nextIndex t) (queue t)))) \<and>
    (task (fst (upload_run s es)) = None \<longrightarrow> active (fst (upload_run s es)) \<longrightarrow>
     start_ids (snd (upload_run s es)) = map item_id (drop (nextIndex t) (queue t)))"
  using assms
proof (induction es arbitrary: s t)
  case Nil
  then show ?case by (auto intro: exI [of _ 0])
next
  case (Cons e es)
  have e: "\<not> begins_task e" "\<forall>e \<in> set es. \<not> begins_task e" using Cons.prems(3) by auto
  have inv': "upload_inv (fst (upload_step s e))" by (rule upload_step_inv [OF Cons.prems(1)])
  from step_advance [OF Cons.prems(1,2) e(1)] show ?case
  proof (elim disjE exE conjE)
    fix t' assume t': "task (fst (upload_step s e)) = Some t'" and a: "advance t t' (snd (upload_step s e))"
    define d where "d = nextIndex t' - nextIndex t"
    have q: "queue t' = queue t" "nextIndex t' = nextIndex t + d"
      "start_ids (snd (upload_step s e)) = map item_id (take d (drop (nextIndex t) (queue t)))"
      using a by (auto simp: advance_def d_def)
    have split: "map item_id (drop (nextIndex t) (queue t)) =
      map item_id (take d (drop (nextIndex t) (queue t))) @ map item_id (drop (nextIndex t') (queue t))"
      using append_take_drop_id [of d "drop (nextIndex t) (queue t)"] q(2)
      by (metis add.commute drop_drop map_append)
    note ih = Cons.IH [OF inv' t' e(2), unfolded q(1)]
    obtain m where m: "start_ids (snd (upload_run (fst (upload_step s e)) es)) =
        take m (map item_id (drop (nextIndex t') (queue t)))"
      using ih by blast
    let ?l = "length (map item_id (take d (drop (nextIndex t) (queue t))))"
    have "start_ids (snd (upload_run s (e # es))) = take (?l + m) (map item_id (drop (nextIndex t) (queue t)))"
      unfolding split using m q by simp
    moreover have "start_ids (snd (upload_run s (e # es))) = map item_id (drop (nextIndex t) (queue t))"
      if "task (fst (upload_run s (e # es))) = None" "active (fst (upload_run s (e # es)))"
      unfolding split run_steps_Cons(2) start_ids_simps(3) q(3) using ih that by simp
    ultimately show ?thesis by blast
  next
    assume none: "task (fst (upload_step s e)) = None" "start_ids (snd (upload_step s e)) = []"
      and fin: "active (fst (upload_step s e)) \<longrightarrow> nextIndex t = length (queue t)"
    have r: "start_ids (snd (upload_run (fst (upload_step s e)) es)) = []"
      using idle_run [OF inv' none(1) e(2)] by simp
    have "\<not> active (fst (upload_run (fst (upload_step s e)) es))" if "\<not> active (fst (upload_step s e))"
      using inactive_run [OF that] by blast
    then show ?thesis using r none fin by (auto intro: exI [of _ 0])
  qed
qed

lemma start_workers_count:
  assumes "task s = Some t" "active s" "nextIndex t + n \<le> length (queue t)"
  shows "start_ids (snd (start_workers n s)) = map item_id (take n (drop (nextIndex t) (queue t)))"
  using assms
proof (induction n arbitrary: s t)
  case (Suc n)
  have lt: "nextIndex t < length (queue t)" using Suc.prems(3) by simp
  have ws: "worker_step s = fst (uploadOne_start (task_visibility t) (queue t ! nextIndex t)
       (s\<lparr>task := Some (t\<lparr>nextIndex := Suc (nextIndex t)\<rparr>)\<rparr>))"
    using Suc.prems lt by (simp add: worker_step_def)
  have st: "task (fst (worker_step s)) = Some (t\<lparr>nextIndex := Suc (nextIndex t)\<rparr>)" "active (fst (worker_step s))"
    "start_ids (snd (worker_step s)) = [item_id (queue t ! nextIndex t)]"
    using Suc.prems(2) by (simp_all add: ws uploadOne_start_def Let_def)
  have "start_ids (snd (start_workers n (fst (worker_step s)))) = map item_id (take n (drop (Suc (nextIndex t)) (queue t)))"
    using Suc.IH [OF st(1,2)] Suc.prems(3) by simp
  then show ?case
    using st(3) lt by (simp add: case_prod_unfold Let_def Cons_nth_drop_Suc [symmetric, of "nextIndex t"])
qed simp

lemma submit_accepted:
  assumes "unfinished (items s) \<noteq> []" "\<not> uploading s" "active s"
  defines "q \<equiv> unfinished (items s)"
  shows "start_ids (snd (upload_step s Submit)) = take (max 1 (min (processing s) (length q))) (map item_id q)"
    "\<exists>t. task (fst (upload_step s Submit)) = Some t \<and> queue t = q \<and>
       nextIndex t = max 1 (min (processing s) (length q))"
proof -
  define n where "n = max 1 (min (processing s) (length q))"
  define t where "t = \<lparr>kind = Batch, queue = q, nextIndex = 0, completed = 0, concurrency = n,
    workers = n, task_visibility = visibility_choice s, phase = Working\<rparr>"
  define s0 where "s0 = s\<lparr>uploading := True, page_error := None, task := Some t\<rparr>"
  have n: "n \<le> length q" using assms(1) by (auto simp: n_def q_def Suc_le_eq)
  have eq: "upload_handle s Submit = start_workers n s0"
    using assms(1,2,3) by (simp add: submit_def Let_def n_def q_def s0_def t_def)
  have t0: "task s0 = Some t" "active s0" using assms(3) by (simp_all add: s0_def)
  have "nextIndex t + n \<le> length (queue t)" using n by (simp add: t_def)
  then have st: "start_ids (snd (start_workers n s0)) = map item_id (take n q)"
    using start_workers_count [OF t0] by (simp add: t_def)
  then show "start_ids (snd (upload_step s Submit)) = take n (map item_id q)"
    by (simp only: snd_upload_step eq take_map)
  obtain t' where t': "task (fst (start_workers n s0)) = Some t'" "advance t t' (snd (start_workers n s0))"
    using start_workers_advance [OF t0(1)] by blast
  have a: "queue t' = q" "nextIndex t' \<le> length q"
    "start_ids (snd (start_workers n s0)) = map item_id (take (nextIndex t') q)"
    using t'(2) by (simp_all add: advance_def t_def)
  have "min n (length q) = min (nextIndex t') (length q)"
    using st a(3) by (metis length_map length_take min.commute)
  then have "nextIndex t' = n" using n a(2) by simp
  then show "\<exists>t. task (fst (upload_step s Submit)) = Some t \<and> queue t = q \<and> nextIndex t = n"
    using t'(1) a(1) by (simp only: snd_upload_step eq) auto
qed

section \<open>Bounds\<close>

text \<open>The workers of a task, its batch, and what the server said about either, below fixed bounds.\<close>

definition bounded_page :: "nat \<Rightarrow> nat \<Rightarrow> upload_page \<Rightarrow> bool" where
  "bounded_page n m s \<longleftrightarrow>
     (case task s of None \<Rightarrow> True | Some t \<Rightarrow> concurrency t \<le> n) \<and>
     processing s \<le> n \<and> maxBatch s \<le> m \<and> length (unfinished (items s)) \<le> m"

definition bounded_event :: "nat \<Rightarrow> nat \<Rightarrow> upload_event \<Rightarrow> bool" where
  "bounded_event n m e \<longleftrightarrow> (case e of System_Loaded i \<Rightarrow> processingConcurrency i \<le> n \<and> maxBatchCount i \<le> m | _ \<Rightarrow> True)"

definition no_new_unfinished :: "upload_page \<Rightarrow> upload_page \<Rightarrow> bool" where
  "no_new_unfinished s s' \<longleftrightarrow> length (unfinished (items s')) \<le> length (unfinished (items s))"

lemma unfinished_length_le:
  "(\<And>it. P it \<Longrightarrow> status it = Complete \<Longrightarrow> status (f it) = Complete) \<Longrightarrow>
   length (unfinished (map (\<lambda>it. if P it then f it else it) its)) \<le> length (unfinished its)"
  unfolding unfinished_def by (induction its) (auto simp: le_SucI)

lemma unfinished_update_le:
  "(\<And>it. it \<in> set its \<Longrightarrow> P it \<Longrightarrow> status it \<noteq> Complete) \<Longrightarrow>
   length (unfinished (map (\<lambda>it. if P it then f it else it) its)) \<le> length (unfinished its)"
proof (induction its)
  case (Cons a its)
  then have "length (unfinished (map (\<lambda>it. if P it then f it else it) its)) \<le> length (unfinished its)"
    "P a \<Longrightarrow> status a \<noteq> Complete" by auto
  then show ?case by (auto simp: unfinished_def)
qed (simp add: unfinished_def)

text \<open>A row is started only while it is not complete: the queue holds unfinished rows.\<close>

lemma unfinished_not_done:
  assumes "i \<notin> with_status Complete s"
  shows "length (unfinished (map (\<lambda>it. if item_id it = i then f it else it) (items s))) \<le> length (unfinished (items s))"
  using assms by (intro unfinished_update_le) (auto simp: with_status_def)

lemma unfinished_updateItem:
  assumes "i \<notin> with_status Complete s"
  shows "length (unfinished (items (updateItem i f s))) \<le> length (unfinished (items s))"
  using unfinished_not_done [OF assms, of f] by (simp add: updateItem_def)

lemma unfinished_worker_step:
  assumes "upload_wf (Suc k) s"
  shows "length (unfinished (items (fst (worker_step s)))) \<le> length (unfinished (items s))"
proof (cases "task s")
  case (Some t)
  have "item_id (queue t ! nextIndex t) \<notin> with_status Complete s" if "active s" "nextIndex t < length (queue t)"
    using assms Some that by (auto simp: upload_wf_def rows_ok_def ids_drop_Suc)
  then show ?thesis
    using Some unfinished_not_done [of "item_id (queue t ! nextIndex t)" s "begin_patch (fresh s)"]
    by (auto simp: worker_step_def uploadOne_start_def Let_def updateItem_def)
qed (simp add: worker_step_def)

lemma unfinished_start_workers:
  "upload_wf n s \<Longrightarrow> length (unfinished (items (fst (start_workers n s)))) \<le> length (unfinished (items s))"
proof (induction n arbitrary: s)
  case (Suc n)
  then show ?case
    using unfinished_worker_step [OF Suc.prems] worker_step_wf [OF Suc.prems] Suc.IH
    by (fastforce simp: case_prod_unfold Let_def intro: order_trans)
qed simp

lemma unfinished_after_settle:
  assumes "upload_inv s" "map_of (runs s) c = Some i"
  shows "length (unfinished (items (after_settle c i r s))) \<le> length (unfinished (items s))"
proof -
  have up: "i \<in> with_status Uploading s" if "active s"
    using assms that map_of_SomeD [OF assms(2)] by (force simp: upload_wf_def rows_ok_def)
  have "length (unfinished (items (updateItem i f s))) \<le> length (unfinished (items s))" for f
  proof (cases "active s")
    case True
    then have "i \<notin> with_status Complete s"
      using up assms(1) with_status_disjoint [of s i Uploading Complete] by (auto simp: upload_wf_def page_ok_def)
    then show ?thesis by (rule unfinished_updateItem)
  qed simp
  then show ?thesis by (auto simp: after_settle_cases split: sum.splits)
qed

lemma unfinished_run_settled:
  assumes "upload_inv s"
  shows "length (unfinished (items (fst (run_settled c r s)))) \<le> length (unfinished (items s))"
proof (cases "map_of (runs s) c")
  case (Some i)
  have "upload_wf (Suc 0) (after_settle c i r s)" using after_settle_wf [OF assms Some] by simp
  then show ?thesis
    using unfinished_worker_step unfinished_after_settle [OF assms Some] run_settled_after [OF Some]
    by (metis order_trans)
qed (simp add: run_settled_def)

lemma concurrency_advance: "advance t t' out \<Longrightarrow> concurrency t' = concurrency t"
  by (simp add: advance_def)

lemma bounded_submit:
  assumes "upload_inv s" "bounded_page n m s" "1 \<le> n"
  shows "bounded_page n m (fst (submit s))"
proof (cases "unfinished (items s) = [] \<or> uploading s \<or> \<not> active s")
  case False
  define k where "k = max 1 (min (processing s) (length (unfinished (items s))))"
  define t where "t = \<lparr>kind = Batch, queue = unfinished (items s), nextIndex = 0, completed = 0, concurrency = k,
    workers = k, task_visibility = visibility_choice s, phase = Working\<rparr>"
  define s0 where "s0 = s\<lparr>uploading := True, page_error := None, task := Some t\<rparr>"
  have eq: "submit s = start_workers k s0" using False by (simp add: submit_def Let_def k_def s0_def t_def)
  have "page_ok s" using assms(1) by (simp add: upload_wf_def)
  note un = unfinished_not_complete [OF this]
  have wf: "upload_wf k s0"
    unfolding s0_def using False un by (intro new_task_wf [OF assms(1)]) (auto simp: t_def k_def)
  obtain t' where t': "task (fst (start_workers k s0)) = Some t'" "concurrency t' = k"
    using start_workers_advance [of s0 t k] by (auto simp: s0_def t_def dest!: concurrency_advance)
  have "k \<le> n" using assms(2,3) by (auto simp: bounded_page_def k_def)
  moreover have "length (unfinished (items (fst (start_workers k s0)))) \<le> m"
    using unfinished_start_workers [OF wf] assms(2) by (simp add: s0_def bounded_page_def)
  moreover have "system (fst (start_workers k s0)) = system s0" for k s0
    by (induction k arbitrary: s0) (auto simp: case_prod_unfold Let_def worker_step_def uploadOne_start_def split: option.splits)
  then have "processing (fst (start_workers k s0)) = processing s" "maxBatch (fst (start_workers k s0)) = maxBatch s"
    by (simp_all add: processing_def maxBatch_def s0_def)
  ultimately show ?thesis using assms(2) t' by (simp add: eq bounded_page_def)
qed (use assms in \<open>auto simp: submit_def\<close>)

lemma system_worker_step [simp]: "system (fst (worker_step s)) = system s"
  by (auto simp: worker_step_def uploadOne_start_def Let_def split: option.splits)

lemma system_after_settle [simp]: "system (after_settle c i r s) = system s"
  by (auto simp: after_settle_cases drop_run_def split: sum.splits)

lemma bounded_retry:
  assumes "upload_inv s" "bounded_page n m s" "1 \<le> n" "it \<in> set (items s)" "status it \<noteq> Complete"
  shows "bounded_page n m (fst (retry it s))"
proof (cases "uploading s \<or> \<not> active s")
  case True
  then show ?thesis using assms by (auto simp: retry_def bounded_page_def uploadOne_start_def processing_def maxBatch_def)
next
  case False
  have "item_id it \<notin> with_status Complete s"
    using assms by (auto simp: with_status_iff upload_wf_def page_ok_def distinct_map dest: inj_onD)
  then show ?thesis
    using False assms(2,3) unfinished_not_done [of "item_id it" s "begin_patch (fresh s)"]
    by (auto simp: retry_worker_step worker_step_def uploadOne_start_def Let_def bounded_page_def processing_def
        maxBatch_def updateItem_def)
qed

lemma bounded_run_settled:
  assumes "upload_inv s" "bounded_page n m s"
  shows "bounded_page n m (fst (run_settled c r s))"
proof -
  have sys: "system (fst (run_settled c r s)) = system s"
    by (cases "map_of (runs s) c") (simp_all add: run_settled_after, simp add: run_settled_def)
  have un: "length (unfinished (items (fst (run_settled c r s)))) \<le> length (unfinished (items s))"
    by (rule unfinished_run_settled [OF assms(1)])
  show ?thesis
  proof (cases "task s")
    case None
    then have "runs s = []" using assms(1) by (simp add: upload_wf_def task_ok_def)
    then show ?thesis using assms(2) by (simp add: run_settled_def)
  next
    case (Some t)
    then obtain t' where "task (fst (run_settled c r s)) = Some t'" "concurrency t' = concurrency t"
      using run_settled_advance [OF Some] by (auto dest!: concurrency_advance)
    then show ?thesis using assms(2) sys un Some by (auto simp: bounded_page_def processing_def maxBatch_def)
  qed
qed

lemma bounded_frame:
  assumes "bounded_page n m s" "task s' = task s" "system s' = system s" "items s' = items s"
  shows "bounded_page n m s'"
  using assms by (simp add: bounded_page_def processing_def maxBatch_def)

lemma bounded_addFiles: "bounded_page n m s \<Longrightarrow> bounded_page n m (fst (addFiles fs s))"
proof (cases "maxBatch s < length (unfinished (items s)) + length (filter isSupportedImageFile fs)")
  case True
  then show "bounded_page n m s \<Longrightarrow> ?thesis" by (auto simp: addFiles_def elim: bounded_frame)
next
  case False
  assume b: "bounded_page n m s"
  let ?fs = "filter isSupportedImageFile fs"
  have "length (unfinished (map2 (new_item s) [fresh s ..< fresh s + length ?fs] ?fs)) \<le> length ?fs"
    unfolding unfinished_def by (rule order_trans [OF length_filter_le]) simp
  moreover have "unfinished (items (fst (addFiles fs s))) =
      unfinished (items s) @ unfinished (map2 (new_item s) [fresh s ..< fresh s + length ?fs] ?fs)"
    unfolding addFiles_def Let_def using False by (simp only: if_False fst_conv unfinished_def) simp
  ultimately have "length (unfinished (items (fst (addFiles fs s)))) \<le> maxBatch s"
    using False by simp
  then show ?thesis using b by (simp add: bounded_page_def processing_def maxBatch_def)
qed

lemma bounded_handle:
  assumes "upload_inv s" "bounded_page n m s" "1 \<le> n" "bounded_event n m e"
  shows "bounded_page n m (fst (upload_handle s e))"
proof (cases e)
  case (Retry_Item i)
  then show ?thesis using assms by (auto split: option.splits dest!: find_item_SomeD intro: bounded_retry)
next
  case (Drop_Files fs)
  have "bounded_page n m (s\<lparr>dragActive := False\<rparr>)" using assms(2) by (rule bounded_frame) simp_all
  then show ?thesis using Drop_Files by (simp add: bounded_addFiles)
next
  case (Run_Progress c p)
  have "length (unfinished (items (updateItem i (\<lambda>it. it\<lparr>progress := p\<rparr>) s))) \<le> length (unfinished (items s))" for i
    by (auto simp: updateItem_def intro!: unfinished_length_le)
  then show ?thesis
    using Run_Progress assms(2)
    by (fastforce simp: bounded_page_def processing_def maxBatch_def split: option.splits intro: order_trans)
next
  case Invalidated
  then show ?thesis
    using assms(2) by (auto simp: invalidated_def bounded_page_def processing_def maxBatch_def split: option.splits task_phase.splits)
next
  case (System_Loaded i)
  then show ?thesis
    using assms(2,4) by (auto simp: bounded_page_def bounded_event_def processing_def maxBatch_def)
next
  case (Cancel_Item i)
  then show ?thesis using assms(2) by (auto split: option.splits)
next
  case (Drag_Leave i)
  then show ?thesis using assms(2) by (auto intro: bounded_frame)
next
  case Clear_Queue
  then show ?thesis
    using assms(2) by (auto simp: clearQueue_def bounded_page_def processing_def maxBatch_def unfinished_def)
next
  case (Paste_Files fs)
  then show ?thesis using assms(2) by (simp add: bounded_addFiles)
next
  case (Set_Visibility v)
  show ?thesis by (rule bounded_frame [OF assms(2)]) (simp_all add: Set_Visibility)
next
  case Drag_Over
  show ?thesis by (rule bounded_frame [OF assms(2)]) (simp_all add: Drag_Over)
next
  case (Leave b)
  show ?thesis by (rule bounded_frame [OF assms(2)]) (simp_all add: Leave leaveUpload_def)
next
  case Unmount
  show ?thesis by (rule bounded_frame [OF assms(2)]) (simp_all add: Unmount stop_def)
qed (use assms in \<open>simp_all add: bounded_submit bounded_run_settled bounded_addFiles\<close>)

lemma bounded_step:
  "upload_inv s \<Longrightarrow> bounded_page n m s \<Longrightarrow> 1 \<le> n \<Longrightarrow> bounded_event n m e \<Longrightarrow>
   bounded_page n m (fst (upload_step s e))"
  by (rule bounded_frame [OF bounded_handle]) (simp_all add: snd_upload_step)

lemma bounded_run:
  "upload_inv s \<Longrightarrow> bounded_page n m s \<Longrightarrow> 1 \<le> n \<Longrightarrow> \<forall>e \<in> set es. bounded_event n m e \<Longrightarrow>
   bounded_page n m (fst (upload_run s es))"
  by (induction es arbitrary: s) (simp_all add: bounded_step upload_step_inv)

lemma runs_le_concurrency:
  "upload_inv s \<Longrightarrow> bounded_page n m s \<Longrightarrow> length (runs s) \<le> n"
  by (cases "task s") (auto simp: upload_wf_def task_ok_def bounded_page_def split: if_splits)

text \<open>
  C2: However the events come, the page never has more uploads in flight than the largest
  \<open>processingConcurrency\<close> the server ever reported (one before it reports any), and never more
  unfinished rows than the largest \<open>maxBatchCount\<close> (twenty before).
\<close>

theorem upload_bounds:
  fixes w p es
  defines "s \<equiv> fst (run_steps upload_step (upload_init w p) es)"
  assumes "\<forall>e \<in> set es. bounded_event n m e" "1 \<le> n" "20 \<le> m"
  shows "length (runs s) \<le> n \<and> length (unfinished (items s)) \<le> m"
proof -
  have "bounded_page n m (upload_init w p)"
    using assms(3,4) by (simp add: bounded_page_def upload_init_def processing_def maxBatch_def unfinished_def)
  then have "bounded_page n m s"
    unfolding s_def by (rule bounded_run [OF upload_init_inv _ assms(3,2)])
  then show ?thesis
    using runs_le_concurrency upload_reach_inv unfolding s_def by (auto simp: bounded_page_def)
qed

definition sample_file :: upload_file where
  "sample_file = \<lparr>file_name = ''a.png'', file_size = 10, file_type = ''image/png''\<rparr>"

definition sample_system :: system_info where
  "sample_system = \<lparr>processingConcurrency = 2, deliveryConcurrency = 4, maxBatchCount = 30, maxUploadBytes = 100,
     maxTotalPixels = 100, supportedFormats = [], vipsVersion = ''8''\<rparr>"

lemma sample_supported [simp]: "isSupportedImageFile sample_file"
  by (simp add: isSupportedImageFile_def sample_file_def)

lemma upload_bounds_witness:
  "length (runs (fst (upload_run (upload_init None True) [System_Loaded sample_system, Add_Files [sample_file], Submit]))) \<le> 2 \<and>
   length (unfinished (items (fst (upload_run (upload_init None True) [System_Loaded sample_system, Add_Files [sample_file], Submit])))) \<le> 30"
  by (rule upload_bounds) (simp_all add: bounded_event_def sample_system_def)


section \<open>The closing message\<close>

definition retry_single :: "upload_page \<Rightarrow> bool" where
  "retry_single s \<longleftrightarrow> (case task s of None \<Rightarrow> True | Some t \<Rightarrow> kind t = Retry \<longrightarrow> length (queue t) = 1)"

lemma retry_single_advance: "task s' = Some t' \<Longrightarrow> advance t t' out \<Longrightarrow> (kind t = Retry \<longrightarrow> length (queue t) = 1) \<Longrightarrow> retry_single s'"
  by (simp add: retry_single_def advance_def)

lemma retry_single_submit: "retry_single s \<Longrightarrow> retry_single (fst (submit s))"
proof (cases "unfinished (items s) = [] \<or> uploading s \<or> \<not> active s")
  case False
  define k where "k = max 1 (min (processing s) (length (unfinished (items s))))"
  define t where "t = \<lparr>kind = Batch, queue = unfinished (items s), nextIndex = 0, completed = 0, concurrency = k,
    workers = k, task_visibility = visibility_choice s, phase = Working\<rparr>"
  have "submit s = start_workers k (s\<lparr>uploading := True, page_error := None, task := Some t\<rparr>)"
    using False by (simp add: submit_def Let_def k_def t_def)
  moreover obtain t' where "task (fst (start_workers k (s\<lparr>uploading := True, page_error := None, task := Some t\<rparr>))) = Some t'"
    "kind t' = Batch"
    using start_workers_advance [of "s\<lparr>uploading := True, page_error := None, task := Some t\<rparr>" t k]
    by (auto simp: advance_def t_def)
  ultimately show ?thesis by (simp add: retry_single_def)
qed (auto simp: submit_def)

lemma retry_single_step:
  assumes "upload_inv s" "retry_single s"
  shows "retry_single (fst (upload_step s e))"
proof (cases "begins_task e")
  case True
  have "retry_single (fst (submit s))" by (rule retry_single_submit [OF assms(2)])
  moreover have "retry_single (fst (retry it s))" for it
    using assms(2) by (auto simp: retry_def retry_single_def uploadOne_start_def Let_def)
  ultimately have "retry_single (fst (upload_handle s e))"
    using True assms(2) by (auto simp: begins_task_def simp del: One_nat_def split: option.splits)
  then show ?thesis by (simp add: retry_single_def snd_upload_step)
next
  case False
  show ?thesis
  proof (cases "task s")
    case None
    then show ?thesis using idle_step [OF assms(1) None False] by (simp add: retry_single_def)
  next
    case (Some t)
    then show ?thesis
      using step_advance [OF assms(1) Some False] assms(2) by (auto simp: retry_single_def advance_def)
  qed
qed

interpretation upload_kinds: reactive upload_step "\<lambda>s. upload_inv s \<and> retry_single s"
  by unfold_locales (simp add: upload_step_inv retry_single_step)

text \<open>
  C6: The message at the end of a batch or of a retry tells the truth: it reports success exactly
  when every row of the task is complete, and otherwise counts the complete and the other rows.
\<close>

theorem upload_toast_truth:
  fixes w p es
  defines "s \<equiv> fst (run_steps upload_step (upload_init w p) es)"
  assumes "task s = Some t" "phase t = Invalidating_Overview" "active s"
  defines "c \<equiv> card (ids (queue t) \<inter> with_status Complete s)"
  shows "snd (upload_step s Invalidated) =
    [Page (if ids (queue t) \<subseteq> with_status Complete s
           then plain_toast Toast_Success ''toast.uploadComplete'' [length (queue t)]
           else if kind t = Batch then plain_toast Toast_Warning ''toast.uploadPartial'' [c, length (queue t) - c]
           else plain_toast Toast_Error ''toast.uploadFailed'' [])]"
proof -
  have inv: "upload_inv s" unfolding s_def by (rule upload_reach_inv)
  then have t: "nextIndex t = length (queue t)" "completed t = c" "distinct (map item_id (queue t))"
    using assms(2,3,4) by (auto simp: upload_wf_def task_ok_def rows_ok_def started_ids_def c_def)
  have n: "card (ids (queue t)) = length (queue t)"
    using t(3) distinct_card [of "map item_id (queue t)"] by (simp add: ids_def)
  have all: "ids (queue t) \<subseteq> with_status Complete s \<longleftrightarrow> c = length (queue t)"
  proof
    assume "c = length (queue t)"
    then have "ids (queue t) \<inter> with_status Complete s = ids (queue t)"
      using n by (intro card_subset_eq) (auto simp: c_def ids_def)
    then show "ids (queue t) \<subseteq> with_status Complete s" by blast
  qed (simp add: c_def n Int_absorb2)
  have "retry_single s"
    using upload_kinds.run_inv [of "upload_init w p" es] upload_init_inv
    by (simp add: s_def retry_single_def upload_init_def)
  then have q1: "kind t = Retry \<Longrightarrow> length (queue t) = 1" using assms(2) by (simp add: retry_single_def)
  show ?thesis
    using assms(2,3,4) t(2) all q1
    by (auto simp: upload_step_def invalidated_def finish_toast_def Let_def split: task_kind.splits)
qed

section \<open>A lost session\<close>

fun aborted :: "upload_effect list \<Rightarrow> nat set" where
  "aborted [] = {}"
| "aborted (Abort c # outs) = insert c (aborted outs)"
| "aborted (x # outs) = aborted outs"

lemma aborted_append [simp]: "aborted (a @ b) = aborted a \<union> aborted b"
  by (induction a rule: aborted.induct) auto

lemma aborted_map [simp]: "aborted (map Abort cs) = set cs" "aborted (map Revoke_Url us) = {}"
  by (induction cs) (simp_all, induction us, simp_all)

text \<open>
  C3: A response 401 to any upload of the page aborts every upload in flight and switches the page
  off: whatever happens afterwards, no further upload starts and the page stays off.
\<close>

theorem upload_session_lost:
  fixes w p es0 m d
  defines "s \<equiv> fst (run_steps upload_step (upload_init w p) es0)"
  assumes "active s" "c \<in> fst ` set (runs s)"
  defines "s' \<equiv> upload_step s (Run_Settled c (Inl (ApiError 401 m d)))"
  shows "aborted (snd s') = fst ` set (runs s) \<and>
    start_ids (snd s') = [] \<and> start_ids (snd (run_steps upload_step (fst s') es)) = [] \<and>
    \<not> active (fst (run_steps upload_step (fst s') es))"
proof -
  have inv: "upload_inv s" unfolding s_def by (rule upload_reach_inv)
  obtain i where i: "map_of (runs s) c = Some i" using assms(3) by (metis weak_map_of_SomeI fst_conv imageE prod.collapse)
  let ?a = "after_settle c i (Inl (ApiError 401 m d)) s"
  have off: "\<not> active ?a" by (simp add: after_settle_cases)
  have items: "items (fst (run_settled c (Inl (ApiError 401 m d)) s)) = items s"
    unfolding run_settled_after [OF i]
    by (auto simp: worker_step_def after_settle_cases off split: option.splits)
  have out: "snd (run_settled c (Inl (ApiError 401 m d)) s) = map Abort (controllers s) @ snd (worker_step ?a)"
    unfolding snd_run_settled [OF i] by (simp add: uploadOne_settle_def Let_def)
  have eq: "s' = run_settled c (Inl (ApiError 401 m d)) s"
    using items by (simp add: s'_def upload_step_def case_prod_unfold Let_def)
  have ws: "aborted (snd (worker_step ?a)) = {}" "start_ids (snd (worker_step ?a)) = []" "\<not> active (fst (worker_step ?a))"
    using off by (auto simp: worker_step_def split: option.splits)
  have "set (controllers s) = fst ` set (runs s)" using inv assms(2) by (simp add: upload_wf_def page_ok_def)
  moreover have "\<not> active (fst s')" using ws by (simp add: eq run_settled_after [OF i])
  ultimately show ?thesis using out ws inactive_run [of "fst s'" es] by (simp add: eq)
qed

section \<open>Object URLs\<close>

text \<open>The object URLs alive after a sequence of effects.\<close>

fun live_urls :: "nat set \<Rightarrow> upload_effect list \<Rightarrow> nat set" where
  "live_urls us [] = us"
| "live_urls us (Create_Url u # outs) = live_urls (insert u us) outs"
| "live_urls us (Revoke_Url u # outs) = live_urls (us - {u}) outs"
| "live_urls us (x # outs) = live_urls us outs"

lemma live_urls_append [simp]: "live_urls us (a @ b) = live_urls (live_urls us a) b"
  by (induction us a rule: live_urls.induct) auto

lemma live_urls_map [simp]:
  "live_urls us (map Create_Url vs) = us \<union> set vs" "live_urls us (map Revoke_Url vs) = us - set vs"
  "live_urls us (map Abort vs) = us"
  by (induction vs arbitrary: us) auto

lemma live_urls_neutral:
  "(\<And>x u. x \<in> set outs \<Longrightarrow> x \<noteq> Create_Url u \<and> x \<noteq> Revoke_Url u) \<Longrightarrow> live_urls us outs = us"
  by (induction us outs rule: live_urls.induct) auto

definition urls_ok :: "upload_page \<Rightarrow> bool" where
  "urls_ok s \<longleftrightarrow> set (previewUrls s) = set (retained_urls (items s))"

lemma set_retained_urls: "u \<in> set (retained_urls its) \<longleftrightarrow> (\<exists>it \<in> set its. previewUrl it = Object_Url u)"
  by (induction its) (auto simp: retained_urls_def List.map_filter_def split: preview_url.splits)

text \<open>What a handler does to the rows' previews: new ones are created, patches only drop some.\<close>

definition url_frame :: "upload_page \<Rightarrow> upload_page \<Rightarrow> upload_effect list \<Rightarrow> bool" where
  "url_frame s s' outs \<longleftrightarrow>
     previewUrls s' = previewUrls s \<and> set (retained_urls (items s')) \<subseteq> set (retained_urls (items s)) \<and>
     live_urls (set (previewUrls s)) outs = set (previewUrls s)"

lemma retained_updateItem:
  assumes "\<And>it u. previewUrl (f it) = Object_Url u \<Longrightarrow> previewUrl it = Object_Url u"
  shows "set (retained_urls (items (updateItem i f s))) \<subseteq> set (retained_urls (items s))"
proof
  fix u assume "u \<in> set (retained_urls (items (updateItem i f s)))"
  then obtain it where it: "it \<in> set (items (updateItem i f s))" "previewUrl it = Object_Url u"
    by (auto simp: set_retained_urls)
  then have "\<exists>it \<in> set (items s). previewUrl it = Object_Url u"
    using set_items_updateItem [OF it(1)] assms by blast
  then show "u \<in> set (retained_urls (items s))" by (simp add: set_retained_urls)
qed

lemma url_frame_update:
  assumes "\<And>it u. previewUrl (f it) = Object_Url u \<Longrightarrow> previewUrl it = Object_Url u"
    "items s' = items (updateItem i f s)" "previewUrls s' = previewUrls s"
    "\<And>x u. x \<in> set outs \<Longrightarrow> x \<noteq> Create_Url u \<and> x \<noteq> Revoke_Url u"
  shows "url_frame s s' outs"
proof -
  have "set (retained_urls (items (updateItem i f s))) \<subseteq> set (retained_urls (items s))"
    by (rule retained_updateItem) (rule assms(1))
  moreover have "live_urls us outs = us" for us by (rule live_urls_neutral) (rule assms(4))
  ultimately show ?thesis by (simp only: url_frame_def assms(2,3) simp_thms)
qed

lemma url_frame_same: "items s' = items s \<Longrightarrow> previewUrls s' = previewUrls s \<Longrightarrow>
    (\<And>x u. x \<in> set outs \<Longrightarrow> x \<noteq> Create_Url u \<and> x \<noteq> Revoke_Url u) \<Longrightarrow> url_frame s s' outs"
  by (simp add: url_frame_def live_urls_neutral)

lemma url_frame_begin:
  assumes "items u = items s" "active u = active s" "previewUrls u = previewUrls s"
    "\<And>x u. x \<in> set outs \<Longrightarrow> x \<noteq> Create_Url u \<and> x \<noteq> Revoke_Url u"
  shows "url_frame s (updateItem i (begin_patch c) u) outs"
  by (rule url_frame_update [of "begin_patch c" _ i]) (use assms in \<open>auto simp: begin_patch_def updateItem_def\<close>)

lemma url_frame_start:
  assumes "items u = items s" "active u = active s" "previewUrls u = previewUrls s"
  shows "url_frame s (fst (fst (uploadOne_start v it u))) (snd (fst (uploadOne_start v it u)))"
proof (cases "active u")
  case True
  then show ?thesis
    unfolding uploadOne_start_def Let_def
    by (simp only: not_True_eq_False if_False fst_conv snd_conv, intro url_frame_begin) (use assms in auto)
next
  case False
  then show ?thesis by (simp add: uploadOne_start_def, intro url_frame_same) (use assms in auto)
qed

lemma url_frame_worker_step: "url_frame s (fst (worker_step s)) (snd (worker_step s))"
  by (auto simp: worker_step_def intro!: url_frame_same url_frame_start split: option.split)

lemma url_frame_refl [simp]: "url_frame s s []"
  by (simp add: url_frame_def)

lemma url_frame_trans: "url_frame s s' a \<Longrightarrow> url_frame s' s'' b \<Longrightarrow> url_frame s s'' (a @ b)"
  by (auto simp: url_frame_def)

lemma url_frame_start_workers: "url_frame s (fst (start_workers n s)) (snd (start_workers n s))"
proof (induction n arbitrary: s)
  case (Suc n)
  then show ?case using url_frame_trans [OF url_frame_worker_step Suc.IH] by (simp add: case_prod_unfold Let_def)
qed (simp add: url_frame_def)

lemma url_frame_task: "url_frame (s\<lparr>uploading := a, page_error := b, task := t\<rparr>) s' outs \<Longrightarrow> url_frame s s' outs"
  by (simp add: url_frame_def)

lemma url_frame_submit: "url_frame s (fst (submit s)) (snd (submit s))"
  by (auto simp: submit_def Let_def intro: url_frame_same intro!: url_frame_task [OF url_frame_start_workers])

lemma url_frame_retry: "url_frame s (fst (retry it s)) (snd (retry it s))"
proof (cases "uploading s")
  case False
  define t where "t = \<lparr>kind = Retry, queue = [it], nextIndex = 1, completed = 0, concurrency = 1, workers = 1,
    task_visibility = visibility_choice s, phase = Working\<rparr>"
  have "url_frame s (fst (fst (uploadOne_start (visibility_choice s) it (s\<lparr>uploading := True, task := Some t\<rparr>))))
     (snd (fst (uploadOne_start (visibility_choice s) it (s\<lparr>uploading := True, task := Some t\<rparr>))))"
    by (rule url_frame_start) simp_all
  then show ?thesis
    using False by (cases "active s") (simp_all add: retry_def t_def uploadOne_start_def Let_def url_frame_def)
qed (simp add: retry_def url_frame_def)

lemma url_frame_settle: "url_frame s (fst (fst (uploadOne_settle c i r s))) (snd (fst (uploadOne_settle c i r s)))"
proof -
  have *: "url_frame s (updateItem i f s\<lparr>controllers := cs, runs := rs\<rparr>) []"
    if "\<And>it u. previewUrl (f it) = Object_Url u \<Longrightarrow> previewUrl it = Object_Url u" for f cs rs
    by (rule url_frame_update [OF that]) simp_all
  have c: "url_frame s (updateItem i (complete_patch im) s\<lparr>controllers := cs, runs := rs\<rparr>) []" for im cs rs
    by (rule *) (simp add: complete_patch_def)
  have f: "url_frame s (updateItem i (fail_patch e) s\<lparr>controllers := cs, runs := rs\<rparr>) []" for e cs rs
    by (rule *) (simp add: fail_patch_def)
  show ?thesis
    by (cases r) (auto simp: uploadOne_settle_def Let_def c f intro!: url_frame_same split: js_error.splits)
qed

lemma url_frame_run_settled: "url_frame s (fst (run_settled c r s)) (snd (run_settled c r s))"
proof (cases "map_of (runs s) c")
  case (Some i)
  have "url_frame s (after_settle c i r s) (snd (fst (uploadOne_settle c i r s)))"
    using url_frame_settle [of s c i r] by (simp add: url_frame_def after_settle_def case_prod_unfold Let_def)
  then show ?thesis
    using url_frame_trans [OF _ url_frame_worker_step] by (simp add: run_settled_after [OF Some] snd_run_settled [OF Some])
qed (simp add: run_settled_def url_frame_def)

lemma url_frame_ok:
  assumes "urls_ok s" "url_frame s s' outs"
  shows "urls_ok (fst (retain_previews s'))"
    "live_urls (set (previewUrls s)) (outs @ snd (retain_previews s')) = set (previewUrls (fst (retain_previews s')))"
  using assms by (auto simp: url_frame_def urls_ok_def retain_previews_def)

lemma retain_same: "urls_ok s \<Longrightarrow> retain_previews s = (s, [])"
  by (simp add: retain_previews_def urls_ok_def)

lemma url_step_frame:
  assumes ok: "urls_ok s" and fr: "url_frame s (fst (upload_handle s e)) (snd (upload_handle s e))"
  shows "urls_ok (fst (upload_step s e)) \<and>
    live_urls (set (previewUrls s)) (snd (upload_step s e)) = set (previewUrls (fst (upload_step s e)))"
proof (cases "items (fst (upload_handle s e)) = items s")
  case True
  then show ?thesis using ok fr by (simp add: upload_step_def case_prod_unfold Let_def url_frame_def urls_ok_def)
next
  case False
  then show ?thesis using url_frame_ok [OF ok fr] by (simp add: upload_step_def case_prod_unfold Let_def)
qed

lemma retained_new_items:
  assumes "length ks = length fs"
  shows "set (retained_urls (map2 (new_item s) ks fs)) = (if can_preview s then set ks else {})"
  using assms
proof (induction ks fs rule: list_induct2)
  case (Cons k ks f fs)
  then show ?case by (cases "can_preview s") (simp_all add: new_item_def retained_urls_def List.map_filter_def)
qed (simp add: retained_urls_def List.map_filter_def)

lemma retained_append: "retained_urls (a @ b) = retained_urls a @ retained_urls b"
  by (simp add: retained_urls_def List.map_filter_def)

lemma url_grow:
  assumes "urls_ok s" "items s' = items s @ new" "previewUrls s' = previewUrls s @ us"
    "set (retained_urls new) = set us"
  shows "urls_ok s' \<and> live_urls (set (previewUrls s)) (map Create_Url us) = set (previewUrls s')"
  using assms by (simp add: urls_ok_def retained_append)

lemma url_addFiles:
  assumes "urls_ok s"
  shows "urls_ok (fst (addFiles fs s)) \<and>
    live_urls (set (previewUrls s)) (snd (addFiles fs s)) = set (previewUrls (fst (addFiles fs s)))"
proof (cases "maxBatch s < length (unfinished (items s)) + length (filter isSupportedImageFile fs)")
  case True
  then show ?thesis using assms by (auto simp: addFiles_def urls_ok_def)
next
  case False
  let ?fs = "filter isSupportedImageFile fs"
  let ?ks = "[fresh s ..< fresh s + length ?fs]"
  have eq: "addFiles fs s = (s\<lparr>page_error := (if length ?fs \<noteq> length fs then Some (''upload.unsupported'', []) else None),
      items := items s @ map2 (new_item s) ?ks ?fs, previewUrls := previewUrls s @ (if can_preview s then ?ks else []),
      fresh := fresh s + length ?fs\<rparr>, map Create_Url (if can_preview s then ?ks else []))"
    using False unfolding addFiles_def Let_def by (simp only: if_False)
  have "set (retained_urls (map2 (new_item s) ?ks ?fs)) = set (if can_preview s then ?ks else [])"
    using retained_new_items [of ?ks ?fs s] by (cases "can_preview s") (simp_all del: set_upt)
  then show ?thesis unfolding eq fst_conv snd_conv by (rule url_grow [OF assms _ _, rotated 2]) simp_all
qed

lemma url_step:
  assumes ok: "urls_ok s" and e: "e \<noteq> Unmount"
  shows "urls_ok (fst (upload_step s e)) \<and>
    live_urls (set (previewUrls s)) (snd (upload_step s e)) = set (previewUrls (fst (upload_step s e)))"
proof -
  have add: ?thesis if "upload_handle s e = addFiles fs s'" "urls_ok s'" "previewUrls s' = previewUrls s" for fs s'
    using url_addFiles [OF that(2), of fs] that retain_same
    by (auto simp: upload_step_def case_prod_unfold Let_def)
  show ?thesis
  proof (cases e)
    case (Add_Files fs)
    then show ?thesis using add [of fs s] ok by simp
  next
    case (Drop_Files fs)
    have "urls_ok (s\<lparr>dragActive := False\<rparr>)" using ok by (simp add: urls_ok_def)
    then show ?thesis using add [of fs "s\<lparr>dragActive := False\<rparr>"] Drop_Files by simp
  next
    case (Paste_Files fs)
    then show ?thesis using add [of fs s] ok by (cases "fs = []") (simp_all add: upload_step_def)
  next
    case Submit
    then show ?thesis using url_step_frame [OF ok] url_frame_submit by simp
  next
    case (Retry_Item i)
    then show ?thesis
      by (intro url_step_frame [OF ok]) (auto simp: url_frame_retry url_frame_same split: option.splits)
  next
    case (Run_Settled c r)
    then show ?thesis using url_step_frame [OF ok] url_frame_run_settled by simp
  next
    case (Run_Progress c p)
    have "url_frame s (updateItem i (\<lambda>it. it\<lparr>progress := p\<rparr>) s) []" for i
      by (rule url_frame_update) simp_all
    then show ?thesis
      unfolding Run_Progress by (intro url_step_frame [OF ok]) (auto simp: url_frame_same split: option.splits)
  next
    case Clear_Queue
    then show ?thesis
      using ok by (auto simp: upload_step_def clearQueue_def urls_ok_def retain_previews_def retained_urls_def
          List.map_filter_def)
  next
    case Invalidated
    then show ?thesis
      by (intro url_step_frame [OF ok] url_frame_same)
        (auto simp: invalidated_def finish_toast_def split: option.splits task_phase.splits task_kind.splits if_splits)
  next
    case (Leave b)
    then show ?thesis by (intro url_step_frame [OF ok] url_frame_same) (auto simp: leaveUpload_def)
  next
    case Unmount
    then show ?thesis using e by simp
  qed (rule url_step_frame [OF ok]; auto intro!: url_frame_same split: option.splits if_splits)+
qed

text \<open>
  C4: The object URLs of the page do not leak and do not dangle: until the page is unmounted, those
  created and not yet revoked are exactly those that a row shows; unmounting revokes all of them.
\<close>

theorem upload_no_url_leak:
  fixes w p es
  defines "r \<equiv> run_steps upload_step (upload_init w p) es"
  assumes "Unmount \<notin> set es"
  shows "live_urls {} (snd r) = set (retained_urls (items (fst r))) \<and>
    live_urls {} (snd r @ snd (upload_step (fst r) Unmount)) = {}"
proof -
  have "urls_ok (fst (upload_run s es)) \<and> live_urls (set (previewUrls s)) (snd (upload_run s es)) =
      set (previewUrls (fst (upload_run s es)))" if "urls_ok s" for s
    using that assms(2)
  proof (induction es arbitrary: s)
    case (Cons e es)
    then have st: "urls_ok (fst (upload_step s e))"
      "live_urls (set (previewUrls s)) (snd (upload_step s e)) = set (previewUrls (fst (upload_step s e)))"
      using url_step [of s e] by auto
    then show ?case using Cons.IH [OF st(1)] Cons.prems(2) by simp
  qed simp
  from this [of "upload_init w p"]
  have "urls_ok (fst r)" "live_urls {} (snd r) = set (previewUrls (fst r))"
    by (simp_all add: urls_ok_def upload_init_def retained_urls_def List.map_filter_def r_def)
  then show ?thesis by (simp add: urls_ok_def upload_step_def stop_def)
qed

lemma upload_no_url_leak_witness:
  "live_urls {} (snd (upload_run (upload_init None True) [Add_Files [sample_file], Clear_Queue])) =
     set (retained_urls (items (fst (upload_run (upload_init None True) [Add_Files [sample_file], Clear_Queue])))) \<and>
   live_urls {} (snd (upload_run (upload_init None True) [Add_Files [sample_file], Clear_Queue]) @
     snd (upload_step (fst (upload_run (upload_init None True) [Add_Files [sample_file], Clear_Queue])) Unmount)) = {}"
  by (rule upload_no_url_leak) simp

section \<open>A task ends\<close>

text \<open>What is left to happen before the task is over, however its requests settle.\<close>

definition remaining_work :: "upload_page \<Rightarrow> nat" where
  "remaining_work s =
     (case task s of None \<Rightarrow> 0
      | Some t \<Rightarrow>
          (case phase t of
             Working \<Rightarrow> 3 + length (runs s) + (if active s then length (queue t) - nextIndex t else 0)
           | Invalidating_Images \<Rightarrow> 2 | Invalidating_Overview \<Rightarrow> 1))"

text \<open>The surroundings answer what the page awaits: the oldest request, or the invalidation.\<close>

definition answer :: "(nat \<Rightarrow> js_error + image) \<Rightarrow> upload_page \<Rightarrow> upload_event" where
  "answer r s = (case runs s of [] \<Rightarrow> Invalidated | (c, i) # _ \<Rightarrow> Run_Settled c (r c))"

fun answers :: "(nat \<Rightarrow> js_error + image) \<Rightarrow> nat \<Rightarrow> upload_page \<Rightarrow> upload_event list" where
  "answers r 0 s = []"
| "answers r (Suc n) s = answer r s # answers r n (fst (upload_step s (answer r s)))"

lemma remaining_work_0: "upload_inv s \<Longrightarrow> remaining_work s = 0 \<longleftrightarrow> task s = None"
  by (auto simp: remaining_work_def split: option.splits task_phase.splits)

lemma after_settle_runs:
  assumes "upload_inv s" "map_of (runs s) c = Some i"
  shows "Suc (length (runs (after_settle c i r s))) = length (runs s)"
    "active (after_settle c i r s) \<Longrightarrow> active s"
proof -
  have "runs (after_settle c i r s) = filter (\<lambda>p. fst p \<noteq> c) (runs s)"
    by (auto simp: after_settle_cases drop_run_def split: sum.splits)
  then show "Suc (length (runs (after_settle c i r s))) = length (runs s)"
    using remove_run(1) [of "runs s" c i] assms by (simp add: upload_wf_def page_ok_def)
  show "active (after_settle c i r s) \<Longrightarrow> active s"
    by (auto simp: after_settle_cases split: sum.splits if_splits)
qed

lemma settled_work:
  assumes inv: "upload_inv s" and c: "map_of (runs s) c = Some i"
  shows "remaining_work (fst (run_settled c r s)) < remaining_work s"
proof -
  obtain t where t: "task s = Some t" using running_task [OF inv c] .
  have ph: "phase t = Working" using inv t c by (auto simp: upload_wf_def task_ok_def split: if_splits)
  let ?a = "after_settle c i r s"
  obtain t' where t': "task ?a = Some t'" "queue t' = queue t" "nextIndex t' = nextIndex t" "phase t' = phase t"
    using task_after_settle [OF t] by blast
  have "remaining_work (fst (worker_step ?a)) \<le> remaining_work ?a"
    using t' ph by (auto simp: worker_step_def uploadOne_start_def Let_def remaining_work_def)
  moreover have "remaining_work ?a < remaining_work s"
    using t t' ph after_settle_runs [OF inv c, of r] by (auto simp: remaining_work_def)
  ultimately show ?thesis by (simp add: run_settled_after [OF c])
qed

lemma remaining_work_step: "remaining_work (fst (upload_step s e)) = remaining_work (fst (upload_handle s e))"
  unfolding remaining_work_def snd_upload_step ..

lemma answer_work:
  assumes inv: "upload_inv s" and "task s \<noteq> None"
  shows "remaining_work (fst (upload_step s (answer r s))) < remaining_work s"
proof (cases "runs s")
  case Nil
  then show ?thesis
    unfolding remaining_work_step
    using assms by (auto simp: answer_def invalidated_def remaining_work_def upload_wf_def task_ok_def
        split: task_phase.splits if_splits)
next
  case (Cons a rs)
  then have "map_of (runs s) (fst a) = Some (snd a)" by (cases a) simp
  from settled_work [OF inv this] show ?thesis
    using Cons by (cases a) (simp add: remaining_work_step answer_def)
qed

lemma answers_done:
  "upload_inv s \<Longrightarrow> remaining_work s \<le> n \<Longrightarrow> task (fst (upload_run s (answers r n s))) = None"
proof (induction n arbitrary: s)
  case (Suc n)
  show ?case
  proof (cases "task s")
    case None
    then have "runs s = []" using Suc.prems(1) by (simp add: upload_wf_def task_ok_def)
    then have "task (fst (upload_step s (answer r s))) = None"
      using None by (simp add: answer_def snd_upload_step invalidated_def)
    then have "remaining_work (fst (upload_step s (answer r s))) \<le> n" by (simp add: remaining_work_def)
    then show ?thesis using Suc.IH upload_step_inv [OF Suc.prems(1)] by simp
  next
    case (Some t)
    then have "remaining_work (fst (upload_step s (answer r s))) \<le> n"
      using answer_work [OF Suc.prems(1), of r] Suc.prems(2) by simp
    then show ?thesis using Suc.IH upload_step_inv [OF Suc.prems(1)] by simp
  qed
qed (simp add: remaining_work_0)

text \<open>
  C5: Every task ends: from any reachable state, once each request in flight has settled, with
  whatever outcome, and the invalidations have returned, the task is over; three answers more than the
  uploads in flight and still queued are enough, and if the page is still active it accepts a new
  batch.
\<close>

theorem upload_task_ends:
  fixes w p es r
  defines "s \<equiv> fst (run_steps upload_step (upload_init w p) es)"
  defines "s' \<equiv> fst (run_steps upload_step s
    (answers r (3 + length (runs s) + (case task s of None \<Rightarrow> 0 | Some t \<Rightarrow> length (queue t) - nextIndex t)) s))"
  shows "task s' = None \<and> runs s' = [] \<and> \<not> (active s' \<and> uploading s')"
proof -
  have inv: "upload_inv s" unfolding s_def by (rule upload_reach_inv)
  have "remaining_work s \<le> 3 + length (runs s) + (case task s of None \<Rightarrow> 0 | Some t \<Rightarrow> length (queue t) - nextIndex t)"
    by (auto simp: remaining_work_def split: option.splits task_phase.splits)
  then have "task s' = None" unfolding s'_def by (rule answers_done [OF inv])
  moreover have "upload_inv s'" unfolding s'_def by (rule upload.run_inv [OF inv])
  ultimately show ?thesis by (auto simp: upload_wf_def task_ok_def)
qed

section \<open>A sample session\<close>

text \<open>Two files, a server that processes two at a time, no previews.\<close>

definition sample_image :: image where
  "sample_image = \<lparr>image_id = ''1'', originalName = ''a.png'', mimeType = ''image/png'', extension = ''png'',
     width = 1, height = 1, sourceSize = 10, storedSize = 5, sourceSha256 = [], storedSha256 = [],
     processingSummary = \<lparr>action = ''keep'', sourceFormat = ''png'', storedFormat = ''png'', preserved = True,
       ps_compressionEnabled = False, ps_conversionEnabled = False, compressionRejected = None\<rparr>,
     image_visibility = Public, uploadedVia = ''web'', standardUrl = ''/i/1'',
     thumbnailUrl = ''/t/1'', image_createdAt = []\<rparr>"

lemmas upload_eval =
  upload_step_def retain_previews_def addFiles_def new_item_def submit_def worker_step_def uploadOne_start_def
  uploadOne_settle_def run_settled_def invalidated_def finish_toast_def updateItem_def begin_patch_def
  complete_patch_def fail_patch_def Let_def unfinished_def maxBatch_def processing_def sample_system_def
  upload_init_def begins_task_def retained_urls_def jset_add_def jset_delete_def

definition sample_events :: "upload_event list" where
  "sample_events = [System_Loaded sample_system, Add_Files [sample_file, sample_file]]"

lemma sample_ready:
  "fst (upload_run (upload_init None False) sample_events) =
   (upload_init None False)\<lparr>system := Some sample_system, fresh := 2,
     items := [new_item (upload_init None False) 0 sample_file, new_item (upload_init None False) 1 sample_file]\<rparr>"
  by (simp add: sample_events_def upload_eval upt_rec List.map_filter_def)


definition sample_running :: "upload_event list" where
  "sample_running = sample_events @ [Submit]"

lemma sample_submitted:
  "active (fst (upload_run (upload_init None False) sample_running))"
  "runs (fst (upload_run (upload_init None False) sample_running)) = [(2, 0), (3, 1)]"
  unfolding sample_running_def run_steps_append sample_ready
  by (simp_all add: upload_eval numeral_eq_Suc List.map_filter_def)

lemma upload_session_lost_witness:
  "aborted (snd (upload_step (fst (upload_run (upload_init None False) sample_running))
     (Run_Settled 2 (Inl (ApiError 401 ''Sign in'' None))))) = {2, 3}"
  using upload_session_lost [where w = None and p = False and ?es0.0 = sample_running and c = 2 and m = "''Sign in''"
      and d = None and es = "[]"]
  by (simp add: sample_submitted)

definition sample_settled :: "upload_event list" where
  "sample_settled = [Add_Files [sample_file], Submit, Run_Settled 1 (Inl Abort_Error), Invalidated]"

lemma sample_done:
  "fst (upload_run (upload_init None False) sample_settled) =
     (upload_init None False)\<lparr>fresh := 2, uploading := True,
        items := [fail_patch Abort_Error (begin_patch 1 (new_item (upload_init None False) 0 sample_file))],
        task := Some \<lparr>kind = Batch, queue = [new_item (upload_init None False) 0 sample_file], nextIndex = 1,
          completed = 0, concurrency = 1, workers = 0, task_visibility = None, phase = Invalidating_Overview\<rparr>\<rparr>"
  by (simp add: sample_settled_def upload_eval storedVisibility_def readLocalStorage_def List.map_filter_def)

lemma upload_toast_truth_witness:
  "snd (upload_step (fst (upload_run (upload_init None False) sample_settled)) Invalidated) =
     [Page (plain_toast Toast_Warning ''toast.uploadPartial'' [0, 1])]"
  using upload_toast_truth [where w = None and p = False and es = sample_settled]
  unfolding sample_done by (auto simp: ids_def new_item_def with_status_def fail_patch_def begin_patch_def upload_init_def)

section \<open>Consistency\<close>



end
