(* ===== verification/Url.thy ===== *)
theory Url
  imports Uri
begin

text \<open>
  \<open>new URL(reference, origin)\<close> for the references the program resolves: those that begin with one
  slash (a path of this server, with an optional query and fragment), against the origin of the
  page, an \<open>http\<close> or \<open>https\<close> one. The steps are those of the URL standard: control characters are
  stripped, a backslash counts as a slash, dot segments are resolved, each part is percent-encoded
  with its own set. Any other reference (absolute, protocol-relative, relative) is \<open>None\<close>.
\<close>

record url =
  url_origin :: string
  url_pathname :: string
  url_query :: "string option"
  url_fragment :: "string option"

section \<open>The parser\<close>

definition strip_controls :: "string \<Rightarrow> string" where
  "strip_controls s =
     filter (\<lambda>c. byte c \<notin> {9, 10, 13})
       (rev (dropWhile (\<lambda>c. byte c \<le> 32) (rev (dropWhile (\<lambda>c. byte c \<le> 32) s))))"

definition c0_set :: "char \<Rightarrow> bool" where
  "c0_set c \<longleftrightarrow> byte c < 32 \<or> 126 < byte c"

text \<open>The sets by code: space 32, quote 34, \<open>#\<close> 35, apostrophe 39, \<open>/\<close> 47, \<open><\<close> 60, \<open>>\<close> 62,
  \<open>?\<close> 63, backslash 92, \<open>^\<close> 94, backquote 96, braces 123 and 125.\<close>

definition query_set :: "char \<Rightarrow> bool" where
  "query_set c \<longleftrightarrow> c0_set c \<or> byte c \<in> {32, 34, 35, 39, 60, 62}"

definition fragment_set :: "char \<Rightarrow> bool" where
  "fragment_set c \<longleftrightarrow> c0_set c \<or> byte c \<in> {32, 34, 60, 62, 96}"

definition path_set :: "char \<Rightarrow> bool" where
  "path_set c \<longleftrightarrow> c0_set c \<or> byte c \<in> {32, 34, 35, 60, 62, 63, 94, 96, 123, 125}"

definition pct_encode :: "(char \<Rightarrow> bool) \<Rightarrow> string \<Rightarrow> string" where
  "pct_encode S s = concat (map (\<lambda>c. if S c then pct c else [c]) s)"

definition single_dot :: "string \<Rightarrow> bool" where
  "single_dot s \<longleftrightarrow> to_lower s \<in> {''.'', ''%2e''}"

definition double_dot :: "string \<Rightarrow> bool" where
  "double_dot s \<longleftrightarrow> to_lower s \<in> {''..'', ''.%2e'', ''%2e.'', ''%2e%2e''}"

text \<open>Segments, a backslash being a separator too; the segment after the last one ends the path.\<close>

definition path_segments :: "string \<Rightarrow> string list" where
  "path_segments s = split_on CHR ''/'' (replace_char (char_of (92 :: nat)) ''/'' s)"

text \<open>The path so far is kept in reverse; the last segment of a dot kind leaves a trailing slash.\<close>

fun resolve_segments :: "string list \<Rightarrow> string list \<Rightarrow> string list" where
  "resolve_segments acc [] = acc"
| "resolve_segments acc [s] =
     (if double_dot s then [] # tl acc else if single_dot s then [] # acc
      else pct_encode path_set s # acc)"
| "resolve_segments acc (s # t # ts) =
     (if double_dot s then resolve_segments (tl acc) (t # ts)
      else if single_dot s then resolve_segments acc (t # ts)
      else resolve_segments (pct_encode path_set s # acc) (t # ts))"

definition path_string :: "string list \<Rightarrow> string" where
  "path_string segs = concat (map (\<lambda>s. CHR ''/'' # s) segs)"

definition split_first :: "char \<Rightarrow> string \<Rightarrow> string \<times> string option" where
  "split_first c s =
     (let r = dropWhile (\<lambda>x. x \<noteq> c) s
      in (takeWhile (\<lambda>x. x \<noteq> c) s, if r = [] then None else Some (tl r)))"

definition parse_url :: "string \<Rightarrow> string \<Rightarrow> url option" where
  "parse_url origin ref =
     (case strip_controls ref of
        CHR ''/'' # s \<Rightarrow>
          if s \<noteq> [] \<and> (hd s = CHR ''/'' \<or> byte (hd s) = 92) then None
          else
            let (rest, frag) = split_first CHR ''#'' s; (path, query) = split_first CHR ''?'' rest
            in Some \<lparr>url_origin = origin,
                     url_pathname = path_string (rev (resolve_segments [] (path_segments path))),
                     url_query = map_option (pct_encode query_set) query,
                     url_fragment = map_option (pct_encode fragment_set) frag\<rparr>
      | _ \<Rightarrow> None)"

text \<open>The attributes \<open>search\<close>, \<open>hash\<close> and \<open>href\<close> (\<open>toString()\<close>).\<close>

definition url_part :: "char \<Rightarrow> string option \<Rightarrow> string" where
  "url_part c v = (case v of None \<Rightarrow> [] | Some s \<Rightarrow> c # s)"

definition url_attr :: "char \<Rightarrow> string option \<Rightarrow> string" where
  "url_attr c v = (case v of None \<Rightarrow> [] | Some s \<Rightarrow> if s = [] then [] else c # s)"

definition url_search :: "url \<Rightarrow> string" where
  "url_search u = url_attr CHR ''?'' (url_query u)"

definition url_hash :: "url \<Rightarrow> string" where
  "url_hash u = url_attr CHR ''#'' (url_fragment u)"

definition url_href :: "url \<Rightarrow> string" where
  "url_href u =
     url_origin u @ url_pathname u @ url_part CHR ''?'' (url_query u) @
     url_part CHR ''#'' (url_fragment u)"

section \<open>Clean references are left alone\<close>

text \<open>Characters no step of the parser touches in any part.\<close>

definition clean_char :: "char \<Rightarrow> bool" where
  "clean_char c \<longleftrightarrow>
     32 < byte c \<and> byte c \<le> 126 \<and> byte c \<notin> {34, 35, 39, 47, 60, 62, 63, 92, 94, 96, 123, 125}"

definition clean_segment :: "string \<Rightarrow> bool" where
  "clean_segment s \<longleftrightarrow> list_all clean_char s \<and> \<not> single_dot s \<and> \<not> double_dot s"

lemma clean_not_in_sets:
  assumes "clean_char c"
  shows "\<not> path_set c" "\<not> query_set c" "\<not> fragment_set c"
  using assms by (simp_all add: clean_char_def path_set_def query_set_def fragment_set_def c0_set_def)

lemma pct_encode_clean: "list_all (\<lambda>c. \<not> S c) s \<Longrightarrow> pct_encode S s = s"
  by (induction s) (auto simp: pct_encode_def)

lemma pct_encode_path_clean: "list_all clean_char s \<Longrightarrow> pct_encode path_set s = s"
  by (rule pct_encode_clean) (auto simp: list_all_iff clean_not_in_sets)

lemma pct_encode_query_clean: "list_all clean_char s \<Longrightarrow> pct_encode query_set s = s"
  by (rule pct_encode_clean) (auto simp: list_all_iff clean_not_in_sets)

lemma resolve_segments_clean:
  "list_all clean_segment ss \<Longrightarrow> resolve_segments acc ss = rev ss @ acc"
  by (induction acc ss rule: resolve_segments.induct)
    (auto simp: clean_segment_def pct_encode_path_clean)

lemma strip_controls_clean:
  assumes "list_all (\<lambda>c. 32 < byte c) s"
  shows "strip_controls s = s"
proof -
  have "dropWhile (\<lambda>c. byte c \<le> 32) t = t" if "list_all (\<lambda>c. 32 < byte c) t" for t
    using that by (cases t) auto
  moreover have "list_all (\<lambda>c. 32 < byte c) (rev s)" using assms by simp
  ultimately show ?thesis using assms by (auto simp: strip_controls_def list_all_iff intro!: filter_True)
qed

lemma split_first_absent: "c \<notin> set s \<Longrightarrow> split_first c s = (s, None)"
  by (auto simp: split_first_def Let_def takeWhile_eq_all_conv)

lemma split_first_found: "c \<notin> set a \<Longrightarrow> split_first c (a @ c # b) = (a, Some b)"
proof -
  assume "c \<notin> set a"
  then have "takeWhile (\<lambda>x. x \<noteq> c) (a @ c # b) = a" "dropWhile (\<lambda>x. x \<noteq> c) (a @ c # b) = c # b"
    by (induction a) auto
  then show ?thesis by (simp add: split_first_def)
qed

lemma clean_char_facts:
  assumes "clean_char c"
  shows "32 < byte c" "c \<noteq> CHR ''/''" "c \<noteq> CHR ''#''" "c \<noteq> CHR ''?''" "byte c \<noteq> 92"
  using assms by (auto simp: clean_char_def)

lemma byte_backslash: "byte (char_of (92 :: nat)) = 92" and byte_slash: "byte CHR ''/'' \<noteq> 92"
  by simp_all

lemma path_segments_clean:
  assumes "ss \<noteq> []" "list_all (list_all clean_char) ss"
  shows "path_segments (join ''/'' ss) = ss"
proof -
  have slash: "char_of (92 :: nat) \<noteq> CHR ''/''" by (metis byte_backslash byte_slash)
  have backslash: "\<not> clean_char (char_of (92 :: nat))" by (simp add: clean_char_def)
  have "char_of (92 :: nat) \<notin> set (join ''/'' ss)"
    using assms(2)
  proof (induction ss rule: induct_list012)
    case (3 x y zs)
    have "char_of (92 :: nat) \<notin> set x" using 3 backslash by (auto simp: list_all_iff)
    with 3 slash show ?case by auto
  qed (use backslash in \<open>auto simp: list_all_iff\<close>)
  moreover have "split_on CHR ''/'' (join ''/'' ss) = ss"
    using assms by (intro split_on_join) (auto simp: list_all_iff dest: clean_char_facts(2))
  ultimately show ?thesis by (simp add: path_segments_def replace_char_absent)
qed

lemma path_string_join: "ss \<noteq> [] \<Longrightarrow> path_string ss = CHR ''/'' # join ''/'' ss"
  by (induction ss rule: induct_list012) (auto simp: path_string_def)

lemma set_join: "c \<in> set (join ''/'' ss) \<Longrightarrow> c = CHR ''/'' \<or> (\<exists>s \<in> set ss. c \<in> set s)"
  by (induction ss rule: induct_list012) auto

lemma pct_encode_fragment_clean: "list_all clean_char s \<Longrightarrow> pct_encode fragment_set s = s"
  by (rule pct_encode_clean) (auto simp: list_all_iff clean_not_in_sets)

lemma split_first_part:
  assumes "c \<notin> set a"
  shows "split_first c (a @ url_part c v) = (a, v)"
  using assms by (cases v) (auto simp: url_part_def intro: split_first_absent split_first_found)

text \<open>A reference of clean segments, with a clean query and fragment or none, resolves to itself.\<close>

lemma parse_url_clean_parts:
  assumes segs: "ss \<noteq> []" "list_all clean_segment ss" "hd ss \<noteq> []"
    and q: "\<forall>s \<in> set_option q. list_all clean_char s"
    and f: "\<forall>s \<in> set_option f. list_all clean_char s"
  shows "parse_url origin (CHR ''/'' # join ''/'' ss @ url_part CHR ''?'' q @ url_part CHR ''#'' f) =
    Some \<lparr>url_origin = origin, url_pathname = CHR ''/'' # join ''/'' ss,
          url_query = q, url_fragment = f\<rparr>"
proof -
  have chars: "list_all (list_all clean_char) ss"
    using segs by (auto simp: list_all_iff clean_segment_def)
  let ?p = "join ''/'' ss"
  let ?r = "?p @ url_part CHR ''?'' q @ url_part CHR ''#'' f"
  have pc: "32 < byte c \<and> c \<noteq> CHR ''#'' \<and> c \<noteq> CHR ''?''" if "c \<in> set ?p" for c
    using set_join [OF that] chars by (auto simp: list_all_iff dest: clean_char_facts)
  have qc: "32 < byte c \<and> c \<noteq> CHR ''#''" if "c \<in> set (url_part CHR ''?'' q)" for c
    using that q by (auto simp: url_part_def list_all_iff split: option.splits dest: clean_char_facts)
  have fc: "32 < byte c" if "c \<in> set (url_part CHR ''#'' f)" for c
    using that f by (auto simp: url_part_def list_all_iff split: option.splits dest: clean_char_facts)
  have strip: "strip_controls (CHR ''/'' # ?r) = CHR ''/'' # ?r"
    using pc qc fc by (intro strip_controls_clean) (auto simp: list_all_iff)
  obtain c t ss' where ss: "ss = (c # t) # ss'" using segs by (cases ss; cases "hd ss") auto
  then have hd: "?r \<noteq> []" "hd ?r = c" by (cases ss'; simp)+
  have "clean_char c" using chars ss by simp
  note cf = clean_char_facts [OF this]
  have frag: "split_first CHR ''#'' ?r = (?p @ url_part CHR ''?'' q, f)"
    unfolding append_assoc [symmetric] using pc qc by (intro split_first_part) auto
  have quer: "split_first CHR ''?'' (?p @ url_part CHR ''?'' q) = (?p, q)"
    using pc by (intro split_first_part) auto
  have path: "path_string (rev (resolve_segments [] (path_segments ?p))) = CHR ''/'' # ?p"
    using segs chars by (simp add: path_segments_clean resolve_segments_clean path_string_join)
  have "map_option (pct_encode query_set) q = q" "map_option (pct_encode fragment_set) f = f"
    using q f by (cases q; cases f; auto simp: pct_encode_query_clean pct_encode_fragment_clean)+
  with strip hd cf frag quer path show ?thesis by (simp add: parse_url_def)
qed

lemma parse_url_clean:
  assumes "ss \<noteq> []" "list_all clean_segment ss" "hd ss \<noteq> []"
    and "\<forall>s \<in> set_option q. list_all clean_char s"
  shows "parse_url origin (CHR ''/'' # join ''/'' ss @ url_part CHR ''?'' q) =
    Some \<lparr>url_origin = origin, url_pathname = CHR ''/'' # join ''/'' ss,
          url_query = q, url_fragment = None\<rparr>"
  using parse_url_clean_parts [OF assms, of None origin] by (simp add: url_part_def)

text \<open>What the parser yields: the delimiters of the parts are encoded inside them.\<close>

lemma pct_encode_set: "c \<in> set (pct_encode S s) \<Longrightarrow> (c \<in> set s \<and> \<not> S c) \<or> c = CHR ''%'' \<or> alnum c"
proof -
  have "alnum (hex_digit (byte d div 16)) \<and> alnum (hex_digit (byte d mod 16))" for d
    using byte_less [of d] by (intro conjI hex_digit_alnum; linarith)
  then show "c \<in> set (pct_encode S s) \<Longrightarrow> (c \<in> set s \<and> \<not> S c) \<or> c = CHR ''%'' \<or> alnum c"
    by (induction s) (auto simp: pct_encode_def pct_def split: if_splits)
qed

lemma resolve_segments_set:
  "\<forall>s \<in> set acc. c \<notin> set s \<Longrightarrow> path_set c \<Longrightarrow> \<not> alnum c \<Longrightarrow> c \<noteq> CHR ''%'' \<Longrightarrow>
   \<forall>s \<in> set (resolve_segments acc ss). c \<notin> set s"
proof (induction acc ss rule: resolve_segments.induct)
  case (2 acc s)
  then show ?case using pct_encode_set [of c path_set s] by (cases acc) auto
next
  case (3 acc s t ts)
  have tl: "\<forall>s \<in> set (tl acc). c \<notin> set s" using "3.prems"(1) by (cases acc) auto
  have enc: "\<forall>x \<in> set (pct_encode path_set s # acc). c \<notin> set x"
    using "3.prems" pct_encode_set [of c path_set s] by auto
  consider "double_dot s" | "\<not> double_dot s" "single_dot s" | "\<not> double_dot s" "\<not> single_dot s" by blast
  then show ?case
  proof cases
    case 1
    then show ?thesis using "3.IH"(1) tl "3.prems"(2-) by simp
  next
    case 2
    then show ?thesis using "3.IH"(2) "3.prems" by simp
  next
    case 3
    then show ?thesis using "3.IH"(3) enc "3.prems"(2-) by simp
  qed
qed auto

lemma parse_url_parts:
  assumes "parse_url origin ref = Some u"
  shows "CHR ''?'' \<notin> set (url_pathname u)" "CHR ''#'' \<notin> set (url_pathname u)" "CHR ''#'' \<notin> set (url_search u)"
proof -
  obtain s where s: "strip_controls ref = CHR ''/'' # s"
    "\<not> (s \<noteq> [] \<and> (hd s = CHR ''/'' \<or> byte (hd s) = 92))"
    using assms by (auto simp: parse_url_def split: list.splits if_splits prod.splits char.splits bool.splits)
  define p where "p = split_first CHR ''#'' s"
  define q where "q = split_first CHR ''?'' (fst p)"
  have u: "u = \<lparr>url_origin = origin,
      url_pathname = path_string (rev (resolve_segments [] (path_segments (fst q)))),
      url_query = map_option (pct_encode query_set) (snd q),
      url_fragment = map_option (pct_encode fragment_set) (snd p)\<rparr>"
    using assms s(2) by (simp add: parse_url_def s(1) Let_def p_def q_def split_def split: if_splits)
  have path: "c \<notin> set (url_pathname u)"
    if "path_set c" "\<not> alnum c" "c \<noteq> CHR ''%''" "c \<noteq> CHR ''/''" for c
    using resolve_segments_set [of "[]" c] that by (auto simp: u path_string_def)
  show "CHR ''?'' \<notin> set (url_pathname u)" "CHR ''#'' \<notin> set (url_pathname u)"
    by (rule path; simp add: path_set_def alnum_def is_digit_def)+
  have "CHR ''#'' \<notin> set (pct_encode query_set x)" for x
    using pct_encode_set [of "CHR ''#''" query_set x] by (auto simp: query_set_def alnum_def is_digit_def)
  then show "CHR ''#'' \<notin> set (url_search u)"
    by (auto simp: u url_search_def url_attr_def split: option.splits)
qed

lemma parse_url_origin: "parse_url origin ref = Some u \<Longrightarrow> url_origin u = origin"
  by (auto simp: parse_url_def Let_def split: list.splits if_splits prod.splits char.splits bool.splits)

end
