(* ===== verification/Image_Links.thy ===== *)
theory Image_Links
  imports Url Js_Number
begin

text \<open>
  \<open>web/src/lib/image-links.ts\<close>: the links of an image in four notations, and sizes in binary units.

  A \<open>standardUrl\<close> is a path of this server (see theory \<open>Url\<close>); for another reference the links are
  \<open>None\<close>. What the notations promise is stated with readers for them: the attributes of an HTML
  start tag, the alternative text of a Markdown image.
\<close>

section \<open>The source\<close>

datatype link_format = Direct | Markdown | Html | Bbcode

record linkable_image =
  link_name :: string
  link_url :: string

text \<open>Character codes: quote 34, ampersand 38, \<open><\<close> 60, \<open>>\<close> 62, brackets 91 and 93, backslash 92.\<close>

definition escapeHTML :: "string \<Rightarrow> string" where
  "escapeHTML s =
     replace_char CHR ''>'' ''&gt;'' (replace_char CHR ''<'' ''&lt;''
       (replace_char CHR 0x22 ''&quot;'' (replace_char CHR ''&'' ''&amp;'' s)))"

definition markdown_alt :: "string \<Rightarrow> string" where
  "markdown_alt s = concat (map (\<lambda>c. if byte c \<in> {91, 92, 93} then [CHR 0x5C, c] else [c]) s)"

definition imageLinks :: "string \<Rightarrow> linkable_image \<Rightarrow> (link_format \<Rightarrow> string) option" where
  "imageLinks origin im =
     map_option
       (\<lambda>u. let direct = url_href u; alt = markdown_alt (link_name im)
            in (\<lambda>f. case f of
                 Direct \<Rightarrow> direct
               | Markdown \<Rightarrow> ''!['' @ alt @ '']('' @ direct @ '')''
               | Html \<Rightarrow> ''<img src='' @ [CHR 0x22] @ escapeHTML direct @ [CHR 0x22] @ '' alt='' @ [CHR 0x22] @
                   escapeHTML (link_name im) @ [CHR 0x22] @ ''>''
               | Bbcode \<Rightarrow> ''[img]'' @ direct @ ''[/img]''))
       (parse_url origin (link_url im))"

fun collect :: "'a option list \<Rightarrow> 'a list option" where
  "collect [] = Some []"
| "collect (x # xs) = (case x of None \<Rightarrow> None | Some v \<Rightarrow> map_option ((#) v) (collect xs))"

definition newline :: char where
  "newline = CHR 0x0A"

definition imageLinksText :: "string \<Rightarrow> linkable_image list \<Rightarrow> link_format \<Rightarrow> string option" where
  "imageLinksText origin images f =
     map_option (join [newline]) (collect (map (\<lambda>im. map_option (\<lambda>l. l f) (imageLinks origin im)) images))"

definition formatBytes :: "nat \<Rightarrow> string" where
  "formatBytes n =
     (let v = Fin (of_nat n); k = Fin 1024 in
      if n < 1024 then decimal n @ '' B''
      else if n < 1024 * 1024 then to_fixed 1 (js_div v k) @ '' KiB''
      else if n < 1024 * 1024 * 1024 then to_fixed 1 (js_div (js_div v k) k) @ '' MiB''
      else to_fixed 2 (js_div (js_div (js_div v k) k) k) @ '' GiB'')"

section \<open>Readers of the notations\<close>

text \<open>The four character references, longest first, as a browser reads an attribute value.\<close>

fun decode_entities :: "string \<Rightarrow> string" where
  "decode_entities [] = []"
| "decode_entities (c # s) =
     (if c = CHR ''&'' then
        (if take 4 s = ''amp;'' then CHR ''&'' # decode_entities (drop 4 s)
         else if take 5 s = ''quot;'' then CHR 0x22 # decode_entities (drop 5 s)
         else if take 3 s = ''lt;'' then CHR ''<'' # decode_entities (drop 3 s)
         else if take 3 s = ''gt;'' then CHR ''>'' # decode_entities (drop 3 s)
         else c # decode_entities s)
      else c # decode_entities s)"

text \<open>A quoted attribute value, and what follows its closing quote.\<close>

definition read_quoted :: "string \<Rightarrow> (string \<times> string) option" where
  "read_quoted s =
     (case s of c # r \<Rightarrow>
        if c = CHR 0x22 then
          (case split_first CHR 0x22 r of (v, Some rest) \<Rightarrow> Some (decode_entities v, rest) | _ \<Rightarrow> None)
        else None
      | [] \<Rightarrow> None)"

definition expect :: "string \<Rightarrow> string \<Rightarrow> string option" where
  "expect p s = (if take (length p) s = p then Some (drop (length p) s) else None)"

definition read_img :: "string \<Rightarrow> (string \<times> string) option" where
  "read_img s =
     Option.bind (expect ''<img src='' s) (\<lambda>s1. Option.bind (read_quoted s1) (\<lambda>(src, s2).
       Option.bind (expect '' alt='' s2) (\<lambda>s3. Option.bind (read_quoted s3) (\<lambda>(alt, s4).
         if s4 = ''>'' then Some (src, alt) else None))))"

text \<open>The text of a Markdown label up to its closing bracket, a backslash quoting the next byte.\<close>

fun read_label :: "string \<Rightarrow> (string \<times> string) option" where
  "read_label [] = None"
| "read_label (c # s) =
     (if byte c = 93 then Some ([], s)
      else if byte c = 92 then
        (case s of [] \<Rightarrow> None | d # s' \<Rightarrow> map_option (\<lambda>(l, r). (d # l, r)) (read_label s'))
      else if byte c = 91 then None
      else map_option (\<lambda>(l, r). (c # l, r)) (read_label s))"

section \<open>Escaping\<close>

definition escape_char :: "char \<Rightarrow> string" where
  "escape_char c =
     (if c = CHR ''&'' then ''&amp;'' else if c = CHR 0x22 then ''&quot;'' else if c = CHR ''<'' then ''&lt;''
      else if c = CHR ''>'' then ''&gt;'' else [c])"

lemma escapeHTML_simps [simp]: "escapeHTML [] = []" "escapeHTML (c # s) = escape_char c @ escapeHTML s"
  by (simp_all add: escapeHTML_def escape_char_def)

lemma decode_escape_char: "decode_entities (escape_char c @ s) = c # decode_entities s"
  by (simp add: escape_char_def)

lemma decode_escapeHTML: "decode_entities (escapeHTML s) = s"
  by (induction s) (simp_all add: decode_escape_char)

lemma escapeHTML_chars: "x \<in> set (escapeHTML s) \<Longrightarrow> x \<noteq> CHR 0x22 \<and> x \<noteq> CHR ''<'' \<and> x \<noteq> CHR ''>''"
  by (induction s) (auto simp: escape_char_def split: if_splits)

lemma read_quoted_escape: "read_quoted (CHR 0x22 # escapeHTML s @ CHR 0x22 # r) = Some (s, r)"
proof -
  have "CHR 0x22 \<notin> set (escapeHTML s)" using escapeHTML_chars by blast
  from split_first_found [OF this] show ?thesis by (simp add: read_quoted_def decode_escapeHTML)
qed

lemma read_label_alt: "read_label (markdown_alt s @ CHR 0x5D # r) = Some (s, r)"
  by (induction s) (auto simp: markdown_alt_def)

text \<open>
  C10: The HTML notation of an image is one well-formed tag whatever the file is called: read back as
  a browser reads it, its source is the direct link and its alternative text the original name.
\<close>

theorem html_link_reads_back:
  assumes "imageLinks origin im = Some links"
  shows "read_img (links Html) = Some (links Direct, link_name im)"
  using assms
  by (auto simp: imageLinks_def read_img_def expect_def read_quoted_escape Let_def)

definition sample_linkable :: linkable_image where
  "sample_linkable = \<lparr>link_name = ''a]'' @ [CHR 0x22] @ ''>&'', link_url = ''/image/1.png''\<rparr>"

lemma sample_url: "parse_url ''https://s'' ''/image/1.png'' =
    Some \<lparr>url_origin = ''https://s'', url_pathname = ''/image/1.png'', url_query = None, url_fragment = None\<rparr>"
  by code_simp

lemma sample_linkable_links: "\<exists>links. imageLinks ''https://s'' sample_linkable = Some links \<and> links Direct = ''https://s/image/1.png''"
  by (simp add: imageLinks_def sample_linkable_def sample_url url_href_def url_part_def Let_def)

lemma html_link_reads_back_witness:
  "\<exists>links. imageLinks ''https://s'' sample_linkable = Some links \<and>
     read_img (links Html) = Some (''https://s/image/1.png'', ''a]'' @ [CHR 0x22] @ ''>&'')"
proof -
  obtain links where l: "imageLinks ''https://s'' sample_linkable = Some links" "links Direct = ''https://s/image/1.png''"
    using sample_linkable_links by blast
  show ?thesis using html_link_reads_back [OF l(1)] l by (simp add: sample_linkable_def)
qed

text \<open>
  C11: In the Markdown notation the brackets and backslashes of the original name do not end the label:
  read back with backslash escapes, the label is the original name, and what follows is the link.
\<close>

theorem markdown_label_reads_back:
  assumes "imageLinks origin im = Some links"
  shows "\<exists>rest. links Markdown = ''!['' @ rest \<and>
    read_label rest = Some (link_name im, ''('' @ links Direct @ '')'')"
  using assms by (auto simp: imageLinks_def Let_def read_label_alt)

lemma markdown_label_reads_back_witness:
  "\<exists>links rest. imageLinks ''https://s'' sample_linkable = Some links \<and> links Markdown = ''!['' @ rest \<and>
     read_label rest = Some (''a]'' @ [CHR 0x22] @ ''>&'', ''(https://s/image/1.png)'')"
proof -
  obtain links where l: "imageLinks ''https://s'' sample_linkable = Some links" "links Direct = ''https://s/image/1.png''"
    using sample_linkable_links by blast
  obtain rest where "links Markdown = ''!['' @ rest" "read_label rest = Some (link_name sample_linkable, ''('' @ links Direct @ '')'')"
    using markdown_label_reads_back [OF l(1)] by blast
  then show ?thesis using l by (simp add: sample_linkable_def)
qed

section \<open>Several images\<close>

lemma pct_encode_no_newline: "(\<And>c. byte c < 32 \<Longrightarrow> S c) \<Longrightarrow> newline \<notin> set (pct_encode S s)"
proof (induction s)
  case (Cons c s)
  have "newline \<notin> set (pct c)"
  proof -
    have b: "byte (hex_digit v) \<noteq> byte newline" if "v < 16" for v
      using that by (auto simp: hex_digit_def newline_def)
    have "byte c div 16 < 16" using byte_less [of c] by linarith
    then have "hex_digit (byte c div 16) \<noteq> newline" "hex_digit (byte c mod 16) \<noteq> newline"
      using b [of "byte c div 16"] b [of "byte c mod 16"] by auto
    then show ?thesis by (simp add: pct_def newline_def)
  qed
  then show ?case using Cons by (auto simp: pct_encode_def newline_def)
qed (simp add: pct_encode_def)

lemma sets_c0: "byte c < 32 \<Longrightarrow> path_set c" "byte c < 32 \<Longrightarrow> query_set c" "byte c < 32 \<Longrightarrow> fragment_set c"
  by (simp_all add: path_set_def query_set_def fragment_set_def c0_set_def)

lemma resolve_segments_no_newline:
  "list_all (\<lambda>s. newline \<notin> set s) acc \<Longrightarrow> list_all (\<lambda>s. newline \<notin> set s) (resolve_segments acc ss)"
proof (induction acc ss rule: resolve_segments.induct)
  case (2 acc s)
  then show ?case using pct_encode_no_newline [OF sets_c0(1)] by (cases acc) auto
next
  case (3 acc s t ts)
  have "list_all (\<lambda>s. newline \<notin> set s) (tl acc)" using 3(4) by (cases acc) auto
  then show ?case using 3 pct_encode_no_newline [OF sets_c0(1)] by auto
qed simp

lemma url_href_no_newline:
  assumes "parse_url origin ref = Some u" "newline \<notin> set origin"
  shows "newline \<notin> set (url_href u)"
proof -
  obtain path q f where u: "u = \<lparr>url_origin = origin,
      url_pathname = path_string (rev (resolve_segments [] (path_segments path))),
      url_query = map_option (pct_encode query_set) q, url_fragment = map_option (pct_encode fragment_set) f\<rparr>"
    using assms(1) by (auto simp: parse_url_def Let_def split: list.splits if_splits prod.splits char.splits bool.splits)
  have "newline \<notin> set (path_string (rev (resolve_segments [] (path_segments path))))"
    using resolve_segments_no_newline [of "[]"] by (auto simp: path_string_def list_all_iff newline_def)
  then show ?thesis
    using assms(2) pct_encode_no_newline [OF sets_c0(2)] pct_encode_no_newline [OF sets_c0(3)]
    by (auto simp: u url_href_def url_part_def newline_def split: option.splits)
qed

lemma collect_Some: "collect xs = Some ys \<longleftrightarrow> xs = map Some ys"
  by (induction xs arbitrary: ys) (auto split: option.splits)

text \<open>
  The direct links of a selection are copied one per line and in the order of the selection: split
  at its line breaks, the text gives back exactly the link of each image.
\<close>

theorem direct_links_text:
  assumes "images \<noteq> []" "newline \<notin> set origin" "imageLinksText origin images Direct = Some copied_text"
  shows "map Some (split_on newline copied_text) =
    map (\<lambda>im. map_option url_href (parse_url origin (link_url im))) images"
proof -
  obtain ls where ls: "map (\<lambda>im. map_option (\<lambda>l. l Direct) (imageLinks origin im)) images = map Some ls"
    "copied_text = join [newline] ls"
    using assms(3) by (auto simp: imageLinksText_def collect_Some)
  have eq: "map (\<lambda>im. map_option url_href (parse_url origin (link_url im))) images = map Some ls"
    using ls(1) by (auto simp: imageLinks_def Let_def option.map_comp comp_def cong: map_cong)
  have "newline \<notin> set l" if "l \<in> set ls" for l
  proof -
    have "Some l \<in> set (map (\<lambda>im. map_option url_href (parse_url origin (link_url im))) images)" using that by (simp add: eq)
    then obtain im :: linkable_image where "Some l = map_option url_href (parse_url origin (link_url im))"
      by (auto simp only: set_map image_iff)
    then obtain v where u: "parse_url origin (link_url im) = Some v" "l = url_href v"
      by (cases "parse_url origin (link_url im)") simp_all
    then show ?thesis using url_href_no_newline [OF u(1) assms(2)] by simp
  qed
  moreover have "ls \<noteq> []" using ls(1) assms(1) by auto
  ultimately show ?thesis using split_on_join ls(2) eq by simp
qed

lemma direct_links_text_witness:
  "\<exists>copied_text. imageLinksText ''https://s'' [sample_linkable, sample_linkable] Direct = Some copied_text \<and>
     split_on newline copied_text = [''https://s/image/1.png'', ''https://s/image/1.png'']"
proof -
  obtain copied_text where t: "imageLinksText ''https://s'' [sample_linkable, sample_linkable] Direct = Some copied_text"
    using sample_linkable_links by (auto simp: imageLinksText_def)
  show ?thesis
    using direct_links_text [OF _ _ t] t
    by (auto simp: newline_def sample_linkable_def sample_url url_href_def url_part_def map_eq_Cons_conv)
qed

section \<open>Sizes\<close>

lemma js_div_1024:
  assumes "n \<le> 2 ^ 53" "j + 10 \<le> 1074"
  shows "js_div (Fin (of_nat n / 2 ^ j)) (Fin 1024) = Fin (of_nat n / 2 ^ (j + 10))"
  using dbl_of_nat_scaled [of n "j + 10"] assms by (simp add: power_add)

lemma fixed_digits_scaled:
  fixes n :: nat
  shows "fixed_digits f (of_nat n / 2 ^ Suc j) =
    (let s = decimal ((n * 10 ^ f + 2 ^ j) div 2 ^ Suc j)
     in if f = 0 then s else let p = pad_start (Suc f) CHR ''0'' s; k = length p - f in take k p @ ''.'' @ drop k p)"
proof -
  have "(of_nat n / 2 ^ Suc j :: rat) * 10 ^ f + 1 / 2 = of_nat (n * 10 ^ f + 2 ^ j) / of_nat (2 ^ Suc j)"
    by (simp add: field_simps)
  then have "\<lfloor>(of_nat n / 2 ^ Suc j :: rat) * 10 ^ f + 1 / 2\<rfloor> = int ((n * 10 ^ f + 2 ^ j) div 2 ^ Suc j)"
    by (simp only: floor_divide_of_nat_eq)
  then show ?thesis by (simp add: fixed_digits_def)
qed

text \<open>
  C12: A size is shown in the largest binary unit that does not exceed it, rounded to the nearest tenth
  (hundredth for GiB), halves up, with no error from the floating-point divisions.
\<close>

theorem formatBytes_rounds:
  assumes "n \<le> 2 ^ 53"
  defines "fixed \<equiv> \<lambda>f q. (let p = pad_start (Suc f) CHR ''0'' (decimal q); k = length p - f in take k p @ ''.'' @ drop k p)"
  shows "formatBytes n =
    (if n < 2 ^ 10 then decimal n @ '' B''
     else if n < 2 ^ 20 then fixed 1 ((10 * n + 2 ^ 9) div 2 ^ 10) @ '' KiB''
     else if n < 2 ^ 30 then fixed 1 ((10 * n + 2 ^ 19) div 2 ^ 20) @ '' MiB''
     else fixed 2 ((100 * n + 2 ^ 29) div 2 ^ 30) @ '' GiB'')"
proof -
  have d: "js_div (Fin (of_nat n)) (Fin 1024) = Fin (of_nat n / 2 ^ Suc 9)"
    "js_div (Fin (of_nat n / 2 ^ Suc 9)) (Fin 1024) = Fin (of_nat n / 2 ^ Suc 19)"
    "js_div (Fin (of_nat n / 2 ^ Suc 19)) (Fin 1024) = Fin (of_nat n / 2 ^ Suc 29)"
    using js_div_1024 [OF assms(1), of 0] js_div_1024 [OF assms(1), of 10] js_div_1024 [OF assms(1), of 20]
    by simp_all
  have "(of_nat n :: rat) \<le> of_nat (2 ^ 53)" using assms(1) by (simp only: of_nat_le_iff)
  then have small: "\<not> (10 :: rat) ^ 21 \<le> \<bar>of_nat n / 2 ^ Suc j\<bar>" "\<not> (of_nat n / 2 ^ Suc j :: rat) < 0" for j
  proof -
    have "(of_nat n / 2 ^ Suc j :: rat) \<le> of_nat n / 1" by (rule divide_left_mono) (simp_all add: one_le_power del: power_Suc)
    then show "\<not> (10 :: rat) ^ 21 \<le> \<bar>of_nat n / 2 ^ Suc j\<bar>" "\<not> (of_nat n / 2 ^ Suc j :: rat) < 0"
      using \<open>(of_nat n :: rat) \<le> of_nat (2 ^ 53)\<close> by (simp_all add: not_le not_less)
  qed
  have f: "to_fixed f (Fin (of_nat n / 2 ^ Suc j)) = fixed_digits f (of_nat n / 2 ^ Suc j)" for f j
    unfolding to_fixed_def jsnum.case if_not_P [OF small(1)] if_not_P [OF small(2)] ..
  have g: "fixed_digits (Suc m) (of_nat n / 2 ^ Suc j) = fixed (Suc m) ((n * 10 ^ Suc m + 2 ^ j) div 2 ^ Suc j)" for m j
    unfolding fixed_digits_scaled fixed_def by (simp add: Let_def)
  show ?thesis
    unfolding formatBytes_def Let_def d f
    using g [of 0 9] g [of 0 19] g [of 1 29, unfolded Suc_1] by (simp add: mult.commute)
qed

lemma formatBytes_rounds_witness: "formatBytes 1536 = ''1.5 KiB''"
proof -
  have "decimal 15 = ''15''" by (simp add: decimal.simps digit_char_def) code_simp
  then show ?thesis using formatBytes_rounds [of 1536] by (simp add: pad_start_def)
qed

end
