(* ===== verification/Controls.thy ===== *)
theory Controls
  imports Effects Image_Links
begin

text \<open>
  The controls that pages share, \<open>web/src/components/ui\<close>: the copy control
  (\<open>copy-link-control.tsx\<close>), the dropdown menu with its closing animation, its placement and its
  keyboard navigation (\<open>dropdown-menu.tsx\<close>), the select with its encoding of the empty value
  (\<open>select.tsx\<close>), and the preview image (\<open>preview-image.tsx\<close>). Timers are numbered by the order
  of their creation; pixel arithmetic is taken over the rationals.
\<close>

section \<open>Copying links\<close>

definition link_formats :: "link_format list" where
  "link_formats = [Direct, Markdown, Bbcode, Html]"

fun format_text :: "link_format \<Rightarrow> string" where
  "format_text Direct = ''direct''"
| "format_text Markdown = ''markdown''"
| "format_text Html = ''html''"
| "format_text Bbcode = ''bbcode''"

definition formatStorageKey :: string where
  "formatStorageKey = ''imagesilo_link_format''"

definition initialFormat :: "local_storage \<Rightarrow> link_format" where
  "initialFormat w =
     (case readLocalStorage w formatStorageKey of
        None \<Rightarrow> Direct
      | Some v \<Rightarrow> (case find (\<lambda>f. format_text f = v) link_formats of None \<Rightarrow> Direct | Some f \<Rightarrow> f))"

record copy_control =
  cc_images :: "linkable_image list"
  cc_format :: link_format
  cc_open :: bool
  copying :: bool
  copiedText :: "string option"
  feedbackTimer :: "nat option"
  cc_fresh :: nat
  cc_pending :: "(string \<times> link_format \<times> nat) option"

datatype copy_event =
    Images_Changed "linkable_image list"
  | Choose_Format link_format
  | Toggle_Formats
  | Close_Formats
  | Copy_Click
  | Clipboard_Written
  | Clipboard_Rejected
  | Feedback_Elapsed nat
  | Copy_Unmounted

datatype copy_effect =
    Write_Clipboard string
  | Start_Feedback nat
  | Clear_Feedback "nat option"
  | Copy_Toast effect
  | Store_Format string
  | On_Copied link_format

definition cc_init :: "local_storage \<Rightarrow> linkable_image list \<Rightarrow> copy_control" where
  "cc_init w images =
     \<lparr>cc_images = images, cc_format = initialFormat w, cc_open = False, copying = False, copiedText = None,
      feedbackTimer = None, cc_fresh = 0, cc_pending = None\<rparr>"

definition cc_value :: "string \<Rightarrow> copy_control \<Rightarrow> string option" where
  "cc_value origin s = imageLinksText origin (cc_images s) (cc_format s)"

definition copied_shown :: "string \<Rightarrow> copy_control \<Rightarrow> bool" where
  "copied_shown origin s \<longleftrightarrow> copiedText s \<noteq> None \<and> copiedText s = cc_value origin s \<and> 0 < length (cc_images s)"

definition copy_disabled :: "copy_control \<Rightarrow> bool" where
  "copy_disabled s \<longleftrightarrow> copying s \<or> length (cc_images s) = 0"

definition copy_toast :: "nat \<Rightarrow> copy_effect" where
  "copy_toast count =
     Copy_Toast (toast_of Toast_Success (if count = 1 then ''toast.linkCopied'' else ''toast.linksCopied'')
       ''image-links-copy'' [count])"

text \<open>
  A step of the control. The button is disabled while a copy runs, so at most one is in flight; what
  it copies is the value its click saw. A timer that was cleared does not fire.
\<close>

fun copy_step :: "string \<Rightarrow> copy_control \<Rightarrow> copy_event \<Rightarrow> copy_control \<times> copy_effect list" where
  "copy_step origin s (Images_Changed ims) = (s\<lparr>cc_images := ims\<rparr>, [])"
| "copy_step origin s (Choose_Format f) =
     (s\<lparr>cc_format := f, cc_open := False\<rparr>, if f = cc_format s then [] else [Store_Format (format_text f)])"
| "copy_step origin s Toggle_Formats = (s\<lparr>cc_open := \<not> cc_open s\<rparr>, [])"
| "copy_step origin s Close_Formats = (s\<lparr>cc_open := False\<rparr>, [])"
| "copy_step origin s Copy_Click =
     (if copy_disabled s then (s, [])
      else case cc_value origin s of
        None \<Rightarrow> (s, [])
      | Some v \<Rightarrow>
          (s\<lparr>copying := True, cc_pending := Some (v, cc_format s, length (cc_images s))\<rparr>, [Write_Clipboard v]))"
| "copy_step origin s Clipboard_Written =
     (case cc_pending s of None \<Rightarrow> (s, [])
      | Some (v, f, count) \<Rightarrow>
          (s\<lparr>copying := False, cc_pending := None, copiedText := Some v, feedbackTimer := Some (cc_fresh s),
             cc_fresh := Suc (cc_fresh s)\<rparr>,
           [Clear_Feedback (feedbackTimer s), Start_Feedback (cc_fresh s), copy_toast count, On_Copied f]))"
| "copy_step origin s Clipboard_Rejected =
     (case cc_pending s of None \<Rightarrow> (s, [])
      | Some _ \<Rightarrow>
          (s\<lparr>copying := False, cc_pending := None, copiedText := None\<rparr>,
           [Copy_Toast (plain_toast Toast_Error ''toast.copyFailed'' [])]))"
| "copy_step origin s (Feedback_Elapsed k) =
     (if feedbackTimer s = Some k then (s\<lparr>copiedText := None, feedbackTimer := None\<rparr>, []) else (s, []))"
| "copy_step origin s Copy_Unmounted = (s\<lparr>feedbackTimer := None\<rparr>, [Clear_Feedback (feedbackTimer s)])"

text \<open>What the clipboard holds after the control's events, as far as the control wrote it.\<close>

fun clipboard_after :: "string \<Rightarrow> string option \<Rightarrow> copy_control \<Rightarrow> copy_event list \<Rightarrow> string option" where
  "clipboard_after origin c s [] = c"
| "clipboard_after origin c s (e # es) =
     clipboard_after origin
       (if e = Clipboard_Written \<and> cc_pending s \<noteq> None then map_option fst (cc_pending s) else c)
       (fst (copy_step origin s e)) es"

lemma copiedText_clipboard:
  "\<forall>v. copiedText s = Some v \<longrightarrow> c = Some v \<Longrightarrow>
   \<forall>v. copiedText (fst (run_steps (copy_step origin) s es)) = Some v \<longrightarrow> clipboard_after origin c s es = Some v"
proof (induction es arbitrary: s c)
  case (Cons e es)
  have "\<forall>v. copiedText (fst (copy_step origin s e)) = Some v \<longrightarrow>
      (if e = Clipboard_Written \<and> cc_pending s \<noteq> None then map_option fst (cc_pending s) else c) = Some v"
    using Cons.prems by (cases e) (auto split: option.splits)
  from Cons.IH [OF this] show ?case by simp
qed simp



lemma initialFormat_stored:
  "fst (writeLocalStorage (Some (m, False)) formatStorageKey (format_text f)) = w \<Longrightarrow> initialFormat w = f"
  by (cases f) (auto simp: writeLocalStorage_def initialFormat_def readLocalStorage_def link_formats_def)

section \<open>The dropdown menu\<close>

text \<open>
  \<open>mounted\<close> and \<open>closing\<close> with the timer of the closing animation. \<open>Menu_Open b\<close> is a render with
  that value of the prop \<open>open\<close>, followed by the effect on \<open>[mounted, open]\<close> until it is stable; a
  render with the same value runs no effect.
\<close>

record dropdown =
  menu_open :: bool
  mounted :: bool
  closing :: bool
  close_timer :: bool

datatype dropdown_event = Menu_Open bool | Close_Elapsed

datatype dropdown_effect = Set_Close_Timer nat | Clear_Close_Timer

definition dropdown_init :: "bool \<Rightarrow> dropdown" where
  "dropdown_init b = \<lparr>menu_open = b, mounted = b, closing = False, close_timer = False\<rparr>"

fun presence_step :: "nat \<Rightarrow> bool \<Rightarrow> dropdown \<Rightarrow> dropdown_event \<Rightarrow> dropdown \<times> dropdown_effect list" where
  "presence_step ms reduced s (Menu_Open b) =
     (if b = menu_open s then (s, [])
      else
        let out = (if close_timer s then [Clear_Close_Timer] else []) in
        if b then (s\<lparr>menu_open := True, mounted := True, closing := False, close_timer := False\<rparr>, out)
        else if \<not> mounted s then (s\<lparr>menu_open := False, close_timer := False\<rparr>, out)
        else (s\<lparr>menu_open := False, closing := True, close_timer := True\<rparr>,
              out @ [Set_Close_Timer (if reduced then 0 else ms)]))"
| "presence_step ms reduced s Close_Elapsed =
     (if close_timer s then (s\<lparr>mounted := False, closing := False, close_timer := False\<rparr>, []) else (s, []))"

definition dropdown_step :: "bool \<Rightarrow> dropdown \<Rightarrow> dropdown_event \<Rightarrow> dropdown \<times> dropdown_effect list" where
  "dropdown_step = presence_step 140"

definition panel_inert :: "dropdown \<Rightarrow> bool" where
  "panel_inert s \<longleftrightarrow> \<not> menu_open s"

definition dropdown_ok :: "dropdown \<Rightarrow> bool" where
  "dropdown_ok s \<longleftrightarrow> (menu_open s \<longrightarrow> mounted s \<and> \<not> closing s \<and> \<not> close_timer s) \<and>
     (\<not> menu_open s \<longrightarrow> mounted s = close_timer s \<and> closing s = close_timer s)"

interpretation presence: reactive "presence_step ms reduced" dropdown_ok for ms reduced
proof
  fix s e assume "dropdown_ok s"
  then show "dropdown_ok (fst (presence_step ms reduced s e))"
    by (cases e) (auto simp: dropdown_ok_def Let_def)
qed

text \<open>
  The panel of a dropdown or a modal (the closing times \<open>ms\<close> are 140 and 180) is in the page
  whenever it is open; once it is closed it is
  inert and stays only until its closing timer, one of which is running exactly then, so no panel is
  left behind and none disappears while open.
\<close>

theorem dropdown_panel:
  fixes b es ms reduced
  defines "s \<equiv> fst (run_steps (presence_step ms reduced) (dropdown_init b) es)"
  shows "(menu_open s \<longrightarrow> mounted s \<and> \<not> panel_inert s \<and> \<not> close_timer s) \<and>
    (\<not> menu_open s \<longrightarrow> panel_inert s \<and> (mounted s \<longleftrightarrow> close_timer s)) \<and>
    (\<not> menu_open s \<longrightarrow> \<not> mounted (fst (presence_step ms reduced s Close_Elapsed)))"
proof -
  have "dropdown_ok s"
    unfolding s_def by (rule presence.run_inv) (simp add: dropdown_ok_def dropdown_init_def)
  then show ?thesis by (auto simp: dropdown_ok_def panel_inert_def)
qed

lemma dropdown_panel_witness:
  "\<not> mounted (fst (presence_step 140 False (fst (run_steps (presence_step 140 False) (dropdown_init True) [Menu_Open False])) Close_Elapsed))"
  using dropdown_panel [where b = True and es = "[Menu_Open False]" and ms = 140 and reduced = False]
  by (simp add: dropdown_init_def)

subsection \<open>Keyboard\<close>

datatype menu_key = Arrow_Down | Arrow_Up | Key_Home | Key_End | Key_Escape | Key_Tab | Key_Other

datatype menu_action = Focus_Item nat | Close_To_Trigger | Close_Only | Ignore

text \<open>\<open>current\<close> is \<open>indexOf\<close> of the focused item among the \<open>n\<close> items, \<open>None\<close> for \<open>-1\<close>.\<close>

definition menu_next :: "menu_key \<Rightarrow> nat option \<Rightarrow> nat \<Rightarrow> nat" where
  "menu_next k current n =
     (if k = Key_Home then 0
      else if k = Key_End then n - 1
      else case current of
        None \<Rightarrow> if k = Arrow_Down then 0 else n - 1
      | Some i \<Rightarrow> nat ((int i + (if k = Arrow_Down then 1 else - 1) + int n) mod int n))"

definition menu_keydown :: "bool \<Rightarrow> menu_key \<Rightarrow> nat option \<Rightarrow> nat \<Rightarrow> menu_action" where
  "menu_keydown inside k current n =
     (if \<not> inside then Ignore
      else if k = Key_Escape then Close_To_Trigger
      else if k = Key_Tab then Close_Only
      else if k \<notin> {Arrow_Down, Arrow_Up, Key_Home, Key_End} then Ignore
      else if n = 0 then Ignore
      else Focus_Item (menu_next k current n))"

lemma menu_next_down: "i < n \<Longrightarrow> menu_next Arrow_Down (Some i) n = Suc i mod n"
  by (simp add: menu_next_def nat_mod_as_int add.commute)

lemma menu_next_up: "i < n \<Longrightarrow> menu_next Arrow_Up (Some i) n = (if i = 0 then n - 1 else i - 1)"
proof (cases i)
  case (Suc j)
  assume "i < n"
  have "(int i + - 1 + int n) mod int n = int j mod int n" using Suc by simp
  then show ?thesis using Suc \<open>i < n\<close> by (simp add: menu_next_def)
next
  case 0
  assume "i < n"
  then have e: "int i + - 1 + int n = int (n - 1)" using 0 by (simp add: of_nat_diff)
  have "(int i + - 1 + int n) mod int n = int (n - 1)" unfolding e using \<open>i < n\<close> by (intro mod_pos_pos_trivial) simp_all
  then show ?thesis using 0 by (simp add: menu_next_def)
qed

lemma menu_walk: "i < n \<Longrightarrow> ((\<lambda>i. menu_next Arrow_Down (Some i) n) ^^ k) i = (i + k) mod n"
proof (induction k)
  case (Suc k)
  have "(i + k) mod n < n" using Suc.prems by simp
  with Suc show ?case by (simp add: menu_next_down mod_Suc_eq)
qed simp

text \<open>
  The arrow keys of a menu move cyclically: every key gives the index of an item, Up undoes Down
  and Down undoes Up, and from any item Down visits every item.
\<close>

theorem menu_keys:
  assumes "i < n"
  shows "menu_next k (Some i) n < n \<and> menu_next k None n < n \<and>
    menu_next Arrow_Up (Some (menu_next Arrow_Down (Some i) n)) n = i \<and>
    menu_next Arrow_Down (Some (menu_next Arrow_Up (Some i) n)) n = i \<and>
    (\<lambda>k. ((\<lambda>i. menu_next Arrow_Down (Some i) n) ^^ k) i) ` {..<n} = {..<n}"
proof -
  have n: "0 < n" using assms by simp
  have lt: "nat ((int i + d + int n) mod int n) < n" for d
  proof -
    have "(int i + d + int n) mod int n < int n" "0 \<le> (int i + d + int n) mod int n" using n by simp_all
    then show ?thesis by linarith
  qed
  have ud: "menu_next Arrow_Up (Some (menu_next Arrow_Down (Some i) n)) n = i"
    using assms by (cases "Suc i = n") (simp_all add: menu_next_down menu_next_up)
  have du: "menu_next Arrow_Down (Some (menu_next Arrow_Up (Some i) n)) n = i"
    using assms by (cases i) (simp_all add: menu_next_down menu_next_up)
  have "(\<lambda>k. ((\<lambda>i. menu_next Arrow_Down (Some i) n) ^^ k) i) ` {..<n} = {..<n}"
  proof (rule equalityI)
    show "(\<lambda>k. ((\<lambda>i. menu_next Arrow_Down (Some i) n) ^^ k) i) ` {..<n} \<subseteq> {..<n}"
      using assms n by (auto simp: menu_walk)
    show "{..<n} \<subseteq> (\<lambda>k. ((\<lambda>i. menu_next Arrow_Down (Some i) n) ^^ k) i) ` {..<n}"
    proof
      fix j assume "j \<in> {..<n}"
      then have j: "j < n" by simp
      define k where "k = (j + n - i) mod n"
      have "(i + k) mod n = (i + (j + n - i)) mod n" unfolding k_def by (simp add: mod_simps)
      also have "\<dots> = j" using assms j by simp
      finally have "((\<lambda>i. menu_next Arrow_Down (Some i) n) ^^ k) i = j" using assms by (simp add: menu_walk)
      moreover have "k < n" using n by (simp add: k_def)
      ultimately show "j \<in> (\<lambda>k. ((\<lambda>i. menu_next Arrow_Down (Some i) n) ^^ k) i) ` {..<n}" by force
    qed
  qed
  moreover have "menu_next k (Some i) n < n" "menu_next k None n < n"
    using n lt by (simp_all add: menu_next_def)
  ultimately show ?thesis using ud du by blast
qed

lemma menu_keys_witness: "menu_next Arrow_Up (Some (menu_next Arrow_Down (Some 2) 3)) 3 = 2"
  using menu_keys [of 2 3] by simp

subsection \<open>Placement\<close>

text \<open>
  The rectangle of the trigger (left, right, top, bottom), the panel's natural size, the viewport, and
  whether the style prefers the side above: the panel's left edge, its side and its largest height.
\<close>

record menu_place =
  panel_left :: rat
  opensAbove :: bool
  panel_max_height :: rat

definition place_menu ::
    "bool \<Rightarrow> bool \<Rightarrow> rat \<Rightarrow> rat \<Rightarrow> rat \<Rightarrow> rat \<Rightarrow> rat \<Rightarrow> rat \<Rightarrow> rat \<Rightarrow> rat \<Rightarrow> menu_place" where
  "place_menu align_left preferAbove rect_left rect_right rect_top rect_bottom w h innerWidth innerHeight =
     (let desired = (if align_left then rect_left else rect_right - w);
          viewportX = max 12 (min desired (innerWidth - w - 12));
          above = max 0 (rect_top - 24); below = max 0 (innerHeight - rect_bottom - 20);
          up = (if preferAbove then h \<le> above \<or> below < above else below < h \<and> below < above)
      in \<lparr>panel_left = viewportX, opensAbove = up, panel_max_height = max 44 (if up then above else below)\<rparr>)"

text \<open>
  An open menu stays inside the viewport horizontally whenever it is narrow enough, and it opens on
  a side where it fits in full height whenever there is one.
\<close>

theorem menu_fits:
  fixes rect_left rect_right rect_top rect_bottom w h innerWidth innerHeight :: rat and a u :: bool
  assumes "w + 24 \<le> innerWidth"
  defines "p \<equiv> place_menu a u rect_left rect_right rect_top rect_bottom w h innerWidth innerHeight"
  shows "12 \<le> panel_left p \<and> panel_left p + w \<le> innerWidth - 12 \<and>
    (0 < h \<and> (h \<le> rect_top - 24 \<or> h \<le> innerHeight - rect_bottom - 20) \<longrightarrow>
     h \<le> panel_max_height p \<and> (if opensAbove p then h \<le> rect_top - 24 else h \<le> innerHeight - rect_bottom - 20))"
  using assms(1) by (auto simp: p_def place_menu_def Let_def max_def min_def)

lemma menu_fits_witness:
  "12 \<le> panel_left (place_menu True False 900 950 100 120 200 300 1000 800) \<and>
   panel_left (place_menu True False 900 950 100 120 200 300 1000 800) + 200 \<le> 988"
  using menu_fits [where w = 200 and innerWidth = 1000 and a = True and u = False and rect_left = 900 and rect_right = 950
      and rect_top = 100 and rect_bottom = 120 and h = 300 and innerHeight = 800] by simp

section \<open>The select\<close>

definition emptyValue :: string where
  "emptyValue = ''__imagesilo_empty__''"

definition encodeValue :: "string \<Rightarrow> string" where
  "encodeValue v = (if v = [] then emptyValue else v)"

definition decodeValue :: "string \<Rightarrow> string" where
  "decodeValue v = (if v = emptyValue then [] else v)"

record select =
  controlled :: "string option"
  internalValue :: string
  default_value :: string

datatype select_event = Pick string | Form_Reset

definition selectedValue :: "select \<Rightarrow> string" where
  "selectedValue s = (case controlled s of None \<Rightarrow> internalValue s | Some v \<Rightarrow> v)"

text \<open>Picking an option of the list, and the reset of the enclosing form; the output is \<open>onValueChange\<close>.\<close>

fun select_step :: "select \<Rightarrow> select_event \<Rightarrow> select \<times> string list" where
  "select_step s (Pick encoded) =
     (let v = decodeValue encoded in (if controlled s = None then s\<lparr>internalValue := v\<rparr> else s, [v]))"
| "select_step s Form_Reset = (if controlled s = None then s\<lparr>internalValue := default_value s\<rparr> else s, [])"

lemma decode_encode_value: "v \<noteq> emptyValue \<Longrightarrow> decodeValue (encodeValue v) = v"
  by (simp add: decodeValue_def encodeValue_def)

lemma encodeValue_nonempty: "encodeValue v \<noteq> []"
  by (simp add: encodeValue_def emptyValue_def)

text \<open>
  Picking an option reports that option's own value, also the empty one, which the list shows under
  a stand-in; distinct values have distinct stand-ins, none of them empty; a select without a fixed
  value then shows it.
\<close>

theorem select_pick:
  assumes "v \<noteq> emptyValue" "v' \<noteq> emptyValue"
  shows "snd (select_step s (Pick (encodeValue v))) = [v] \<and>
    (controlled s = None \<longrightarrow> selectedValue (fst (select_step s (Pick (encodeValue v)))) = v) \<and>
    (encodeValue v = encodeValue v' \<longleftrightarrow> v = v') \<and> encodeValue v \<noteq> []"
proof -
  have "encodeValue v = encodeValue v' \<longleftrightarrow> v = v'" using assms by (simp add: encodeValue_def)
  moreover have "snd (select_step s (Pick (encodeValue v))) = [v]"
    "controlled s = None \<longrightarrow> selectedValue (fst (select_step s (Pick (encodeValue v)))) = v"
    by (simp_all add: selectedValue_def Let_def decode_encode_value [OF assms(1)])
  ultimately show ?thesis using encodeValue_nonempty by blast
qed

lemma select_pick_witness:
  "snd (select_step \<lparr>controlled = None, internalValue = ''a'', default_value = ''a''\<rparr> (Pick (encodeValue []))) = [[]]"
  using select_pick [of "[]" "''a''" "\<lparr>controlled = None, internalValue = ''a'', default_value = ''a''\<rparr>"]
  by (simp add: emptyValue_def)

section \<open>The preview image\<close>

datatype preview_event = Ref_Attached bool nat | Loaded | Load_Error

text \<open>The settled source after an event of an element that shows \<open>src\<close>.\<close>

fun preview_step :: "string \<Rightarrow> string option \<Rightarrow> preview_event \<Rightarrow> string option" where
  "preview_step src settled (Ref_Attached decoded naturalWidth) =
     (if decoded \<and> 0 < naturalWidth then Some src else settled)"
| "preview_step src settled Loaded = Some src"
| "preview_step src settled Load_Error = Some src"

definition preview_ready :: "string \<Rightarrow> string option \<Rightarrow> bool" where
  "preview_ready src settled \<longleftrightarrow> settled = Some src"

lemma preview_settles: "preview_ready src (preview_step src settled Loaded)" "preview_ready src (preview_step src settled Load_Error)"
  by (simp_all add: preview_ready_def)

end
