(* ===== verification/Calendar.thy ===== *)
theory Calendar
  imports Js_Text
begin

text \<open>
  Local dates as ECMAScript defines them, and the functions on dates of
  \<open>web/src/components/ui/date-picker.tsx\<close>. A \<open>Date\<close> is the number of its local day (the code reads
  only year, month, day and weekday), months count from 0 as \<open>getMonth\<close> does. The constructor
  \<open>new Date(y, m, d)\<close> carries months and days over and takes a year from 0 to 99 as one of the
  twentieth century. Dates outside the range of \<open>Date\<close> (beyond the year 275760) are left out.
\<close>

section \<open>Days, years and months\<close>

definition day_from_year :: "int \<Rightarrow> int" where
  "day_from_year y = 365 * (y - 1970) + (y - 1969) div 4 - (y - 1901) div 100 + (y - 1601) div 400"

definition leap :: "int \<Rightarrow> bool" where
  "leap y \<longleftrightarrow> y mod 4 = 0 \<and> (y mod 100 \<noteq> 0 \<or> y mod 400 = 0)"

definition year_of :: "int \<Rightarrow> int" where
  "year_of t =
     (let y = 1970 + (400 * t) div 146097
      in if day_from_year (y + 1) \<le> t then y + 1 else if day_from_year y \<le> t then y else y - 1)"

definition month_lengths :: "bool \<Rightarrow> int list" where
  "month_lengths l = [31, if l then 29 else 28, 31, 30, 31, 30, 31, 31, 30, 31, 30, 31]"

definition month_start :: "bool \<Rightarrow> nat \<Rightarrow> int" where
  "month_start l m = sum_list (take m (month_lengths l))"

definition month_of :: "int \<Rightarrow> nat" where
  "month_of t =
     (let y = year_of t in length (filter (\<lambda>m. month_start (leap y) m \<le> t - day_from_year y) [1..<12]))"

definition date_of :: "int \<Rightarrow> int" where
  "date_of t = (let y = year_of t in t - day_from_year y - month_start (leap y) (month_of t) + 1)"

text \<open>The day of the week, Sunday being 0.\<close>

definition weekday :: "int \<Rightarrow> int" where
  "weekday t = (t + 4) mod 7"

definition make_day :: "int \<Rightarrow> int \<Rightarrow> int \<Rightarrow> int" where
  "make_day y m d =
     (let y' = y + m div 12 in day_from_year y' + month_start (leap y') (nat (m mod 12)) + d - 1)"

text \<open>The constructor with local components.\<close>

definition new_date :: "int \<Rightarrow> int \<Rightarrow> int \<Rightarrow> int" where
  "new_date y m d = make_day (if 0 \<le> y \<and> y \<le> 99 then 1900 + y else y) m d"

section \<open>Functions of the date picker\<close>

definition startOfMonth :: "int \<Rightarrow> int" where
  "startOfMonth t = new_date (year_of t) (int (month_of t)) 1"

definition startOfDay :: "int \<Rightarrow> int" where
  "startOfDay t = new_date (year_of t) (int (month_of t)) (date_of t)"

definition addMonths :: "int \<Rightarrow> int \<Rightarrow> int" where
  "addMonths t amount = new_date (year_of t) (int (month_of t) + amount) 1"

definition calendarDays :: "int \<Rightarrow> int list" where
  "calendarDays month =
     (let start = new_date (year_of month) (int (month_of month)) (1 - weekday month)
      in map (\<lambda>i. new_date (year_of start) (int (month_of start)) (date_of start + i)) [0..41])"

definition int_text :: "int \<Rightarrow> string" where
  "int_text n = (if n < 0 then CHR ''-'' # decimal (nat (- n)) else decimal (nat n))"

definition toDateValue :: "int \<Rightarrow> string" where
  "toDateValue t =
     int_text (year_of t) @ ''-'' @ pad_start 2 CHR ''0'' (int_text (int (month_of t) + 1)) @ ''-'' @
     pad_start 2 CHR ''0'' (int_text (date_of t))"

text \<open>The match of the pattern: its three groups.\<close>

definition match_date :: "string \<Rightarrow> (string \<times> string \<times> string) option" where
  "match_date s =
     (if length s = 10 \<and> list_all is_digit (take 4 s) \<and> s ! 4 = CHR ''-'' \<and>
         list_all is_digit (take 2 (drop 5 s)) \<and> s ! 7 = CHR ''-'' \<and> list_all is_digit (drop 8 s)
      then Some (take 4 s, take 2 (drop 5 s), drop 8 s) else None)"

definition parseDate :: "string \<Rightarrow> int option" where
  "parseDate s =
     (case match_date s of None \<Rightarrow> None
      | Some (ys, ms, ds) \<Rightarrow>
          let y = int (digits_value ys); m = int (digits_value ms) - 1; d = int (digits_value ds);
              t = new_date y m d
          in if year_of t \<noteq> y \<or> int (month_of t) \<noteq> m \<or> date_of t \<noteq> d then None else Some t)"

section \<open>The calendar\<close>

lemma div_step:
  fixes x k :: int
  assumes "0 < k"
  shows "(x + 1) div k = x div k + (if (x + 1) mod k = 0 then 1 else 0)"
proof (cases "(x + 1) mod k = 0")
  case True
  have "x = k * ((x + 1) div k - 1) + (k - 1)" using True mult_div_mod_eq [of k "x + 1"] by (simp add: algebra_simps)
  then have "x div k = (x + 1) div k - 1" by (rule int_div_pos_eq) (use assms in auto)
  then show ?thesis using True by simp
next
  case False
  have eq: "x = k * ((x + 1) div k) + ((x + 1) mod k - 1)" using mult_div_mod_eq [of k "x + 1"] by linarith
  have b: "0 \<le> (x + 1) mod k" "(x + 1) mod k < k" using assms by simp_all
  have "x div k = (x + 1) div k" by (rule int_div_pos_eq [OF eq]) (use b False in linarith)+
  then show ?thesis using False by simp
qed

lemma mod_shift: "(y + c * k) mod k = y mod (k :: int)"
  by (rule mod_mult_self1)

lemma day_from_year_Suc: "day_from_year (y + 1) = day_from_year y + (if leap y then 366 else 365)"
proof -
  have m: "(y - 1969 + 1) mod 4 = y mod 4" "(y - 1901 + 1) mod 100 = y mod 100" "(y - 1601 + 1) mod 400 = y mod 400"
  proof -
    have "y - 1969 + 1 = y + - 492 * 4" "y - 1901 + 1 = y + - 19 * 100" "y - 1601 + 1 = y + - 4 * 400" by simp_all
    then show "(y - 1969 + 1) mod 4 = y mod 4" "(y - 1901 + 1) mod 100 = y mod 100" "(y - 1601 + 1) mod 400 = y mod 400"
      by (simp_all only: mod_shift)
  qed
  have d4: "y mod 4 = 0" if "y mod 100 = 0"
    using that dvd_trans [of 4 100 y] by (simp only: mod_eq_0_iff_dvd) simp
  have d100: "y mod 100 = 0" if "y mod 400 = 0"
    using that dvd_trans [of 100 400 y] by (simp only: mod_eq_0_iff_dvd) simp
  note steps = div_step [of 4 "y - 1969", OF zero_less_numeral] div_step [of 100 "y - 1901", OF zero_less_numeral]
    div_step [of 400 "y - 1601", OF zero_less_numeral]
  have arith: "365 * (y + 1 - 1970) + (a + p) - (b + q) + (c + r) = 365 * (y - 1970) + a - b + c + 365 + p - q + r"
    for a b c p q r :: int by simp
  have e: "day_from_year (y + 1) = 365 * (y + 1 - 1970) + (y - 1969 + 1) div 4 - (y - 1901 + 1) div 100 + (y - 1601 + 1) div 400"
    by (simp add: day_from_year_def algebra_simps)
  have "day_from_year (y + 1) = day_from_year y + 365 + (if y mod 4 = 0 then 1 else 0) - (if y mod 100 = 0 then 1 else 0) +
     (if y mod 400 = 0 then 1 else 0)"
    unfolding e unfolding day_from_year_def steps m by (rule arith)
  then show ?thesis using d4 d100 by (cases "y mod 4 = 0"; cases "y mod 100 = 0"; cases "y mod 400 = 0") (simp_all add: leap_def)
qed

lemma floor_bounds: "(0::int) < k \<Longrightarrow> k * (x div k) \<le> x \<and> x \<le> k * (x div k) + k - 1"
  by (smt (verit) mult_div_mod_eq pos_mod_bound pos_mod_sign)

lemma year_bounds:
  fixes t y :: int
  assumes "y = (400 * t) div 146097"
  shows "day_from_year (1970 + y - 1) \<le> t" "t < day_from_year (1970 + y + 2)"
proof -
  have a: "146097 * y \<le> 400 * t" "400 * t \<le> 146097 * y + 146096"
    using assms floor_bounds [of 146097 "400 * t"] by auto
  show "day_from_year (1970 + y - 1) \<le> t"
    unfolding day_from_year_def
    using a floor_bounds [of 4 "1970 + y - 1 - 1969"] floor_bounds [of 100 "1970 + y - 1 - 1901"]
      floor_bounds [of 400 "1970 + y - 1 - 1601"] by simp
  show "t < day_from_year (1970 + y + 2)" unfolding day_from_year_def 
    using a floor_bounds [of 4 "1970 + y + 2 - 1969"] floor_bounds [of 100 "1970 + y + 2 - 1901"]
      floor_bounds [of 400 "1970 + y + 2 - 1601"] by simp
qed

lemma day_from_year_mono: "y \<le> y' \<Longrightarrow> day_from_year y \<le> day_from_year y'"
proof (induction "nat (y' - y)" arbitrary: y')
  case (Suc n)
  then have "day_from_year y \<le> day_from_year (y' - 1)" by auto
  then show ?case using day_from_year_Suc [of "y' - 1"] by (simp split: if_splits)
qed simp

lemma year_of_bounds: "day_from_year (year_of t) \<le> t \<and> t < day_from_year (year_of t + 1)"
proof -
  define y where "y = (400 * t) div 146097"
  have b: "day_from_year (1970 + y - 1) \<le> t" "t < day_from_year (1970 + y + 2)"
    using year_bounds [OF y_def] by auto
  have e: "year_of t = (if day_from_year (1970 + y + 1) \<le> t then 1970 + y + 1
      else if day_from_year (1970 + y) \<le> t then 1970 + y else 1970 + y - 1)"
    by (simp add: year_of_def y_def Let_def)
  show ?thesis unfolding e using b by (simp add: add.commute add.left_commute)
qed

lemma year_of_unique: "day_from_year y \<le> t \<Longrightarrow> t < day_from_year (y + 1) \<Longrightarrow> year_of t = y"
  using year_of_bounds [of t] day_from_year_mono [of "y + 1" "year_of t"] day_from_year_mono [of "year_of t + 1" y]
  by (cases "year_of t" y rule: linorder_cases) auto

definition month_in :: "bool \<Rightarrow> int \<Rightarrow> nat" where
  "month_in l doy = length (filter (\<lambda>m. month_start l m \<le> doy) [1..<12])"

lemma month_of_in: "month_of t = month_in (leap (year_of t)) (t - day_from_year (year_of t))"
  by (simp add: month_of_def month_in_def Let_def)

lemma month_start_Suc: "month_start l m \<le> month_start l (Suc m)"
proof (cases "m < 12")
  case True
  then have len: "m < length (month_lengths l)" by (simp add: month_lengths_def)
  then have "month_start l (Suc m) = month_start l m + month_lengths l ! m"
    by (simp add: month_start_def take_Suc_conv_app_nth)
  moreover have "\<forall>x \<in> set (month_lengths l). 0 \<le> x" by (simp add: month_lengths_def)
  then have "0 \<le> month_lengths l ! m" using nth_mem [OF len] by blast
  ultimately show ?thesis by simp
qed (simp add: month_start_def month_lengths_def)

lemma month_start_mono: "m \<le> m' \<Longrightarrow> month_start l m \<le> month_start l m'"
  by (rule lift_Suc_mono_le [of "month_start l"]) (rule month_start_Suc)

lemma month_start_ends [simp]: "month_start l 0 = 0" "month_start l 12 = (if l then 366 else 365)"
  by (simp_all add: month_start_def month_lengths_def)

lemma count_le:
  fixes f :: "nat \<Rightarrow> int"
  assumes mono: "\<And>m m'. m \<le> m' \<Longrightarrow> f m \<le> f m'" and "f 0 \<le> x"
  shows "let n = length (filter (\<lambda>m. f m \<le> x) [1..<Suc k]) in n \<le> k \<and> f n \<le> x \<and> (n < k \<longrightarrow> x < f (Suc n))"
proof (induction k)
  case (Suc k)
  define n where "n = length (filter (\<lambda>m. f m \<le> x) [1..<Suc k])"
  have ih: "n \<le> k" "f n \<le> x" "n < k \<Longrightarrow> x < f (Suc n)" using Suc unfolding n_def [symmetric] Let_def by auto
  have split: "[1..<Suc (Suc k)] = [1..<Suc k] @ [Suc k]" by simp
  have eq: "length (filter (\<lambda>m. f m \<le> x) [1..<Suc (Suc k)]) = (if f (Suc k) \<le> x then Suc n else n)"
    unfolding split filter_append length_append n_def [symmetric] by simp
  show ?case
  proof (cases "f (Suc k) \<le> x")
    case True
    then have "n = k" using ih(1,3) mono [of "Suc n" "Suc k"] by (cases "n < k") auto
    then show ?thesis unfolding eq Let_def using True by simp
  next
    case False
    then have "x < f (Suc n)" using ih(1,3) by (cases "n = k") auto
    then show ?thesis unfolding eq Let_def using False ih by simp
  qed
qed (use assms in simp)

lemma month_in_bounds:
  assumes "0 \<le> doy" "doy < (if l then 366 else 365)"
  shows "month_in l doy < 12" "month_start l (month_in l doy) \<le> doy" "doy < month_start l (Suc (month_in l doy))"
proof -
  have b: "month_in l doy \<le> 11" "month_start l (month_in l doy) \<le> doy"
    "month_in l doy < 11 \<longrightarrow> doy < month_start l (Suc (month_in l doy))"
    using count_le [of "month_start l" doy 11] month_start_mono assms(1) by (simp_all add: month_in_def Let_def)
  then show "month_in l doy < 12" "month_start l (month_in l doy) \<le> doy" by auto
  show "doy < month_start l (Suc (month_in l doy))"
  proof (cases "month_in l doy = 11")
    case True
    then show ?thesis using assms(2) by simp
  qed (use b in auto)
qed

lemma month_in_unique:
  assumes "m < 12" "month_start l m \<le> doy" "doy < month_start l (Suc m)"
  shows "month_in l doy = m"
proof -
  have "0 \<le> doy" using assms(2) month_start_mono [of 0 m l] by simp
  moreover have "doy < (if l then 366 else 365)"
    using assms(1,3) month_start_mono [of "Suc m" 12 l] by simp
  ultimately have b: "month_start l (month_in l doy) \<le> doy" "doy < month_start l (Suc (month_in l doy))"
    by (rule month_in_bounds)+
  show ?thesis
    using b assms(2,3) month_start_mono [of "Suc m" "month_in l doy" l] month_start_mono [of "Suc (month_in l doy)" m l]
    by (cases "month_in l doy" m rule: linorder_cases) auto
qed

section \<open>Components of a date\<close>

definition month_length :: "int \<Rightarrow> nat \<Rightarrow> int" where
  "month_length y m = month_start (leap y) (Suc m) - month_start (leap y) m"

lemma date_components:
  "month_of t < 12" "1 \<le> date_of t" "date_of t \<le> month_length (year_of t) (month_of t)"
  "make_day (year_of t) (int (month_of t)) (date_of t) = t"
proof -
  have d: "0 \<le> t - day_from_year (year_of t)" "t - day_from_year (year_of t) < (if leap (year_of t) then 366 else 365)"
    using year_of_bounds [of t] day_from_year_Suc [of "year_of t"] by auto
  note b = month_in_bounds [OF d, folded month_of_in]
  show m: "month_of t < 12" by (rule b)
  show "1 \<le> date_of t" "date_of t \<le> month_length (year_of t) (month_of t)"
    using b(2,3) by (simp_all add: date_of_def Let_def month_length_def)
  show "make_day (year_of t) (int (month_of t)) (date_of t) = t"
    using m by (simp add: make_day_def date_of_def Let_def)
qed

lemma components_make_day:
  assumes "m < 12" "1 \<le> d" "d \<le> month_length y m"
  shows "year_of (make_day y (int m) d) = y" "month_of (make_day y (int m) d) = m" "date_of (make_day y (int m) d) = d"
proof -
  define t where "t = make_day y (int m) d"
  have t: "t = day_from_year y + month_start (leap y) m + d - 1" using assms(1) by (simp add: t_def make_day_def)
  have doy: "month_start (leap y) m \<le> t - day_from_year y" "t - day_from_year y < month_start (leap y) (Suc m)"
    using assms(2,3) by (simp_all add: t month_length_def)
  have "year_of t = y"
    using doy month_start_mono [of 0 m "leap y"] month_start_mono [of "Suc m" 12 "leap y"] assms(1)
    by (intro year_of_unique) (auto simp: day_from_year_Suc)
  moreover from this have "month_of t = m" using month_in_unique [OF assms(1) doy] by (simp add: month_of_in)
  ultimately show "year_of (make_day y (int m) d) = y" "month_of (make_day y (int m) d) = m"
    "date_of (make_day y (int m) d) = d"
    unfolding t_def [symmetric] by (simp_all add: date_of_def Let_def t)
qed

lemma make_day_add: "make_day y m (d + k) = make_day y m d + k"
  by (simp add: make_day_def Let_def)

lemma weekday_range: "0 \<le> weekday t" "weekday t < 7"
  by (simp_all add: weekday_def)

text \<open>Years the constructor takes as they are.\<close>

definition plain_year :: "int \<Rightarrow> bool" where
  "plain_year y \<longleftrightarrow> \<not> (0 \<le> y \<and> y \<le> 99)"

lemma new_date_plain: "plain_year y \<Longrightarrow> new_date y m d = make_day y m d"
  unfolding new_date_def plain_year_def by auto

lemma new_date_components:
  "plain_year (year_of t) \<Longrightarrow> new_date (year_of t) (int (month_of t)) (date_of t + k) = t + k"
  by (simp add: new_date_plain make_day_add date_components)

lemma startOfDay_plain: "plain_year (year_of t) \<Longrightarrow> startOfDay t = t"
  using new_date_components [of t 0] by (simp add: startOfDay_def)

lemma year_of_mono: "s \<le> t \<Longrightarrow> year_of s \<le> year_of t"
  using year_of_bounds [of s] year_of_bounds [of t] day_from_year_mono [of "year_of t + 1" "year_of s"]
  by (cases "year_of s \<le> year_of t") auto

section \<open>Dates as text\<close>

lemma match_date_iff:
  "match_date s = Some (ys, ms, ds) \<longleftrightarrow>
     s = ys @ ''-'' @ ms @ ''-'' @ ds \<and> length ys = 4 \<and> length ms = 2 \<and> length ds = 2 \<and>
     list_all is_digit ys \<and> list_all is_digit ms \<and> list_all is_digit ds"
  (is "?l \<longleftrightarrow> ?r")
proof
  assume ?l
  then have m: "length s = 10" "s ! 4 = CHR ''-''" "s ! 7 = CHR ''-''" "ys = take 4 s" "ms = take 2 (drop 5 s)" "ds = drop 8 s"
    "list_all is_digit ys" "list_all is_digit ms" "list_all is_digit ds"
    by (auto simp: match_date_def split: if_splits)
  have "s = take 4 s @ s ! 4 # take 2 (drop 5 s) @ s ! 7 # drop 8 s"
  proof -
    have a: "s ! 4 # drop (Suc 4) s = drop 4 s" "s ! 7 # drop (Suc 7) s = drop 7 s"
      by (rule Cons_nth_drop_Suc, simp add: m(1))+
    have "drop 5 s = take 2 (drop 5 s) @ drop 2 (drop 5 s)" by (rule append_take_drop_id [symmetric])
    then have "drop 5 s = take 2 (drop 5 s) @ s ! 7 # drop 8 s" using a(2) by simp
    then have "drop 4 s = s ! 4 # take 2 (drop 5 s) @ s ! 7 # drop 8 s" using a(1) by simp
    then show ?thesis using append_take_drop_id [of 4 s] by metis
  qed
  then show ?r using m by simp
next
  assume ?r
  then show ?l by (simp add: match_date_def nth_append list_all_append)
qed

lemma parseDate_iff:
  "parseDate s = Some t \<longleftrightarrow>
     (\<exists>ys ms ds. match_date s = Some (ys, ms, ds) \<and> plain_year (year_of t) \<and> year_of t = int (digits_value ys) \<and>
        int (month_of t) + 1 = int (digits_value ms) \<and> date_of t = int (digits_value ds))"
  (is "?l \<longleftrightarrow> ?r")
proof
  assume ?l
  then obtain ys ms ds where m: "match_date s = Some (ys, ms, ds)"
    "t = new_date (int (digits_value ys)) (int (digits_value ms) - 1) (int (digits_value ds))"
    "year_of t = int (digits_value ys)" "int (month_of t) = int (digits_value ms) - 1" "date_of t = int (digits_value ds)"
    by (auto simp: parseDate_def Let_def split: option.splits if_splits)
  have "plain_year (year_of t)"
  proof (rule ccontr)
    assume "\<not> plain_year (year_of t)"
    then have q: "0 \<le> year_of t" "year_of t \<le> 99" by (auto simp: plain_year_def)
    then have "t = make_day (1900 + year_of t) (int (month_of t)) (date_of t)"
      using m by (simp add: new_date_def)
    moreover have "make_day (1900 + year_of t) (int (month_of t)) (date_of t) \<ge> day_from_year (1900 + year_of t)"
      using date_components(1,2) [of t] month_start_mono [of 0 "month_of t" "leap (1900 + year_of t)"]
      by (simp add: make_day_def Let_def)
    moreover have "t < day_from_year (year_of t + 1)" using year_of_bounds by blast
    moreover have "day_from_year (year_of t + 1) \<le> day_from_year (1900 + year_of t)" by (rule day_from_year_mono) simp
    ultimately show False by linarith
  qed
  then show ?r using m by auto
next
  assume ?r
  then obtain ys ms ds where m: "match_date s = Some (ys, ms, ds)" "plain_year (year_of t)"
    "year_of t = int (digits_value ys)" "int (month_of t) + 1 = int (digits_value ms)" "date_of t = int (digits_value ds)"
    by blast
  have mo: "int (digits_value ms) - 1 = int (month_of t)" using m(4) by simp
  have "new_date (int (digits_value ys)) (int (digits_value ms) - 1) (int (digits_value ds)) = t"
    using new_date_components [OF m(2), of 0] by (simp only: m(3)[symmetric] m(5)[symmetric] mo add_0_right)
  then show ?l unfolding parseDate_def m(1) by (simp only: option.case prod.case Let_def m(3) m(5) mo) simp
qed

lemma zero_char: "CHR ''0'' = digit_char 0"
  by (simp add: digit_char_def) code_simp

lemma digits_below: "list_all is_digit s \<Longrightarrow> length s = 2 \<Longrightarrow> digits_value s < 100"
  using digits_value_less [of s] by simp

lemma pad_two: "list_all is_digit s \<Longrightarrow> length s = 2 \<Longrightarrow> pad_start 2 CHR ''0'' (decimal (digits_value s)) = s"
  unfolding zero_char by (rule pad_start_digits_value) simp_all

lemma decimal_four:
  assumes "1000 \<le> n" "n \<le> 9999"
  shows "length (decimal n) = 4"
proof -
  have "length (decimal n) \<le> 4" using length_decimal [of n 4] assms by simp
  moreover have "10 ^ 3 < (10 :: nat) ^ length (decimal n)"
    using digits_value_less [OF decimal_digits, of n] assms(1) digits_value_less [of "decimal n"] decimal_digits
    by (cases "length (decimal n) \<le> 3") (use power_increasing [of "length (decimal n)" 3 "10 :: nat"] in auto)
  then have "3 < length (decimal n)" by (rule power_less_imp_less_exp [rotated]) simp
  ultimately show ?thesis by simp
qed

lemma pad_two_nat:
  assumes "n < 100"
  shows "length (pad_start 2 CHR ''0'' (decimal n)) = 2" "list_all is_digit (pad_start 2 CHR ''0'' (decimal n))"
    "digits_value (pad_start 2 CHR ''0'' (decimal n)) = n"
proof -
  have "length (decimal n) \<le> 2" using length_decimal [of n 2] assms by simp
  then show "length (pad_start 2 CHR ''0'' (decimal n)) = 2" by (rule length_pad_start)
  show "list_all is_digit (pad_start 2 CHR ''0'' (decimal n))"
    using decimal_digits [of n] by (auto simp: pad_start_def zero_char list_all_iff)
  show "digits_value (pad_start 2 CHR ''0'' (decimal n)) = n"
    by (simp add: pad_start_def zero_char digits_value_replicate0)
qed

lemma int_text_nat [simp]: "int_text (int n) = decimal n"
  by (simp add: int_text_def)

lemma month_length_le:
  assumes "m < 12"
  shows "month_length y m \<le> 31"
proof -
  have len: "m < length (month_lengths (leap y))" using assms by (simp add: month_lengths_def)
  have "\<forall>x \<in> set (month_lengths l). x \<le> 31" for l by (simp add: month_lengths_def)
  then have "month_lengths (leap y) ! m \<le> 31" using nth_mem [OF len] by blast
  then show ?thesis by (simp add: month_length_def month_start_def take_Suc_conv_app_nth [OF len])
qed

lemma month_length_pos: "m < 12 \<Longrightarrow> 28 \<le> month_length y m"
proof -
  assume "m < 12"
  then have len: "m < length (month_lengths (leap y))" by (simp add: month_lengths_def)
  have "\<forall>x \<in> set (month_lengths l). 28 \<le> x" for l by (simp add: month_lengths_def)
  then have "28 \<le> month_lengths (leap y) ! m" using nth_mem [OF len] by blast
  then show ?thesis by (simp add: month_length_def month_start_def take_Suc_conv_app_nth [OF len])
qed

lemma date_of_bound: "date_of t < 100"
  using date_components(3) [of t] month_length_le [OF date_components(1), of "year_of t" t] by linarith

lemma toDateValue_parsed: "parseDate s = Some t \<Longrightarrow> toDateValue t = s \<longleftrightarrow> 1000 \<le> year_of t"
proof -
  assume "parseDate s = Some t"
  then obtain ys ms ds where m: "match_date s = Some (ys, ms, ds)"
    "year_of t = int (digits_value ys)" "int (month_of t) + 1 = int (digits_value ms)" "date_of t = int (digits_value ds)"
    unfolding parseDate_iff by blast
  have parts: "s = ys @ ''-'' @ ms @ ''-'' @ ds" "length ys = 4" "length ms = 2" "length ds = 2"
    "list_all is_digit ys" "list_all is_digit ms" "list_all is_digit ds"
    using m(1) unfolding match_date_iff by auto
  have v: "toDateValue t = decimal (digits_value ys) @ ''-'' @ ms @ ''-'' @ ds"
    unfolding toDateValue_def m(2,3,4) int_text_nat using parts by (simp add: pad_two)
  have "digits_value ys < 10 ^ 4" using digits_value_less [OF parts(5)] parts(2) by simp
  have "length (decimal (digits_value ys)) = 4 \<longleftrightarrow> 1000 \<le> digits_value ys"
    using decimal_four [of "digits_value ys"] length_decimal [of "digits_value ys" 3] \<open>digits_value ys < 10 ^ 4\<close>
    by (cases "1000 \<le> digits_value ys") auto
  moreover have "decimal (digits_value ys) = ys" if "length (decimal (digits_value ys)) = 4"
    using pad_start_digits_value [OF parts(5) parts(2)] that by (simp add: pad_start_def)
  ultimately show "toDateValue t = s \<longleftrightarrow> 1000 \<le> year_of t"
    unfolding v parts(1) m(2) using parts(2) by auto
qed

text \<open>
  Reading a date and writing it again gives back the text for every year from 1000 on, and writing
  a date of the years 1000 to 9999 and reading it gives back the day. Only existing days are read, so
  the thirtieth of February is refused; years below 1000 lose their leading zero in writing.
\<close>

theorem date_text_roundtrip:
  "(parseDate s = Some t \<longrightarrow> (toDateValue t = s \<longleftrightarrow> 1000 \<le> year_of t)) \<and>
   (1000 \<le> year_of t \<and> year_of t \<le> 9999 \<longrightarrow> parseDate (toDateValue t) = Some t)"
proof (intro conjI impI)
  assume "parseDate s = Some t"
  then show "toDateValue t = s \<longleftrightarrow> 1000 \<le> year_of t" by (rule toDateValue_parsed)
next
  assume y: "1000 \<le> year_of t \<and> year_of t \<le> 9999"
  define ys where "ys = decimal (nat (year_of t))"
  define ms where "ms = pad_start 2 CHR ''0'' (decimal (Suc (month_of t)))"
  define ds where "ds = pad_start 2 CHR ''0'' (decimal (nat (date_of t)))"
  have b: "Suc (month_of t) < 100" "nat (date_of t) < 100" "0 \<le> date_of t"
    using date_components(1,2) [of t] date_of_bound [of t] by auto
  have n: "1000 \<le> nat (year_of t)" "nat (year_of t) \<le> 9999" using y by linarith+
  have v: "toDateValue t = ys @ ''-'' @ ms @ ''-'' @ ds"
    unfolding toDateValue_def ys_def ms_def ds_def using y b(3)
    by (simp add: int_text_def nat_add_distrib)
  have "match_date (toDateValue t) = Some (ys, ms, ds)"
    unfolding match_date_iff v
    using decimal_four [OF n] y b pad_two_nat decimal_digits by (simp add: ys_def ms_def ds_def)
  then show "parseDate (toDateValue t) = Some t"
    unfolding parseDate_iff using y b pad_two_nat by (auto simp: ys_def ms_def ds_def plain_year_def)
qed

lemma date_text_roundtrip_witness:
  "toDateValue 19782 = ''2024-02-29'' \<and> parseDate ''2024-02-29'' = Some 19782"
proof -
  have "toDateValue 19782 = ''2024-02-29''" "year_of 19782 = 2024" by code_simp+
  then show ?thesis using date_text_roundtrip [of "''2024-02-29''" 19782] by simp
qed

section \<open>The grid of a month\<close>

lemma startOfMonth_plain:
  assumes "plain_year (year_of t)"
  shows "year_of (startOfMonth t) = year_of t" "month_of (startOfMonth t) = month_of t" "date_of (startOfMonth t) = 1"
    "startOfMonth t = t - date_of t + 1"
proof -
  have b: "1 \<le> month_length (year_of t) (month_of t)" using date_components(2,3) [of t] by linarith
  have e: "startOfMonth t = make_day (year_of t) (int (month_of t)) 1"
    using assms by (simp add: startOfMonth_def new_date_plain)
  show "year_of (startOfMonth t) = year_of t" "month_of (startOfMonth t) = month_of t" "date_of (startOfMonth t) = 1"
    unfolding e using components_make_day [OF date_components(1) _ b] by simp_all
  have "make_day (year_of t) (int (month_of t)) (date_of t + (1 - date_of t)) = t + (1 - date_of t)"
    unfolding make_day_add using date_components(4) [of t] by simp
  then show "startOfMonth t = t - date_of t + 1" unfolding e by simp
qed

lemma year_of_back:
  assumes "100 < year_of t" "t - 365 \<le> s"
  shows "plain_year (year_of s)" "100 \<le> year_of s"
proof -
  have h: "day_from_year 101 = day_from_year 100 + 365" using day_from_year_Suc [of 100] by (simp add: leap_def)
  have "day_from_year 101 \<le> t"
    using year_of_bounds [of t] day_from_year_mono [of 101 "year_of t"] assms(1) by linarith
  then have "day_from_year 100 \<le> s" using h assms(2) by linarith
  moreover have "year_of (day_from_year 100) = 100" by (rule year_of_unique) (use h in simp_all)
  ultimately show "100 \<le> year_of s" using year_of_mono by metis
  then show "plain_year (year_of s)" by (simp add: plain_year_def)
qed

lemma calendar_weeks:
  assumes "100 < year_of month" "date_of month = 1"
  defines "s \<equiv> month - weekday month"
  shows "calendarDays month = map (\<lambda>i. s + i) [0..41] \<and> weekday s = 0 \<and>
    {month .. month + month_length (year_of month) (month_of month) - 1} \<subseteq> set (calendarDays month)"
proof -
  have w: "0 \<le> weekday month" "weekday month \<le> 6" using weekday_range [of month] by auto
  have pl: "plain_year (year_of month)" using assms(1) by (simp add: plain_year_def)
  have st: "new_date (year_of month) (int (month_of month)) (1 - weekday month) = s"
    using new_date_components [OF pl, of "- weekday month"] assms(2) by (simp add: s_def)
  have ps: "plain_year (year_of s)" by (rule year_of_back [OF assms(1)]) (use w in \<open>simp add: s_def\<close>)
  have days: "calendarDays month = map (\<lambda>i. s + i) [0..41]"
    unfolding calendarDays_def Let_def st new_date_components [OF ps] ..
  have "(\<lambda>i. s + i) ` {0..41} = {s .. s + 41}" using image_add_atLeastAtMost [of s 0 41] by simp
  then have set: "set (calendarDays month) = {s .. s + 41}" unfolding days by simp
  have "weekday s = 0" by (simp add: s_def weekday_def mod_simps algebra_simps)
  then show ?thesis
    using days month_length_le [of "month_of month" "year_of month"] date_components(1) [of month] w
    unfolding set by (auto simp: s_def)
qed

text \<open>
  The grid of a month is six whole weeks of consecutive days from a Sunday on, and it shows every day
  of the month.
\<close>

theorem calendar_grid:
  assumes "100 < year_of month" "date_of month = 1"
  defines "s \<equiv> month - weekday month"
  shows "calendarDays month = map (\<lambda>i. s + i) [0..41] \<and> weekday s = 0 \<and>
    {month .. month + month_length (year_of month) (month_of month) - 1} \<subseteq> set (calendarDays month)"
  unfolding s_def by (rule calendar_weeks [OF assms(1,2)])

lemma calendar_grid_witness:
  "calendarDays 19754 = map (\<lambda>i. 19750 + i) [0..41] \<and> weekday 19750 = 0"
proof -
  have "100 < year_of 19754" "date_of 19754 = 1" "weekday 19754 = 4" by code_simp+
  then show ?thesis using calendar_grid [of 19754] by simp
qed

end
