(* ===== verification/Date_Picker.thy ===== *)
theory Date_Picker
  imports Calendar Controls
begin

text \<open>
  The date picker of \<open>web/src/components/ui/date-picker.tsx\<close>: what its trigger, its days, its
  buttons and its keys do. Days react to the pointer and the keyboard only while they are shown and
  enabled; a disabled button does nothing. The effect that focuses a day after a move of the focus is
  part of the step that moves it.
\<close>

section \<open>The source\<close>

record date_picker =
  dp_value :: string
  dp_min :: string
  dp_open :: bool
  focusedDate :: string
  visibleMonth :: int

datatype day_key = Day_Left | Day_Right | Day_Up | Day_Down | Day_Home | Day_End | Page_Up | Page_Down

datatype picker_event =
    Trigger_Click int
  | Day_Key day_key bool int
  | Month_Button int
  | Day_Click int
  | Today_Click int
  | Clear_Click
  | Escape_Inside
  | Press_Outside
  | Day_Focus int
  | Value_Prop string

datatype picker_effect = On_Change string | Return_Focus | Focus_Date string

definition selected :: "date_picker \<Rightarrow> int option" where
  "selected s = parseDate (dp_value s)"

definition minimum :: "date_picker \<Rightarrow> int option" where
  "minimum s = parseDate (dp_min s)"

definition below_minimum :: "date_picker \<Rightarrow> int \<Rightarrow> bool" where
  "below_minimum s d \<longleftrightarrow> (case minimum s of None \<Rightarrow> False | Some m \<Rightarrow> startOfDay d < startOfDay m)"

definition day_enabled :: "date_picker \<Rightarrow> int \<Rightarrow> bool" where
  "day_enabled s d \<longleftrightarrow> dp_open s \<and> d \<in> set (calendarDays (visibleMonth s)) \<and> \<not> below_minimum s d"

definition clamp_date :: "date_picker \<Rightarrow> int \<Rightarrow> int" where
  "clamp_date s d = (case minimum s of None \<Rightarrow> d | Some m \<Rightarrow> if startOfDay d < startOfDay m then m else d)"

text \<open>\<open>moveFocus\<close>; the effect focuses the day when the popover is open.\<close>

definition moveFocus :: "int \<Rightarrow> date_picker \<Rightarrow> date_picker" where
  "moveFocus d s =
     s\<lparr>focusedDate := toDateValue (clamp_date s d), visibleMonth := startOfMonth (clamp_date s d)\<rparr>"

definition navigate_target :: "day_key \<Rightarrow> bool \<Rightarrow> int \<Rightarrow> int" where
  "navigate_target k shift d =
     (let step = (\<lambda>off. new_date (year_of d) (int (month_of d)) (date_of d + off));
          page = (\<lambda>sign. let month = addMonths d (sign * (if shift then 12 else 1));
                             lastDay = date_of (new_date (year_of month) (int (month_of month) + 1) 0)
                         in new_date (year_of month) (int (month_of month)) (min (date_of d) lastDay))
      in case k of
           Day_Left \<Rightarrow> step (- 1) | Day_Right \<Rightarrow> step 1 | Day_Up \<Rightarrow> step (- 7) | Day_Down \<Rightarrow> step 7
         | Day_Home \<Rightarrow> step (- weekday d) | Day_End \<Rightarrow> step (6 - weekday d)
         | Page_Up \<Rightarrow> page (- 1) | Page_Down \<Rightarrow> page 1)"

definition previous_disabled :: "date_picker \<Rightarrow> bool" where
  "previous_disabled s \<longleftrightarrow>
     (case minimum s of None \<Rightarrow> False | Some m \<Rightarrow> visibleMonth s \<le> startOfMonth m)"

definition changeMonth :: "int \<Rightarrow> date_picker \<Rightarrow> date_picker" where
  "changeMonth amount s =
     (let month = addMonths (visibleMonth s) amount
      in s\<lparr>visibleMonth := month, focusedDate := toDateValue (clamp_date s month)\<rparr>)"

definition selectDate :: "int \<Rightarrow> date_picker \<Rightarrow> date_picker \<times> picker_effect list" where
  "selectDate d s =
     (if below_minimum s d then (s, [])
      else (s\<lparr>visibleMonth := startOfMonth d, dp_open := False\<rparr>, [On_Change (toDateValue d), Return_Focus]))"

definition closeOutside :: "date_picker \<Rightarrow> date_picker \<times> picker_effect list" where
  "closeOutside s = (s\<lparr>dp_open := False\<rparr>, [])"

definition closeOnEscape :: "date_picker \<Rightarrow> date_picker \<times> picker_effect list" where
  "closeOnEscape s = (if dp_open s then (s\<lparr>dp_open := False\<rparr>, [Return_Focus]) else (s, []))"

definition showPicker :: "int \<Rightarrow> date_picker \<Rightarrow> date_picker \<times> picker_effect list" where
  "showPicker today s =
     (if dp_open s then (s\<lparr>dp_open := False\<rparr>, [])
      else let s' = moveFocus (case selected s of None \<Rightarrow> today | Some d \<Rightarrow> d) s
           in (s'\<lparr>dp_open := True\<rparr>, [Focus_Date (focusedDate s')]))"

text \<open>\<open>Trigger_Click\<close> and \<open>Today_Click\<close> carry the current day, \<open>Month_Button\<close> is \<open>- 1\<close> or \<open>1\<close>.\<close>

fun picker_step :: "date_picker \<Rightarrow> picker_event \<Rightarrow> date_picker \<times> picker_effect list" where
  "picker_step s (Trigger_Click today) = showPicker today s"
| "picker_step s (Day_Key k shift d) =
     (if day_enabled s d
      then let s' = moveFocus (navigate_target k shift d) s in (s', [Focus_Date (focusedDate s')])
      else (s, []))"
| "picker_step s (Month_Button amount) =
     (if \<not> dp_open s \<or> (amount = - 1 \<and> previous_disabled s) \<or> amount \<notin> {- 1, 1} then (s, [])
      else (changeMonth amount s, []))"
| "picker_step s (Day_Click d) = (if day_enabled s d then selectDate d s else (s, []))"
| "picker_step s (Today_Click today) = (if dp_open s then selectDate today s else (s, []))"
| "picker_step s Clear_Click =
     (if dp_open s \<and> dp_value s \<noteq> [] then (s\<lparr>dp_open := False\<rparr>, [On_Change [], Return_Focus]) else (s, []))"
| "picker_step s Escape_Inside = closeOnEscape s"
| "picker_step s Press_Outside = closeOutside s"
| "picker_step s (Day_Focus d) = (if day_enabled s d then s\<lparr>focusedDate := toDateValue d\<rparr> else s, [])"
| "picker_step s (Value_Prop v) = (s\<lparr>dp_value := v\<rparr>, [])"

definition picker_init :: "string \<Rightarrow> string \<Rightarrow> int \<Rightarrow> date_picker" where
  "picker_init v mn today =
     (let d = (case parseDate v of None \<Rightarrow> today | Some d \<Rightarrow> d)
      in \<lparr>dp_value = v, dp_min = mn, dp_open = False, focusedDate = toDateValue d, visibleMonth = startOfMonth d\<rparr>)"

text \<open>
  The popover beside the trigger's rectangle, and the scroll position of the popover after it reveals
  the focused day (its top and bottom edge against those of the popover's content).
\<close>

definition place_picker :: "rat \<Rightarrow> rat \<Rightarrow> rat \<Rightarrow> rat \<Rightarrow> rat \<Rightarrow> rat \<Rightarrow> rat \<Rightarrow> menu_place" where
  "place_picker rect_left rect_top rect_bottom w h innerWidth innerHeight =
     (let x = max 12 (min rect_left (innerWidth - w - 12));
          above = max 0 (rect_top - 20); below = max 0 (innerHeight - rect_bottom - 20);
          up = (below < h \<and> below < above)
      in \<lparr>panel_left = x, opensAbove = up, panel_max_height = max 44 (if up then above else below)\<rparr>)"

definition reveal_day :: "rat \<Rightarrow> rat \<Rightarrow> rat \<Rightarrow> rat \<Rightarrow> rat \<Rightarrow> rat" where
  "reveal_day panel_top panel_bottom day_top day_bottom scrollTop =
     (if day_top < panel_top then scrollTop + (day_top - panel_top)
      else if panel_bottom < day_bottom then scrollTop + (day_bottom - panel_bottom) else scrollTop)"

text \<open>The seven days whose names head the columns.\<close>

definition weekday_days :: "int list" where
  "weekday_days = map (\<lambda>i. new_date 2024 0 (date_of (new_date 2024 0 7) + i)) [0..6]"

lemma weekday_columns: "map weekday weekday_days = [0..6]"
  by code_simp

lemma reveal_day_visible:
  fixes c :: rat
  assumes "day_bottom - day_top \<le> panel_bottom - panel_top"
  defines "k \<equiv> reveal_day panel_top panel_bottom day_top day_bottom c - c"
  shows "panel_top \<le> day_top - k \<and> day_bottom - k \<le> panel_bottom"
  using assms by (auto simp: reveal_day_def)

section \<open>Months\<close>

lemma month_gap:
  assumes "date_of u = 1" "date_of v = 1" "u < v"
  shows "u + month_length (year_of u) (month_of u) \<le> v"
proof (rule ccontr)
  assume *: "\<not> ?thesis"
  have "make_day (year_of u) (int (month_of u)) (1 + (v - u)) = v"
    using date_components(4) [of u] assms(1) by (simp add: make_day_add)
  moreover have "date_of (make_day (year_of u) (int (month_of u)) (1 + (v - u))) = 1 + (v - u)"
    using * assms(3) by (intro components_make_day(3) date_components(1)) auto
  ultimately show False using assms by simp
qed

text \<open>A day that keyboard and calendar can handle: after the year 100, and not before the minimum.\<close>

definition usable :: "int \<Rightarrow> int \<Rightarrow> bool" where
  "usable m d \<longleftrightarrow> m \<le> d \<and> 100 < year_of d"

lemma usable_plain: "100 < year_of m \<Longrightarrow> m \<le> d \<Longrightarrow> usable m d \<and> plain_year (year_of d)"
  using year_of_mono [of m d] by (auto simp: usable_def plain_year_def)

definition month_shown :: "int \<Rightarrow> int \<Rightarrow> bool" where
  "month_shown m v \<longleftrightarrow> date_of v = 1 \<and> startOfMonth m \<le> v"

lemma startOfMonth_le:
  assumes "100 < year_of m" "m \<le> d"
  shows "startOfMonth m \<le> startOfMonth d"
proof (rule ccontr)
  note pm = startOfMonth_plain [OF conjunct2 [OF usable_plain [OF assms(1) order_refl]]]
  note pd = startOfMonth_plain [OF conjunct2 [OF usable_plain [OF assms]]]
  assume "\<not> ?thesis"
  then have "startOfMonth d + month_length (year_of (startOfMonth d)) (month_of (startOfMonth d)) \<le> startOfMonth m"
    using month_gap [OF pd(3) pm(3)] by simp
  then show False
    using date_components(3) [of d] date_components(2) [of m] pd pm assms(2) by simp
qed

lemma month_shown_year:
  assumes "100 < year_of m" "month_shown m v"
  shows "100 < year_of v"
proof -
  note pm = startOfMonth_plain [OF conjunct2 [OF usable_plain [OF assms(1) order_refl]]]
  show ?thesis using assms pm(1) year_of_mono [of "startOfMonth m" v] by (simp add: month_shown_def)
qed

lemma shown_after_move:
  assumes "100 < year_of m" "m \<le> d"
  shows "month_shown m (startOfMonth d) \<and> d \<in> set (calendarDays (startOfMonth d))"
proof -
  note pd = startOfMonth_plain [OF conjunct2 [OF usable_plain [OF assms]]]
  have ms: "month_shown m (startOfMonth d)" using startOfMonth_le [OF assms] pd(3) by (simp add: month_shown_def)
  have "{startOfMonth d .. startOfMonth d + month_length (year_of d) (month_of d) - 1} \<subseteq> set (calendarDays (startOfMonth d))"
    using calendar_weeks [OF month_shown_year [OF assms(1) ms] pd(3)] unfolding pd(1,2) by blast
  then show ?thesis using ms pd(4) date_components(2,3) [of d] by auto
qed

lemma previous_month:
  assumes y: "100 < year_of m" and v: "month_shown m v" and gt: "startOfMonth m < v"
  shows "month_shown m (addMonths v (- 1)) \<and> addMonths v (- 1) < v"
proof -
  note pm = startOfMonth_plain [OF conjunct2 [OF usable_plain [OF y order_refl]]]
  have yv: "100 < year_of v" by (rule month_shown_year [OF y v])
  have d1: "date_of v = 1" using v by (simp add: month_shown_def)
  define p where "p = startOfMonth (v - 1)"
  have pv: "plain_year (year_of (v - 1))" by (rule year_of_back [OF yv]) simp
  note pp = startOfMonth_plain [OF pv]
  have pu: "plain_year (year_of v)" using yv by (simp add: plain_year_def)
  have e: "addMonths v (- 1) = p"
  proof (cases "month_of v = 0")
    case False
    then obtain k where k: "month_of v = Suc k" by (cases "month_of v") auto
    have "1 \<le> month_length (year_of v) k" using month_length_pos [of k "year_of v"] date_components(1) [of v] k by simp
    have "make_day (year_of v) (int k) (month_length (year_of v) k) = v - 1"
      using date_components(4) [of v] k d1 date_components(1) [of v]
      by (simp add: make_day_def month_length_def Let_def del: of_nat_Suc)
    then have "year_of (v - 1) = year_of v" "month_of (v - 1) = k"
      using components_make_day [of k "month_length (year_of v) k" "year_of v"] \<open>1 \<le> _\<close> k date_components(1) [of v] by auto
    then show ?thesis using k by (simp add: addMonths_def p_def startOfMonth_def)
  next
    case True
    have "v = day_from_year (year_of v)" using date_components(4) [of v] True d1 by (simp add: make_day_def)
    then have "v = day_from_year (year_of v - 1) + (if leap (year_of v - 1) then 366 else 365)"
      using day_from_year_Suc [of "year_of v - 1"] by simp
    then have "make_day (year_of v - 1) (int 11) (month_length (year_of v - 1) 11) = v - 1"
      by (simp add: make_day_def month_length_def)
    then have "year_of (v - 1) = year_of v - 1" "month_of (v - 1) = 11"
      using components_make_day [of 11 "month_length (year_of v - 1) 11" "year_of v - 1"] month_length_pos [of 11 "year_of v - 1"]
      by auto
    moreover have "new_date (year_of v) (- 1) 1 = new_date (year_of v - 1) 11 1"
      using pu yv by (simp add: new_date_def make_day_def Let_def)
    ultimately show ?thesis using True by (simp add: addMonths_def p_def startOfMonth_def)
  qed
  have "p < v" using pp(4) date_components(2) [of "v - 1"] by (simp add: p_def)
  moreover have "startOfMonth m \<le> p"
  proof (rule ccontr)
    assume "\<not> startOfMonth m \<le> p"
    then have "p + month_length (year_of p) (month_of p) \<le> startOfMonth m"
      using month_gap [of p "startOfMonth m"] pp(3) pm(3) by (simp add: p_def)
    then show False using pp date_components(3) [of "v - 1"] gt by (simp add: p_def)
  qed
  ultimately show ?thesis unfolding e using pp(3) by (simp add: month_shown_def p_def)
qed

lemma next_month:
  assumes y: "100 < year_of m" and v: "month_shown m v"
  shows "month_shown m (addMonths v 1)"
proof -
  have yv: "100 < year_of v" by (rule month_shown_year [OF y v])
  have pv: "plain_year (year_of v)" using yv by (simp add: plain_year_def)
  have d1: "date_of v = 1" using v by (simp add: month_shown_def)
  have b: "1 \<le> month_length y' k" if "k < 12" for y' k using month_length_pos [OF that, of y'] by simp
  have e: "addMonths v 1 = make_day (year_of v) (int (month_of v) + 1) 1" using pv by (simp add: addMonths_def new_date_plain)
  show ?thesis
  proof (cases "month_of v = 11")
    case True
    have e': "addMonths v 1 = make_day (year_of v + 1) (int 0) 1" unfolding e using True by (simp add: make_day_def)
    have "date_of (addMonths v 1) = 1" unfolding e' using components_make_day(3) [of 0 1] b [of 0] by simp
    moreover have "v \<le> addMonths v 1"
      unfolding e' using year_of_bounds [of v] by (simp add: make_day_def)
    ultimately show ?thesis using v by (simp add: month_shown_def)
  next
    case False
    then have k: "Suc (month_of v) < 12" using date_components(1) [of v] by simp
    have e': "addMonths v 1 = make_day (year_of v) (int (Suc (month_of v))) 1" unfolding e by (simp add: add.commute)
    have "date_of (addMonths v 1) = 1" unfolding e' using components_make_day(3) [OF k] b [OF k] by simp
    moreover have "v \<le> addMonths v 1"
      unfolding e' using date_components(4) [of v] d1 month_start_Suc [of "leap (year_of v)" "month_of v"] k
      by (simp add: make_day_def Let_def del: of_nat_Suc)
    ultimately show ?thesis using v by (simp add: month_shown_def)
  qed
qed

section \<open>The invariant\<close>

text \<open>With a minimum after the year 100: what holds while the popover is open, and of what is reported.\<close>

definition picker_ok :: "int \<Rightarrow> date_picker \<Rightarrow> bool" where
  "picker_ok m s \<longleftrightarrow> minimum s = Some m \<and>
     (dp_open s \<longrightarrow> month_shown m (visibleMonth s) \<and>
        (\<exists>d \<in> set (calendarDays (visibleMonth s)). m \<le> d \<and> toDateValue d = focusedDate s))"

definition reported_ok :: "int \<Rightarrow> picker_effect \<Rightarrow> bool" where
  "reported_ok m x \<longleftrightarrow> (\<forall>v. x = On_Change v \<longrightarrow> v = [] \<or> (\<exists>d. m \<le> d \<and> v = toDateValue d))"

definition sane_picker :: "picker_event \<Rightarrow> bool" where
  "sane_picker e \<longleftrightarrow> (case e of Trigger_Click t \<Rightarrow> 100 < year_of t | Today_Click t \<Rightarrow> 100 < year_of t | _ \<Rightarrow> True)"

lemma clamp_date_ge:
  assumes "minimum s = Some m" "100 < year_of m" "plain_year (year_of d)"
  shows "m \<le> clamp_date s d"
  using assms usable_plain [OF assms(2) order_refl] by (simp add: clamp_date_def startOfDay_plain)

lemma moveFocus_ok:
  assumes m: "minimum s = Some m" "100 < year_of m" and d: "plain_year (year_of d)" and s': "s' = (moveFocus d s)\<lparr>dp_open := b\<rparr>"
  shows "picker_ok m s'"
proof -
  have c: "m \<le> clamp_date s d" by (rule clamp_date_ge [OF m d])
  have "minimum s' = Some m" using m(1) by (simp add: s' moveFocus_def minimum_def)
  then show ?thesis
    using shown_after_move [OF m(2) c] c by (auto simp: picker_ok_def s' moveFocus_def)
qed

lemma addMonths_plain:
  assumes "100 < year_of d" "k = 1 \<or> k = 12 \<or> k = - 1 \<or> k = - 12"
  shows "100 \<le> year_of (addMonths d k)" "date_of (addMonths d k) = 1"
proof -
  have p: "plain_year (year_of d)" using assms(1) by (simp add: plain_year_def)
  define y where "y = year_of d + (int (month_of d) + k) div 12"
  define mo where "mo = nat ((int (month_of d) + k) mod 12)"
  have mo: "mo < 12" by (simp add: mo_def nat_less_iff)
  have "addMonths d k = make_day y (int mo) 1"
    using p by (simp add: addMonths_def new_date_plain make_day_def y_def mo_def Let_def)
  moreover have b: "1 \<le> month_length y mo" using month_length_pos [OF mo, of y] by simp
  moreover have "year_of d - 1 \<le> y" using assms(2) date_components(1) [of d] by (auto simp: y_def)
  ultimately show "100 \<le> year_of (addMonths d k)" "date_of (addMonths d k) = 1"
    using components_make_day [OF mo _ b] assms(1) by simp_all
qed

lemma navigate_plain:
  assumes "100 < year_of d"
  shows "plain_year (year_of (navigate_target k shift d))"
proof -
  have p: "plain_year (year_of d)" using assms by (simp add: plain_year_def)
  have step: "plain_year (year_of (new_date (year_of d) (int (month_of d)) (date_of d + off)))" if "- 365 \<le> off" for off
    unfolding new_date_components [OF p] by (rule year_of_back(1) [OF assms]) (use that in simp)
  have page: "plain_year (year_of (new_date (year_of mo) (int (month_of mo)) (min (date_of d) (date_of (new_date (year_of mo) (int (month_of mo) + 1) 0)))))"
    if "mo = addMonths d (sg * (if shift then 12 else 1))" "sg = 1 \<or> sg = - 1" for mo sg
  proof -
    have k: "sg * (if shift then 12 else 1) \<in> {1, 12, - 1, - 12}" using that(2) by auto
    have mo: "100 \<le> year_of mo" "date_of mo = 1"
      unfolding that(1) by (rule addMonths_plain [OF assms], use k in blast)+
    then have pm: "plain_year (year_of mo)" by (simp add: plain_year_def)
    define q where "q = min (date_of d) (date_of (new_date (year_of mo) (int (month_of mo) + 1) 0))"
    have "1 \<le> q" using date_components(2) by (simp add: q_def)
    then have "mo \<le> new_date (year_of mo) (int (month_of mo)) q"
      using new_date_components [OF pm, of "q - 1"] mo(2) by simp
    then have "100 \<le> year_of (new_date (year_of mo) (int (month_of mo)) q)"
      using year_of_mono mo(1) order_trans by blast
    then show ?thesis unfolding q_def [symmetric] plain_year_def by simp
  qed
  have w: "- 365 \<le> - weekday d" "- 365 \<le> 6 - weekday d" using weekday_range [of d] by simp_all
  show ?thesis
  proof (cases k)
    case Page_Up
    show ?thesis unfolding navigate_target_def Let_def Page_Up day_key.case by (rule page [OF refl]) simp
  next
    case Page_Down
    show ?thesis unfolding navigate_target_def Let_def Page_Down day_key.case by (rule page [OF refl]) simp
  qed (unfold navigate_target_def Let_def, simp_all only: day_key.case, (rule step, use w in simp)+)
qed

lemma startOfMonth_shown:
  assumes "100 < year_of m" "minimum s = Some m" "month_shown m v"
  shows "\<exists>d \<in> set (calendarDays v). m \<le> d \<and> toDateValue d = toDateValue (clamp_date s v)"
proof -
  have yv: "100 < year_of v" and d1: "date_of v = 1" using assms(3) month_shown_year [OF assms(1,3)] by (auto simp: month_shown_def)
  have pl: "plain_year (year_of v)" "plain_year (year_of m)" using yv assms(1) by (simp_all add: plain_year_def)
  note grid = calendar_weeks [OF yv d1]
  have len: "28 \<le> month_length (year_of v) (month_of v)" using month_length_pos date_components(1) by blast
  show ?thesis
  proof (cases "v < m")
    case True
    note pm = startOfMonth_plain [OF pl(2)]
    have "startOfMonth m = v"
    proof (rule ccontr)
      assume "startOfMonth m \<noteq> v"
      then have "startOfMonth m < v" using assms(3) by (simp add: month_shown_def)
      then show False
        using month_gap [OF pm(3) d1] date_components(3) [of m] True unfolding pm(1,2) using pm(4) by linarith
    qed
    then have "m \<in> {v .. v + month_length (year_of v) (month_of v) - 1}"
      using pm date_components(2,3) [of m] by auto
    then have "m \<in> set (calendarDays v)" using grid by blast
    moreover have "clamp_date s v = m" using True assms(2) pl by (simp add: clamp_date_def startOfDay_plain)
    ultimately show ?thesis by (intro bexI [of _ m]) simp_all
  next
    case False
    have "v \<in> {v .. v + month_length (year_of v) (month_of v) - 1}" using len by simp
    then have "v \<in> set (calendarDays v)" using grid by blast
    moreover have "clamp_date s v = v" using False assms(2) pl by (simp add: clamp_date_def startOfDay_plain)
    ultimately show ?thesis using False by (intro bexI [of _ v]) simp_all
  qed
qed

lemma calendar_days_plain:
  assumes "100 < year_of v" "date_of v = 1" "d \<in> set (calendarDays v)"
  shows "plain_year (year_of d)"
proof -
  have "v - 6 \<le> d" using calendar_weeks [OF assms(1,2)] assms(3) weekday_range [of v] by auto
  then show ?thesis by (intro year_of_back(1) [OF assms(1)]) simp
qed

lemma enabled_day:
  assumes y: "100 < year_of m" and ok: "picker_ok m s" and e: "day_enabled s d"
  shows "m \<le> d \<and> 100 < year_of d"
proof -
  have v: "month_shown m (visibleMonth s)" using ok e by (simp add: picker_ok_def day_enabled_def)
  have "plain_year (year_of d)"
    using calendar_days_plain [OF month_shown_year [OF y v]] v e by (simp add: month_shown_def day_enabled_def)
  moreover have "plain_year (year_of m)" using y by (simp add: plain_year_def)
  ultimately have "m \<le> d" using ok e by (simp add: day_enabled_def below_minimum_def picker_ok_def startOfDay_plain)
  then show ?thesis using usable_plain [OF y] by (simp add: usable_def)
qed

lemma picker_ok_frame:
  "picker_ok m s \<Longrightarrow> dp_min s' = dp_min s \<Longrightarrow> (dp_open s' \<Longrightarrow> dp_open s \<and> visibleMonth s' = visibleMonth s \<and> focusedDate s' = focusedDate s)
   \<Longrightarrow> picker_ok m s'"
  by (auto simp: picker_ok_def minimum_def)

lemma parseDate_plain: "parseDate v = Some d \<Longrightarrow> plain_year (year_of d)"
  unfolding parseDate_iff by blast

lemma selectDate_ok:
  assumes "100 < year_of m" "picker_ok m s" "plain_year (year_of d)"
  shows "picker_ok m (fst (selectDate d s))" "x \<in> set (snd (selectDate d s)) \<Longrightarrow> reported_ok m x"
proof -
  have "plain_year (year_of m)" using assms(1) by (simp add: plain_year_def)
  then have "below_minimum s d \<longleftrightarrow> d < m" using assms by (simp add: below_minimum_def picker_ok_def startOfDay_plain)
  then show "picker_ok m (fst (selectDate d s))" "x \<in> set (snd (selectDate d s)) \<Longrightarrow> reported_ok m x"
    using assms(2) by (auto simp: selectDate_def reported_ok_def not_less elim: picker_ok_frame)
qed

lemma picker_step_ok:
  assumes y: "100 < year_of m" and ok: "picker_ok m s" and e: "sane_picker e"
  shows "picker_ok m (fst (picker_step s e)) \<and> (\<forall>x \<in> set (snd (picker_step s e)). reported_ok m x)"
proof -
  have mn: "minimum s = Some m" using ok by (simp add: picker_ok_def)
  note frame = picker_ok_frame [OF ok]
  show ?thesis
  proof (cases e)
    case (Trigger_Click t)
    have "plain_year (year_of (case selected s of None \<Rightarrow> t | Some d \<Rightarrow> d))"
      using e Trigger_Click parseDate_plain by (auto simp: selected_def sane_picker_def plain_year_def split: option.splits)
    from moveFocus_ok [OF mn y this refl, of True] show ?thesis
      using Trigger_Click by (auto simp: showPicker_def Let_def reported_ok_def intro: frame)
  next
    case (Day_Key k shift d)
    have "picker_ok m (moveFocus (navigate_target k shift d) s)" if "day_enabled s d"
      using moveFocus_ok [OF mn y navigate_plain [where d = d and k = k and shift = shift] refl, of "dp_open s"] enabled_day [OF y ok that]
      by (simp add: moveFocus_def)
    then show ?thesis using Day_Key ok by (auto simp: Let_def reported_ok_def)
  next
    case (Month_Button a)
    have "picker_ok m (changeMonth a s)" if "dp_open s" "a = - 1 \<longrightarrow> \<not> previous_disabled s" "a = 1 \<or> a = - 1"
    proof -
      have v: "month_shown m (visibleMonth s)" using ok that(1) by (simp add: picker_ok_def)
      have "month_shown m (addMonths (visibleMonth s) a)"
        using that(2,3) next_month [OF y v] previous_month [OF y v] mn by (auto simp: previous_disabled_def)
      from startOfMonth_shown [OF y mn this] this show ?thesis
        using mn by (simp add: picker_ok_def changeMonth_def Let_def minimum_def)
    qed
    then show ?thesis using Month_Button ok by auto
  next
    case (Day_Click d)
    then show ?thesis
      using selectDate_ok [OF y ok, of d] enabled_day [OF y ok, of d] ok by (auto simp: plain_year_def)
  next
    case (Today_Click t)
    then show ?thesis using selectDate_ok [OF y ok, of t] e ok by (auto simp: sane_picker_def plain_year_def)
  next
    case (Day_Focus d)
    then show ?thesis
      using enabled_day [OF y ok, of d] ok by (auto simp: picker_ok_def minimum_def day_enabled_def)
  qed (auto simp: closeOutside_def closeOnEscape_def reported_ok_def intro: frame)
qed

lemma picker_run_ok:
  "100 < year_of m \<Longrightarrow> picker_ok m s \<Longrightarrow> \<forall>e \<in> set es. sane_picker e \<Longrightarrow>
   picker_ok m (fst (run_steps picker_step s es)) \<and> (\<forall>x \<in> set (snd (run_steps picker_step s es)). reported_ok m x)"
proof (induction es arbitrary: s)
  case (Cons e es)
  then show ?case using picker_step_ok [of m s e] Cons.IH [of "fst (picker_step s e)"] by auto
qed simp

text \<open>
  C14: A picker with a minimum (after the year 100) never reports a day before it, and while it is open
  the day that holds the keyboard focus is always one of the days shown and not before the minimum, so
  the calendar can always be left and used with the keyboard.
\<close>

theorem picker_respects_minimum:
  fixes v mn today es
  defines "r \<equiv> run_steps picker_step (picker_init v mn today) es"
  assumes "parseDate mn = Some m" "100 < year_of m" "\<forall>e \<in> set es. sane_picker e"
  shows "(\<forall>x. On_Change x \<in> set (snd r) \<longrightarrow> x = [] \<or> (\<exists>d \<ge> m. x = toDateValue d)) \<and>
    (dp_open (fst r) \<longrightarrow>
     (\<exists>d \<in> set (calendarDays (visibleMonth (fst r))). m \<le> d \<and> toDateValue d = focusedDate (fst r)))"
proof -
  have "picker_ok m (picker_init v mn today)"
    using assms(2) by (simp add: picker_ok_def picker_init_def minimum_def Let_def)
  from picker_run_ok [OF assms(3) this assms(4)] show ?thesis
    unfolding r_def by (fastforce simp: picker_ok_def reported_ok_def)
qed

lemma picker_respects_minimum_witness:
  "\<exists>d \<in> set (calendarDays (visibleMonth (fst (run_steps picker_step (picker_init [] ''2024-02-10'' 19760) [Trigger_Click 19760])))).
     19763 \<le> d \<and>
     toDateValue d = focusedDate (fst (run_steps picker_step (picker_init [] ''2024-02-10'' 19760) [Trigger_Click 19760]))"
proof -
  let ?r = "fst (run_steps picker_step (picker_init [] ''2024-02-10'' 19760) [Trigger_Click 19760])"
  have m: "parseDate ''2024-02-10'' = Some 19763" "100 < year_of 19763" "100 < year_of 19760" by code_simp+
  have "dp_open ?r"
    by (simp add: showPicker_def moveFocus_def Let_def picker_init_def)
  then show ?thesis
    using picker_respects_minimum [OF m(1,2), of "[Trigger_Click 19760]" "[]" 19760] m(3)
    by (simp add: sane_picker_def)
qed

end
