(* ===== verification/Modal.thy ===== *)
theory Modal
  imports Controls
begin

text \<open>
  \<open>web/src/components/ui/modal.tsx\<close> and \<open>confirm-dialog.tsx\<close>: the stack of open dialogs, the locks on
  the background they share, the scroll lock, focus and its restoration, the keyboard trap and the
  press on the backdrop.

  The parts of the document the module touches are fields of one record: the children of the body
  with their attributes \<open>inert\<close> and \<open>aria-hidden\<close>, the body's \<open>overflow\<close>, the focused element, and the
  dialogs that own the notifications. A modal is known by its \<open>useId\<close>; each time it is mounted the
  portal gives it a new root element. Presence and closing animation are \<open>presence_step\<close> of theory
  \<open>Controls\<close>.
\<close>

section \<open>The source\<close>

definition modal_presence :: "bool \<Rightarrow> dropdown \<Rightarrow> dropdown_event \<Rightarrow> dropdown \<times> dropdown_effect list" where
  "modal_presence = presence_step 180"

record lock =
  lock_count :: nat
  lock_inert :: bool
  lock_aria :: "string option"

record mounted_modal =
  mm_root :: nat
  mm_background :: "nat list"
  mm_previousFocus :: "nat option"

record document =
  modalStack :: "nat list"
  backgroundLocks :: "(nat \<times> lock) list"
  originalOverflow :: string
  originalFocus :: "nat option"
  modals :: "(nat \<times> mounted_modal) list"
  body_children :: "nat list"
  notification_elements :: "nat list"
  el_inert :: "nat \<Rightarrow> bool"
  el_aria_hidden :: "nat \<Rightarrow> string option"
  body_overflow :: string
  active_element :: "nat option"
  owners :: "nat list"
  used_roots :: "nat list"

definition lock_element :: "nat \<Rightarrow> document \<Rightarrow> document" where
  "lock_element e d =
     (let lock = (case map_of (backgroundLocks d) e of Some l \<Rightarrow> l
                  | None \<Rightarrow> \<lparr>lock_count = 0, lock_inert = el_inert d e, lock_aria = el_aria_hidden d e\<rparr>)
      in d\<lparr>backgroundLocks := AList.update e (lock\<lparr>lock_count := Suc (lock_count lock)\<rparr>) (backgroundLocks d),
           el_inert := (el_inert d)(e := True), el_aria_hidden := (el_aria_hidden d)(e := Some ''true'')\<rparr>)"

definition unlock_element :: "nat \<Rightarrow> document \<Rightarrow> document" where
  "unlock_element e d =
     (case map_of (backgroundLocks d) e of None \<Rightarrow> d
      | Some l \<Rightarrow>
          if 0 < lock_count l - 1
          then d\<lparr>backgroundLocks := AList.update e (l\<lparr>lock_count := lock_count l - 1\<rparr>) (backgroundLocks d)\<rparr>
          else d\<lparr>backgroundLocks := AList.delete e (backgroundLocks d),
                 el_inert := (el_inert d)(e := lock_inert l),
                 el_aria_hidden := (el_aria_hidden d)(e := lock_aria l)\<rparr>)"

text \<open>
  The layout effect of a modal that is mounted, with the new root the portal appended to the body; the
  first owner of the notifications loses them. A modal that is mounted is not mounted again.
\<close>

definition modal_mount :: "nat \<Rightarrow> nat \<Rightarrow> document \<Rightarrow> document" where
  "modal_mount m rt d =
     (if m \<in> set (modalStack d) \<or> rt \<in> set (used_roots d) \<or> rt \<in> set (body_children d) then d
      else
        let children = body_children d @ [rt];
            d1 = (if modalStack d = []
                  then d\<lparr>originalOverflow := body_overflow d, originalFocus := active_element d\<rparr> else d);
            background = filter (\<lambda>e. e \<noteq> rt \<and> e \<notin> set (notification_elements d)) children;
            d2 = d1\<lparr>body_children := children, used_roots := rt # used_roots d,
                    el_inert := (el_inert d)(rt := False), el_aria_hidden := (el_aria_hidden d)(rt := None),
                    owners := (case owners d of [] \<Rightarrow> [m] | _ # os \<Rightarrow> os @ [m]),
                    modalStack := modalStack d @ [m], body_overflow := ''hidden'',
                    modals := (m, \<lparr>mm_root = rt, mm_background = background,
                                   mm_previousFocus = active_element d\<rparr>) # modals d\<rparr>
        in fold lock_element background d2)"

text \<open>
  The cleanup of the effect, and the removal of the portal's root; \<open>isConnected\<close> is asked at that moment.
\<close>

definition modal_unmount :: "nat \<Rightarrow> (nat \<Rightarrow> bool) \<Rightarrow> document \<Rightarrow> document" where
  "modal_unmount m isConnected d =
     (case map_of (modals d) m of None \<Rightarrow> d
      | Some mm \<Rightarrow>
          let wasTop = (modalStack d \<noteq> [] \<and> last (modalStack d) = m);
              stack = filter (\<lambda>x. x \<noteq> m) (modalStack d);
              own = filter (\<lambda>x. x \<noteq> m) (owners d);
              d1 = d\<lparr>modalStack := stack, modals := AList.delete m (modals d),
                     owners := (if wasTop \<and> stack \<noteq> [] then own @ [last stack] else own),
                     body_children := filter (\<lambda>e. e \<noteq> mm_root mm) (body_children d)\<rparr>;
              d2 = fold unlock_element (mm_background mm) d1
          in if stack = [] then
               d2\<lparr>body_overflow := originalOverflow d,
                  active_element :=
                    (case originalFocus d of Some f \<Rightarrow> if isConnected f then Some f else active_element d
                     | None \<Rightarrow> active_element d),
                  originalFocus := None\<rparr>
             else case mm_previousFocus mm of
                 Some f \<Rightarrow> if wasTop \<and> isConnected f then d2\<lparr>active_element := Some f\<rparr> else d2
               | None \<Rightarrow> d2)"

datatype modal_event = Mount nat nat | Unmount_Modal nat "nat \<Rightarrow> bool" | Focus_Moves "nat option"

fun modal_step :: "document \<Rightarrow> modal_event \<Rightarrow> document" where
  "modal_step d (Mount m rt) = modal_mount m rt d"
| "modal_step d (Unmount_Modal m isConnected) = modal_unmount m isConnected d"
| "modal_step d (Focus_Moves f) = d\<lparr>active_element := f\<rparr>"

definition document_init :: "nat list \<Rightarrow> nat list \<Rightarrow> (nat \<Rightarrow> bool) \<Rightarrow> (nat \<Rightarrow> string option) \<Rightarrow> string \<Rightarrow> document" where
  "document_init children notifications inert_of aria_of flow =
     \<lparr>modalStack = [], backgroundLocks = [], originalOverflow = [], originalFocus = None, modals = [],
      body_children = children, notification_elements = notifications, el_inert = inert_of,
      el_aria_hidden = aria_of, body_overflow = flow, active_element = None, owners = [], used_roots = []\<rparr>"

subsection \<open>Keys and the backdrop\<close>

datatype modal_key = Esc | Tab bool | Other_Key

datatype modal_reaction = Close_Modal | Focus_Dialog | Focus_Candidate nat | Nothing

text \<open>The focus trap: \<open>index\<close> is the position of the focused element among \<open>n\<close> candidates.\<close>

definition trap_next :: "bool \<Rightarrow> nat option \<Rightarrow> nat \<Rightarrow> nat" where
  "trap_next shift index n =
     (case index of None \<Rightarrow> if shift then n - 1 else 0
      | Some i \<Rightarrow> nat ((int i + (if shift then - 1 else 1) + int n) mod int n))"

definition modal_keydown ::
    "document \<Rightarrow> nat \<Rightarrow> bool \<Rightarrow> bool \<Rightarrow> modal_key \<Rightarrow> nat option \<Rightarrow> nat \<Rightarrow> modal_reaction" where
  "modal_keydown d m is_open in_notification k index n =
     (if modalStack d = [] \<or> last (modalStack d) \<noteq> m then Nothing
      else if in_notification \<and> k = Esc then Nothing
      else case k of
        Esc \<Rightarrow> if is_open then Close_Modal else Nothing
      | Tab shift \<Rightarrow> if n = 0 then Focus_Dialog else Focus_Candidate (trap_next shift index n)
      | Other_Key \<Rightarrow> Nothing)"

text \<open>A press and a release on the backdrop, less than eight pixels apart, close the top dialog.\<close>

definition backdrop_closes ::
    "document \<Rightarrow> nat \<Rightarrow> bool \<Rightarrow> (rat \<times> rat) option \<Rightarrow> bool \<Rightarrow> rat \<Rightarrow> rat \<Rightarrow> bool" where
  "backdrop_closes d m is_open press on_root x y \<longleftrightarrow>
     is_open \<and> modalStack d \<noteq> [] \<and> last (modalStack d) = m \<and> on_root \<and>
     (case press of None \<Rightarrow> False | Some (px, py) \<Rightarrow> (x - px) ^ 2 + (y - py) ^ 2 < 64)"

subsection \<open>The confirmation dialog\<close>

datatype confirm_event = Close_Request | Cancel_Button | Confirm_Button

datatype confirm_output = Open_Change bool | Confirmed

definition confirm_step :: "bool \<Rightarrow> confirm_event \<Rightarrow> confirm_output list" where
  "confirm_step pending e =
     (if pending then []
      else case e of Close_Request \<Rightarrow> [Open_Change False] | Cancel_Button \<Rightarrow> [Open_Change False]
        | Confirm_Button \<Rightarrow> [Confirmed])"

section \<open>Locks count the modals over an element\<close>

text \<open>The modals whose background holds an element.\<close>

definition covers :: "document \<Rightarrow> nat \<Rightarrow> nat" where
  "covers d e = length (filter (\<lambda>p. e \<in> set (mm_background (snd p))) (modals d))"

text \<open>The state of one element: its lock and attributes, given its cover and its own attributes.\<close>

definition element_ok :: "(nat \<Rightarrow> bool) \<Rightarrow> (nat \<Rightarrow> string option) \<Rightarrow> nat \<Rightarrow> nat \<Rightarrow> document \<Rightarrow> bool" where
  "element_ok own_inert own_aria n e d \<longleftrightarrow>
     map_of (backgroundLocks d) e =
       (if n = 0 then None else Some \<lparr>lock_count = n, lock_inert = own_inert e, lock_aria = own_aria e\<rparr>) \<and>
     el_inert d e = (0 < n \<or> own_inert e) \<and> el_aria_hidden d e = (if 0 < n then Some ''true'' else own_aria e)"

lemma lock_element_ok:
  assumes "element_ok oi oa n x d"
  shows "element_ok oi oa (if x = e then Suc n else n) x (lock_element e d)"
  using assms by (cases n) (auto simp: element_ok_def lock_element_def Let_def update_conv' split: option.splits)

lemma unlock_element_ok:
  assumes "element_ok oi oa n x d" "x = e \<Longrightarrow> 0 < n"
  shows "element_ok oi oa (if x = e then n - 1 else n) x (unlock_element e d)"
  using assms by (auto simp: element_ok_def unlock_element_def delete_conv' update_conv' split: option.splits)

lemma fold_lock_ok:
  "distinct es \<Longrightarrow> element_ok oi oa n x d \<Longrightarrow>
   element_ok oi oa (if x \<in> set es then Suc n else n) x (fold lock_element es d)"
proof (induction es arbitrary: d n)
  case (Cons e es)
  have "element_ok oi oa (if x = e then Suc n else n) x (lock_element e d)"
    using lock_element_ok [OF Cons.prems(2)] .
  from Cons.IH [OF _ this] Cons.prems(1) show ?case by (auto split: if_splits)
qed simp

lemma fold_unlock_ok:
  "distinct es \<Longrightarrow> element_ok oi oa n x d \<Longrightarrow> (x \<in> set es \<Longrightarrow> 0 < n) \<Longrightarrow>
   element_ok oi oa (if x \<in> set es then n - 1 else n) x (fold unlock_element es d)"
proof (induction es arbitrary: d n)
  case (Cons e es)
  have "element_ok oi oa (if x = e then n - 1 else n) x (unlock_element e d)"
    by (rule unlock_element_ok [OF Cons.prems(2)]) (use Cons.prems(3) in auto)
  moreover have "x \<in> set es \<Longrightarrow> 0 < (if x = e then n - 1 else n)" "distinct es" "e \<notin> set es"
    using Cons.prems(1,3) by auto
  ultimately have r: "element_ok oi oa (if x \<in> set es then (if x = e then n - 1 else n) - 1 else if x = e then n - 1 else n)
      x (fold unlock_element es (unlock_element e d))"
    by (intro Cons.IH)
  have "(if x \<in> set es then (if x = e then n - 1 else n) - 1 else if x = e then n - 1 else n) =
      (if x \<in> set (e # es) then n - 1 else n)"
    using Cons.prems(1) by auto
  then show ?case using r by (simp only: fold_Cons comp_apply)
qed simp

lemma lock_frame [simp]:
  "modalStack (lock_element e d) = modalStack d" "modals (lock_element e d) = modals d"
  "body_overflow (lock_element e d) = body_overflow d" "owners (lock_element e d) = owners d"
  "originalOverflow (lock_element e d) = originalOverflow d" "body_children (lock_element e d) = body_children d"
  "used_roots (lock_element e d) = used_roots d" "notification_elements (lock_element e d) = notification_elements d"
  "active_element (lock_element e d) = active_element d" "originalFocus (lock_element e d) = originalFocus d"
  by (simp_all add: lock_element_def Let_def)

lemma unlock_frame [simp]:
  "modalStack (unlock_element e d) = modalStack d" "modals (unlock_element e d) = modals d"
  "body_overflow (unlock_element e d) = body_overflow d" "owners (unlock_element e d) = owners d"
  "originalOverflow (unlock_element e d) = originalOverflow d" "body_children (unlock_element e d) = body_children d"
  "used_roots (unlock_element e d) = used_roots d" "notification_elements (unlock_element e d) = notification_elements d"
  "active_element (unlock_element e d) = active_element d" "originalFocus (unlock_element e d) = originalFocus d"
  by (auto simp: unlock_element_def split: option.splits)

lemma fold_frame:
  assumes "\<And>e d. f (g e d) = f d"
  shows "f (fold g es d) = f d"
  using assms by (induction es arbitrary: d) auto

lemmas fold_lock_frame [simp] =
  fold_frame [of modalStack lock_element] fold_frame [of modals lock_element]
  fold_frame [of body_overflow lock_element] fold_frame [of owners lock_element]
  fold_frame [of originalOverflow lock_element] fold_frame [of body_children lock_element]
  fold_frame [of used_roots lock_element] fold_frame [of notification_elements lock_element]

lemmas fold_unlock_frame [simp] =
  fold_frame [of modalStack unlock_element] fold_frame [of modals unlock_element]
  fold_frame [of body_overflow unlock_element] fold_frame [of owners unlock_element]
  fold_frame [of originalOverflow unlock_element] fold_frame [of body_children unlock_element]
  fold_frame [of used_roots unlock_element] fold_frame [of notification_elements unlock_element]

section \<open>The invariant\<close>

definition own_inert :: "(nat \<Rightarrow> bool) \<Rightarrow> document \<Rightarrow> nat \<Rightarrow> bool" where
  "own_inert oi d e \<longleftrightarrow> e \<notin> set (used_roots d) \<and> oi e"

definition own_aria :: "(nat \<Rightarrow> string option) \<Rightarrow> document \<Rightarrow> nat \<Rightarrow> string option" where
  "own_aria oa d e = (if e \<in> set (used_roots d) then None else oa e)"

text \<open>Of two mounted modals the newer covers the root of the older one, not the other way round.\<close>

definition over :: "mounted_modal \<Rightarrow> mounted_modal \<Rightarrow> bool" where
  "over newer older \<longleftrightarrow>
     mm_root older \<in> set (mm_background newer) \<and> mm_root newer \<notin> set (mm_background older)"

definition modal_ok :: "nat list \<Rightarrow> document \<Rightarrow> mounted_modal \<Rightarrow> bool" where
  "modal_ok base d mm \<longleftrightarrow>
     distinct (mm_background mm) \<and> set (mm_background mm) \<subseteq> set base \<union> set (used_roots d) \<and>
     set base - set (notification_elements d) \<subseteq> set (mm_background mm) \<and>
     mm_root mm \<in> set (used_roots d) \<and> mm_root mm \<notin> set (mm_background mm) \<and> mm_root mm \<in> set (body_children d)"

definition document_ok :: "nat list \<Rightarrow> (nat \<Rightarrow> bool) \<Rightarrow> (nat \<Rightarrow> string option) \<Rightarrow> string \<Rightarrow> document \<Rightarrow> bool" where
  "document_ok base oi oa flow d \<longleftrightarrow>
     modalStack d = rev (map fst (modals d)) \<and> distinct (map fst (modals d)) \<and>
     sorted_wrt over (map snd (modals d)) \<and> (\<forall>mm \<in> snd ` set (modals d). modal_ok base d mm) \<and>
     set base \<subseteq> set (body_children d) \<and> distinct (body_children d) \<and>
     set (body_children d) \<subseteq> set base \<union> set (used_roots d) \<and>
     set (used_roots d) \<inter> set base = {} \<and> set (notification_elements d) \<subseteq> set base \<and>
     distinct (map (mm_root \<circ> snd) (modals d)) \<and>
     (\<forall>e. element_ok (own_inert oi d) (own_aria oa d) (covers d e) e d) \<and>
     (if modalStack d = [] then body_overflow d = flow
      else body_overflow d = ''hidden'' \<and> originalOverflow d = flow) \<and>
     owners d = (if modalStack d = [] then [] else [last (modalStack d)])"

lemma element_ok_cong:
  "element_ok oi oa n e d \<Longrightarrow> oi e = oi' e \<Longrightarrow> oa e = oa' e \<Longrightarrow> backgroundLocks d' = backgroundLocks d \<Longrightarrow>
   el_inert d' e = el_inert d e \<Longrightarrow> el_aria_hidden d' e = el_aria_hidden d e \<Longrightarrow> element_ok oi' oa' n e d'"
  by (simp add: element_ok_def)

lemma mount_ok:
  assumes ok: "document_ok base oi oa flow d"
  shows "document_ok base oi oa flow (modal_mount m rt d)"
proof (cases "m \<in> set (modalStack d) \<or> rt \<in> set (used_roots d) \<or> rt \<in> set (body_children d)")
  case False
  define bg where "bg = filter (\<lambda>e. e \<noteq> rt \<and> e \<notin> set (notification_elements d)) (body_children d @ [rt])"
  define mm where "mm = \<lparr>mm_root = rt, mm_background = bg, mm_previousFocus = active_element d\<rparr>"
  define d1 where "d1 = (if modalStack d = []
      then d\<lparr>originalOverflow := body_overflow d, originalFocus := active_element d\<rparr> else d)"
  define d2 where "d2 = d1\<lparr>body_children := body_children d @ [rt], used_roots := rt # used_roots d,
      el_inert := (el_inert d)(rt := False), el_aria_hidden := (el_aria_hidden d)(rt := None),
      owners := (case owners d of [] \<Rightarrow> [m] | _ # os \<Rightarrow> os @ [m]),
      modalStack := modalStack d @ [m], body_overflow := ''hidden'', modals := (m, mm) # modals d\<rparr>"
  have eq: "modal_mount m rt d = fold lock_element bg d2"
    using False by (simp add: modal_mount_def Let_def bg_def mm_def d1_def d2_def)
  have D: "modalStack d = rev (map fst (modals d))" "distinct (map fst (modals d))"
    "sorted_wrt over (map snd (modals d))" "\<forall>mm \<in> snd ` set (modals d). modal_ok base d mm"
    "set base \<subseteq> set (body_children d)" "distinct (body_children d)"
    "set (body_children d) \<subseteq> set base \<union> set (used_roots d)" "set (used_roots d) \<inter> set base = {}"
    "set (notification_elements d) \<subseteq> set base" "distinct (map (mm_root \<circ> snd) (modals d))"
    "\<forall>e. element_ok (own_inert oi d) (own_aria oa d) (covers d e) e d"
    "if modalStack d = [] then body_overflow d = flow else body_overflow d = ''hidden'' \<and> originalOverflow d = flow"
    "owners d = (if modalStack d = [] then [] else [last (modalStack d)])"
    using ok by (simp_all add: document_ok_def)
  have S: "modalStack d2 = modalStack d @ [m]" "modals d2 = (m, mm) # modals d" "used_roots d2 = rt # used_roots d"
    "body_children d2 = body_children d @ [rt]" "notification_elements d2 = notification_elements d"
    "backgroundLocks d2 = backgroundLocks d" "el_inert d2 = (el_inert d)(rt := False)"
    "el_aria_hidden d2 = (el_aria_hidden d)(rt := None)" "body_overflow d2 = ''hidden''" "owners d2 = [m]"
    "originalOverflow d2 = flow"
    using D(12,13) by (simp_all add: d2_def d1_def)
  have rt: "rt \<notin> set base" "rt \<notin> set (used_roots d)" "rt \<notin> set (notification_elements d)"
    using False D(5,9) by auto
  have bg: "set bg = set (body_children d) - set (notification_elements d)" "distinct bg" "rt \<notin> set bg"
    using False D(6) rt by (auto simp: bg_def)
  have rt_free: "rt \<notin> set (mm_background x)" if "x \<in> snd ` set (modals d)" for x
    using D(4) that rt by (auto simp: modal_ok_def)
  have el2: "element_ok (own_inert oi d2) (own_aria oa d2) (covers d e) e d2" for e
  proof (cases "e = rt")
    case True
    have "filter (\<lambda>p. rt \<in> set (mm_background (snd p))) (modals d) = []"
      using rt_free by (auto simp: filter_empty_conv)
    then have "covers d rt = 0" by (simp add: covers_def)
    then show ?thesis using D(11) True by (simp add: element_ok_def S own_inert_def own_aria_def)
  next
    case False
    have "element_ok (own_inert oi d) (own_aria oa d) (covers d e) e d" using D(11) by blast
    then show ?thesis by (rule element_ok_cong) (simp_all add: False S own_inert_def own_aria_def)
  qed
  have cov: "covers (fold lock_element bg d2) e = (if e \<in> set bg then Suc (covers d e) else covers d e)" for e
    by (simp add: covers_def S mm_def)
  have el: "element_ok (own_inert oi d') (own_aria oa d') (covers d' e) e d'" if "d' = fold lock_element bg d2" for e d'
    using fold_lock_ok [OF bg(2) el2 [of e]] unfolding that cov by (simp add: own_inert_def own_aria_def element_ok_def cong: if_cong)
  have mo: "modal_ok base (fold lock_element bg d2) x" if "x \<in> insert mm (snd ` set (modals d))" for x
    using that D(4,5,7,9) bg rt by (auto simp: modal_ok_def S mm_def)
  have so: "over mm x" if "x \<in> snd ` set (modals d)" for x
  proof -
    have x: "modal_ok base d x" using D(4) that by blast
    have "mm_root x \<in> set bg" using x D(8,9) by (auto simp: modal_ok_def bg)
    then show ?thesis using rt_free [OF that] by (simp add: over_def mm_def)
  qed
  have rts: "rt \<notin> (mm_root \<circ> snd) ` set (modals d)"
  proof
    assume "rt \<in> (mm_root \<circ> snd) ` set (modals d)"
    then obtain p where "p \<in> set (modals d)" "rt = mm_root (snd p)" by auto
    then show False using D(4) rt by (auto simp: modal_ok_def)
  qed
  define d' where "d' = fold lock_element bg d2"
  have F: "modalStack d' = modalStack d @ [m]" "modals d' = (m, mm) # modals d" "used_roots d' = rt # used_roots d"
    "body_children d' = body_children d @ [rt]" "notification_elements d' = notification_elements d"
    "body_overflow d' = ''hidden''" "owners d' = [m]" "originalOverflow d' = flow"
    by (simp_all add: d'_def S)
  have "\<forall>x \<in> snd ` set (modals d'). modal_ok base d' x" using mo by (auto simp: F d'_def [symmetric])
  moreover have "sorted_wrt over (map snd (modals d'))" using D(3) so by (auto simp: F)
  moreover have "distinct (map (mm_root \<circ> snd) (modals d'))" using D(10) rts by (simp add: F mm_def)
  moreover have "modalStack d' = rev (map fst (modals d'))" using D(1) by (simp add: F)
  moreover have "distinct (map fst (modals d'))" using D(1,2) False by (simp add: F)
  moreover have "\<forall>e. element_ok (own_inert oi d') (own_aria oa d') (covers d' e) e d'" using el [OF d'_def] by blast
  moreover have "set base \<subseteq> set (body_children d')" "distinct (body_children d')"
    "set (body_children d') \<subseteq> set base \<union> set (used_roots d')" "set (used_roots d') \<inter> set base = {}"
    "set (notification_elements d') \<subseteq> set base"
    using D(5,6,7,8,9) False rt by (auto simp: F)
  moreover have "if modalStack d' = [] then body_overflow d' = flow
      else body_overflow d' = ''hidden'' \<and> originalOverflow d' = flow"
    "owners d' = (if modalStack d' = [] then [] else [last (modalStack d')])"
    by (simp_all add: F)
  ultimately show ?thesis unfolding eq d'_def [symmetric] document_ok_def by (intro conjI)
qed (use ok in \<open>simp add: modal_mount_def\<close>)

lemma filter_delete:
  "distinct (map fst ms) \<Longrightarrow> map_of ms m = Some v \<Longrightarrow>
   length (filter P ms) = length (filter P (AList.delete m ms)) + (if P (m, v) then 1 else 0)"
proof (induction ms)
  case (Cons a ms)
  show ?case
  proof (cases "fst a = m")
    case True
    then have "a = (m, v)" "AList.delete m ms = ms" using Cons.prems by (auto simp: delete_id intro!: delete_id)
    then show ?thesis using True by (auto simp: delete_simps)
  next
    case False
    then show ?thesis using Cons by (cases a) auto
  qed
qed simp

lemma map_delete_snd: "snd ` set (AList.delete m ms) \<subseteq> snd ` set ms"
  by (auto simp: AList.delete_eq)

lemma sorted_delete: "sorted_wrt R (map snd ms) \<Longrightarrow> sorted_wrt R (map snd (AList.delete m ms))"
  by (induction ms) (auto simp: AList.delete_eq)

lemma map_fst_delete: "map fst (AList.delete m ms) = filter (\<lambda>x. x \<noteq> m) (map fst ms)"
  by (induction ms) (auto simp: AList.delete_eq)

lemma unmount_ok:
  assumes ok: "document_ok base oi oa flow d"
  shows "document_ok base oi oa flow (modal_unmount m f d)"
proof (cases "map_of (modals d) m")
  case (Some mm)
  have D: "modalStack d = rev (map fst (modals d))" "distinct (map fst (modals d))"
    "sorted_wrt over (map snd (modals d))" "\<forall>mm \<in> snd ` set (modals d). modal_ok base d mm"
    "set base \<subseteq> set (body_children d)" "distinct (body_children d)"
    "set (body_children d) \<subseteq> set base \<union> set (used_roots d)" "set (used_roots d) \<inter> set base = {}"
    "set (notification_elements d) \<subseteq> set base" "distinct (map (mm_root \<circ> snd) (modals d))"
    "\<forall>e. element_ok (own_inert oi d) (own_aria oa d) (covers d e) e d"
    "if modalStack d = [] then body_overflow d = flow else body_overflow d = ''hidden'' \<and> originalOverflow d = flow"
    "owners d = (if modalStack d = [] then [] else [last (modalStack d)])"
    using ok by (simp_all add: document_ok_def)
  have mem: "(m, mm) \<in> set (modals d)" using Some by (rule map_of_SomeD)
  have mm: "modal_ok base d mm" using D(4) mem by force
  have some: "modalStack d \<noteq> []" "body_overflow d = ''hidden''" "originalOverflow d = flow" "owners d = [last (modalStack d)]"
    using D(1,12,13) mem by (auto split: if_splits)
  define stack where "stack = filter (\<lambda>x. x \<noteq> m) (modalStack d)"
  define own where "own = (if last (modalStack d) = m then if stack = [] then [] else [last stack] else owners d)"
  define d' where "d' = modal_unmount m f d"
  define d1 where "d1 = d\<lparr>modalStack := stack, modals := AList.delete m (modals d), owners := own,
      body_children := filter (\<lambda>e. e \<noteq> mm_root mm) (body_children d)\<rparr>"
  have F: "modalStack d' = stack" "modals d' = AList.delete m (modals d)" "used_roots d' = used_roots d"
    "body_children d' = filter (\<lambda>e. e \<noteq> mm_root mm) (body_children d)" "notification_elements d' = notification_elements d"
    "body_overflow d' = (if stack = [] then flow else ''hidden'')" "owners d' = own" "originalOverflow d' = flow"
    "backgroundLocks d' = backgroundLocks (fold unlock_element (mm_background mm) d1)"
    "el_inert d' = el_inert (fold unlock_element (mm_background mm) d1)"
    "el_aria_hidden d' = el_aria_hidden (fold unlock_element (mm_background mm) d1)"
    using Some some
    by (auto simp: d'_def modal_unmount_def Let_def d1_def own_def stack_def [symmetric] split: option.splits)
  have cov: "covers d e = covers d' e + (if e \<in> set (mm_background mm) then 1 else 0)" for e
    using filter_delete [OF D(2) Some, of "\<lambda>p. e \<in> set (mm_background (snd p))"] by (simp add: covers_def F)
  have el: "element_ok (own_inert oi d') (own_aria oa d') (covers d' e) e d'" for e
  proof -
    have "element_ok (own_inert oi d) (own_aria oa d) (covers d e) e d" using D(11) by blast
    then have e1: "element_ok (own_inert oi d) (own_aria oa d) (covers d e) e d1"
      by (rule element_ok_cong) (simp_all add: d1_def)
    have "distinct (mm_background mm)" using mm by (simp add: modal_ok_def)
    from fold_unlock_ok [OF this e1] cov [of e]
    have e2: "element_ok (own_inert oi d) (own_aria oa d)
        (if e \<in> set (mm_background mm) then covers d e - 1 else covers d e) e (fold unlock_element (mm_background mm) d1)" by simp
    have "(if e \<in> set (mm_background mm) then covers d e - 1 else covers d e) = covers d' e" using cov [of e] by simp
    with e2 have "element_ok (own_inert oi d) (own_aria oa d) (covers d' e) e (fold unlock_element (mm_background mm) d1)" by simp
    then show ?thesis by (rule element_ok_cong) (simp_all add: F own_inert_def own_aria_def)
  qed
  have sub: "snd ` set (modals d') \<subseteq> snd ` set (modals d)" using map_delete_snd by (simp add: F)
  have rts: "mm_root x \<noteq> mm_root mm" if "x \<in> snd ` set (modals d')" for x
  proof -
    have "x \<in> snd ` {p \<in> set (modals d). fst p \<noteq> m}" using that unfolding F AList.delete_eq by force
    then obtain k where k: "(k, x) \<in> set (modals d)" "k \<noteq> m" by force
    then show ?thesis using D(10) mem by (auto simp: distinct_map dest!: inj_onD [of _ _ "(k, x)" "(m, mm)"])
  qed
  have "\<forall>x \<in> snd ` set (modals d'). modal_ok base d' x"
  proof
    fix x assume x: "x \<in> snd ` set (modals d')"
    then have "modal_ok base d x" using D(4) sub by blast
    then show "modal_ok base d' x" using rts [OF x] by (simp add: modal_ok_def F)
  qed
  moreover have "mm_root mm \<notin> set base" using mm D(8) by (auto simp: modal_ok_def)
  then have "set base \<subseteq> set (body_children d')" using D(5) by (auto simp: F)
  moreover have "modalStack d' = rev (map fst (modals d'))" by (simp add: F map_fst_delete stack_def D(1) rev_filter)
  moreover have "distinct (map fst (modals d'))" using D(2) by (simp add: F AList.distinct_delete)
  moreover have "sorted_wrt over (map snd (modals d'))" using D(3) by (simp add: F sorted_delete)
  moreover have "distinct (body_children d')" "set (body_children d') \<subseteq> set base \<union> set (used_roots d')"
    "set (used_roots d') \<inter> set base = {}" "set (notification_elements d') \<subseteq> set base"
    using D(6,7,8,9) by (auto simp: F)
  moreover have "distinct (map (mm_root \<circ> snd) (modals d'))" using D(10) by (simp add: F AList.delete_eq distinct_map_filter)
  moreover have "if modalStack d' = [] then body_overflow d' = flow
      else body_overflow d' = ''hidden'' \<and> originalOverflow d' = flow" by (simp add: F)
  moreover have "owners d' = (if modalStack d' = [] then [] else [last (modalStack d')])"
  proof (cases "last (modalStack d) = m")
    case True
    then show ?thesis by (simp add: F own_def)
  next
    case False
    have "stack = filter (\<lambda>x. x \<noteq> m) (butlast (modalStack d) @ [last (modalStack d)])"
      using some(1) by (simp add: stack_def)
    then have "stack = filter (\<lambda>x. x \<noteq> m) (butlast (modalStack d)) @ [last (modalStack d)]" using False by simp
    then have "last stack = last (modalStack d)" "stack \<noteq> []" by simp_all
    then show ?thesis using False some(4) by (simp add: F own_def)
  qed
  moreover have "\<forall>e. element_ok (own_inert oi d') (own_aria oa d') (covers d' e) e d'" using el by blast
  ultimately show ?thesis unfolding d'_def [symmetric] document_ok_def by (intro conjI)
qed (use ok in \<open>simp add: modal_unmount_def\<close>)

definition modal_run :: "document \<Rightarrow> modal_event list \<Rightarrow> document" where
  "modal_run d es = foldl modal_step d es"

lemma document_ok_run: "document_ok base oi oa flow d \<Longrightarrow> document_ok base oi oa flow (modal_run d es)"
proof (induction es arbitrary: d)
  case (Cons e es)
  have "document_ok base oi oa flow (modal_step d e)"
  proof (cases e)
    case (Focus_Moves f)
    have "covers (d\<lparr>active_element := f\<rparr>) x = covers d x" for x by (simp add: covers_def)
    then show ?thesis
      using Cons.prems unfolding Focus_Moves document_ok_def element_ok_def own_inert_def own_aria_def modal_ok_def by simp
  qed (use Cons.prems mount_ok unmount_ok in simp_all)
  then show ?case using Cons.IH by (simp add: modal_run_def)
qed (simp add: modal_run_def)

lemma document_init_ok:
  "distinct base \<Longrightarrow> set notif \<subseteq> set base \<Longrightarrow> document_ok base oi oa flow (document_init base notif oi oa flow)"
  by (simp add: document_ok_def document_init_def element_ok_def covers_def own_inert_def own_aria_def)

section \<open>Properties\<close>

lemma top_uncovered:
  assumes "document_ok base oi oa flow d" "modals d = (k, top_modal) # rest"
  shows "covers d (mm_root top_modal) = 0" "(k', x) \<in> set rest \<Longrightarrow> 0 < covers d (mm_root x)"
proof -
  have s: "\<forall>x \<in> snd ` set rest. over top_modal x" "modal_ok base d top_modal"
    using assms by (auto simp: document_ok_def)
  have "filter (\<lambda>p. mm_root top_modal \<in> set (mm_background (snd p))) (modals d) = []"
    using s assms(2) by (auto simp: filter_empty_conv over_def modal_ok_def)
  then show "covers d (mm_root top_modal) = 0" by (simp add: covers_def)
  assume "(k', x) \<in> set rest"
  then have "mm_root x \<in> set (mm_background top_modal)" using s(1) by (force simp: over_def)
  then show "0 < covers d (mm_root x)" using assms(2) by (simp add: covers_def)
qed

text \<open>
  C8: Whatever the order in which dialogs open and close, overlapping or not: while one is open, the page
  behind is inert, hidden from assistive technology and does not scroll; once none is open, every
  element has the attributes and the page the overflow it had before.
\<close>

theorem modal_background:
  fixes base notif oi oa flow es
  defines "d \<equiv> foldl modal_step (document_init base notif oi oa flow) es"
  assumes "distinct base" "set notif \<subseteq> set base"
  shows "(modalStack d \<noteq> [] \<longrightarrow> body_overflow d = ''hidden'' \<and>
      (\<forall>e \<in> set base - set notif. el_inert d e \<and> el_aria_hidden d e = Some ''true'')) \<and>
    (modalStack d = [] \<longrightarrow> body_overflow d = flow \<and>
      (\<forall>e \<in> set base. el_inert d e = oi e \<and> el_aria_hidden d e = oa e))"
proof -
  have ok: "document_ok base oi oa flow d"
    using document_ok_run [OF document_init_ok [OF assms(2,3)]] by (simp add: d_def modal_run_def)
  have notif: "notification_elements d = notif"
  proof -
    have "notification_elements (modal_step d e) = notification_elements d" for d e
      by (cases e) (auto simp: modal_mount_def modal_unmount_def Let_def split: option.splits)
    then have "notification_elements (foldl modal_step d0 es) = notification_elements d0" for d0
      by (induction es arbitrary: d0) auto
    then show ?thesis by (simp add: d_def document_init_def)
  qed
  have el: "element_ok (own_inert oi d) (own_aria oa d) (covers d e) e d" for e using ok by (simp add: document_ok_def)
  have st: "modalStack d = rev (map fst (modals d))" using ok by (simp add: document_ok_def)
  show ?thesis
  proof (cases "modals d")
    case Nil
    have u: "e \<notin> set (used_roots d)" if "e \<in> set base" for e using ok that by (auto simp: document_ok_def)
    have "el_inert d e = oi e \<and> el_aria_hidden d e = oa e" if "e \<in> set base" for e
      using el [of e] u [OF that] by (simp add: element_ok_def covers_def Nil own_inert_def own_aria_def)
    then show ?thesis using ok st Nil by (simp add: document_ok_def)
  next
    case (Cons p ps)
    have "0 < covers d e" if "e \<in> set base - set notif" for e
    proof -
      have "modal_ok base d (snd p)" using ok Cons by (simp add: document_ok_def)
      then have "e \<in> set (mm_background (snd p))" using that notif by (auto simp: modal_ok_def)
      then show ?thesis by (simp add: covers_def Cons)
    qed
    then have "el_inert d e \<and> el_aria_hidden d e = Some ''true''" if "e \<in> set base - set notif" for e
      using el [of e] that by (simp add: element_ok_def)
    then show ?thesis using ok st Cons by (simp add: document_ok_def)
  qed
qed

lemma modal_background_witness:
  "el_inert (foldl modal_step (document_init [1, 2] [2] (\<lambda>_. False) (\<lambda>_. None) ''auto'')
     [Mount 5 10, Mount 6 11, Unmount_Modal 5 (\<lambda>_. True)]) 1 \<and>
   \<not> el_inert (foldl modal_step (document_init [1, 2] [2] (\<lambda>_. False) (\<lambda>_. None) ''auto'')
     [Mount 5 10, Mount 6 11, Unmount_Modal 5 (\<lambda>_. True), Unmount_Modal 6 (\<lambda>_. True)]) 1"
proof -
  have s: "modalStack (foldl modal_step (document_init [1, 2] [2] (\<lambda>_. False) (\<lambda>_. None) ''auto'')
       [Mount 5 10, Mount 6 11, Unmount_Modal 5 (\<lambda>_. True)]) = [6]"
    "modalStack (foldl modal_step (document_init [1, 2] [2] (\<lambda>_. False) (\<lambda>_. None) ''auto'')
       [Mount 5 10, Mount 6 11, Unmount_Modal 5 (\<lambda>_. True), Unmount_Modal 6 (\<lambda>_. True)]) = []"
    by (simp_all add: document_init_def modal_mount_def modal_unmount_def Let_def)
  show ?thesis
    using modal_background [of "[1, 2]" "[2]" "\<lambda>_. False" "\<lambda>_. None" "''auto''" "[Mount 5 10, Mount 6 11, Unmount_Modal 5 (\<lambda>_. True)]"]
      modal_background [of "[1, 2]" "[2]" "\<lambda>_. False" "\<lambda>_. None" "''auto''"
        "[Mount 5 10, Mount 6 11, Unmount_Modal 5 (\<lambda>_. True), Unmount_Modal 6 (\<lambda>_. True)]"]
    unfolding s by simp
qed

text \<open>
  C9: Of several open dialogs exactly the one opened last can be used: its root alone is not inert, it
  alone owns the notifications, it alone reacts to keys and to the backdrop.
\<close>

theorem modal_top_only:
  fixes base notif oi oa flow es
  defines "d \<equiv> foldl modal_step (document_init base notif oi oa flow) es"
  assumes "distinct base" "set notif \<subseteq> set base" "map_of (modals d) m = Some mm"
  shows "(el_inert d (mm_root mm) \<longleftrightarrow> m \<noteq> last (modalStack d)) \<and> owners d = [last (modalStack d)] \<and>
    (m \<noteq> last (modalStack d) \<longrightarrow> modal_keydown d m b c k i n = Nothing \<and> \<not> backdrop_closes d m b p r x y)"
proof -
  have ok: "document_ok base oi oa flow d"
    using document_ok_run [OF document_init_ok [OF assms(2,3)]] by (simp add: d_def modal_run_def)
  obtain k0 top_modal rest where ms: "modals d = (k0, top_modal) # rest" using assms(4) by (cases "modals d") auto
  have st: "modalStack d = rev (map fst (modals d))" "distinct (map fst (modals d))" using ok by (simp_all add: document_ok_def)
  then have lst: "last (modalStack d) = k0" "modalStack d \<noteq> []" by (simp_all add: ms)
  have el: "el_inert d (mm_root mm) \<longleftrightarrow> 0 < covers d (mm_root mm)"
  proof -
    have "element_ok (own_inert oi d) (own_aria oa d) (covers d (mm_root mm)) (mm_root mm) d"
      using ok by (simp add: document_ok_def)
    moreover have "mm_root mm \<in> set (used_roots d)"
      using ok map_of_SomeD [OF assms(4)] by (force simp: document_ok_def modal_ok_def)
    ultimately show ?thesis by (simp add: element_ok_def own_inert_def)
  qed
  have "0 < covers d (mm_root mm) \<longleftrightarrow> m \<noteq> k0"
  proof (cases "m = k0")
    case True
    then show ?thesis using assms(4) ms top_uncovered(1) [OF ok ms] by simp
  next
    case False
    then have "(m, mm) \<in> set rest" using map_of_SomeD [OF assms(4)] by (simp add: ms)
    then show ?thesis using False top_uncovered(2) [OF ok ms] by simp
  qed
  then show ?thesis
    using ok lst el by (auto simp: document_ok_def modal_keydown_def backdrop_closes_def)
qed

lemma modal_top_only_witness:
  "el_inert (foldl modal_step (document_init [1] [] (\<lambda>_. False) (\<lambda>_. None) ''auto'') [Mount 5 10, Mount 6 11]) 10 \<and>
   \<not> el_inert (foldl modal_step (document_init [1] [] (\<lambda>_. False) (\<lambda>_. None) ''auto'') [Mount 5 10, Mount 6 11]) 11"
proof -
  define d where "d = foldl modal_step (document_init [1] [] (\<lambda>_. False) (\<lambda>_. None) ''auto'') [Mount 5 10, Mount 6 11]"
  have s: "modalStack d = [5, 6]" "map_of (modals d) 5 = Some \<lparr>mm_root = 10, mm_background = [1], mm_previousFocus = None\<rparr>"
    "map_of (modals d) 6 = Some \<lparr>mm_root = 11, mm_background = [1, 10], mm_previousFocus = None\<rparr>"
    by (simp_all add: d_def document_init_def modal_mount_def Let_def)
  show ?thesis
    using modal_top_only [of "[1]" "[]" "\<lambda>_. False" "\<lambda>_. None" "''auto''" "[Mount 5 10, Mount 6 11]", folded d_def, OF _ _ s(2)]
      modal_top_only [of "[1]" "[]" "\<lambda>_. False" "\<lambda>_. None" "''auto''" "[Mount 5 10, Mount 6 11]", folded d_def, OF _ _ s(3)]
    unfolding d_def [symmetric] s by simp
qed

end
