(* ===== verification/Preferences.thy ===== *)
theory Preferences
  imports Effects
begin

text \<open>
  The theme and the language: how \<open>web/src/main.tsx\<close> and \<open>web/src/i18n/config.ts\<close> choose them when the
  page loads, and how the controls of the header, the login page and the setup page change and store
  them; and the links of the footer, \<open>web/src/components/app-footer.tsx\<close>.

  \<open>dataset.theme\<close> and \<open>lang\<close> of the document element, the local storage and the language of the
  translation library are fields of one record, beside the state of the component that shows them.
\<close>

datatype theme = Light | Dark

datatype language = Zh_CN | En_US

fun theme_text :: "theme \<Rightarrow> string" where
  "theme_text Light = ''light''"
| "theme_text Dark = ''dark''"

fun language_text :: "language \<Rightarrow> string" where
  "language_text Zh_CN = ''zh-CN''"
| "language_text En_US = ''en-US''"

record preferences =
  dataset_theme :: string
  shown_theme :: theme
  i18n_language :: language
  document_lang :: string
  local_items :: local_storage
  languageOpen :: bool

section \<open>Loading the page\<close>

definition savedTheme :: "local_storage \<Rightarrow> bool \<Rightarrow> string" where
  "savedTheme w prefers_dark =
     (case readLocalStorage w ''imagesilo_theme'' of
        Some s \<Rightarrow> if s = ''light'' \<or> s = ''dark'' then s else if prefers_dark then ''dark'' else ''light''
      | None \<Rightarrow> if prefers_dark then ''dark'' else ''light'')"

definition initialLanguage :: "local_storage \<Rightarrow> language" where
  "initialLanguage w = (if readLocalStorage w ''imagesilo_language'' = Some ''en-US'' then En_US else Zh_CN)"

definition updateDocumentLanguage :: "language \<Rightarrow> string" where
  "updateDocumentLanguage l = (if l = Zh_CN then ''zh-CN'' else ''en'')"

text \<open>A component that shows the theme reads it from the document when it is mounted.\<close>

definition component_theme :: "string \<Rightarrow> theme" where
  "component_theme dataset = (if dataset = ''dark'' then Dark else Light)"

definition page_load :: "local_storage \<Rightarrow> bool \<Rightarrow> preferences" where
  "page_load w prefers_dark =
     \<lparr>dataset_theme = savedTheme w prefers_dark, shown_theme = component_theme (savedTheme w prefers_dark),
      i18n_language = initialLanguage w, document_lang = updateDocumentLanguage (initialLanguage w),
      local_items = w, languageOpen = False\<rparr>"

section \<open>The controls\<close>

definition toggleTheme :: "preferences \<Rightarrow> preferences" where
  "toggleTheme p =
     (let next = (if shown_theme p = Light then Dark else Light)
      in p\<lparr>dataset_theme := theme_text next,
           local_items := fst (writeLocalStorage (local_items p) ''imagesilo_theme'' (theme_text next)),
           shown_theme := next\<rparr>)"

definition changeLanguage :: "language \<Rightarrow> preferences \<Rightarrow> preferences" where
  "changeLanguage next p =
     p\<lparr>local_items := fst (writeLocalStorage (local_items p) ''imagesilo_language'' (language_text next)),
       i18n_language := next, document_lang := updateDocumentLanguage next, languageOpen := False\<rparr>"

datatype preference_event =
    Toggle_Theme
  | Change_Language language
  | Toggle_Languages
  | Languages_Open_Change bool
  | Remount_Component

fun preference_step :: "preferences \<Rightarrow> preference_event \<Rightarrow> preferences" where
  "preference_step p Toggle_Theme = toggleTheme p"
| "preference_step p (Change_Language l) = changeLanguage l p"
| "preference_step p Toggle_Languages = p\<lparr>languageOpen := \<not> languageOpen p\<rparr>"
| "preference_step p (Languages_Open_Change b) = p\<lparr>languageOpen := b\<rparr>"
| "preference_step p Remount_Component =
     p\<lparr>shown_theme := component_theme (dataset_theme p), languageOpen := False\<rparr>"

section \<open>The footer\<close>

definition repositoryURL :: string where
  "repositoryURL = ''https://github.com/Willxup/imagesilo''"

definition normalizedVersion :: "string \<Rightarrow> string" where
  "normalizedVersion version = (if trim version \<noteq> [] then trim version else ''dev'')"

definition buildVersion :: "string option \<Rightarrow> string" where
  "buildVersion env = (case env of None \<Rightarrow> ''dev'' | Some v \<Rightarrow> if trim v \<noteq> [] then trim v else ''dev'')"

definition versionURL :: "string \<Rightarrow> string" where
  "versionURL version =
     (if normalizedVersion version = ''dev'' then repositoryURL @ ''/releases''
      else repositoryURL @ ''/releases/tag/'' @ encodeURIComponent (normalizedVersion version))"

section \<open>Lemmas\<close>

lemma component_theme_text [simp]: "component_theme (theme_text t) = t"
  by (cases t) (auto simp: component_theme_def)

lemma savedTheme_text: "\<exists>t. savedTheme w d = theme_text t"
proof -
  have "savedTheme w d = ''light'' \<or> savedTheme w d = ''dark''"
    by (auto simp: savedTheme_def split: option.splits)
  then show ?thesis by (metis theme_text.simps)
qed

text \<open>
  What stays true: the theme shown is that of the document, and, unless storing fails, loading the page
  again from the storage would give the theme and the language that are shown.
\<close>

definition preferences_ok :: "bool \<Rightarrow> preferences \<Rightarrow> bool" where
  "preferences_ok d p \<longleftrightarrow>
     dataset_theme p = theme_text (shown_theme p) \<and> document_lang p = updateDocumentLanguage (i18n_language p) \<and>
     (\<forall>items. local_items p = Some (items, False) \<longrightarrow>
        savedTheme (local_items p) d = dataset_theme p \<and> initialLanguage (local_items p) = i18n_language p)"

lemma page_load_ok: "preferences_ok d (page_load w d)"
  using savedTheme_text [of w d] by (auto simp: preferences_ok_def page_load_def)

lemma theme_write:
  "savedTheme (fst (writeLocalStorage (Some (items, False)) ''imagesilo_theme'' (theme_text t))) d = theme_text t"
  "initialLanguage (fst (writeLocalStorage (Some (items, False)) ''imagesilo_theme'' v)) = initialLanguage (Some (items, False))"
  by (cases t; simp add: savedTheme_def initialLanguage_def readLocalStorage_def writeLocalStorage_def)
    (simp add: initialLanguage_def readLocalStorage_def writeLocalStorage_def)

lemma language_write:
  "initialLanguage (fst (writeLocalStorage (Some (items, False)) ''imagesilo_language'' (language_text l))) = l"
  "savedTheme (fst (writeLocalStorage (Some (items, False)) ''imagesilo_language'' v)) d = savedTheme (Some (items, False)) d"
  by (cases l; simp add: savedTheme_def initialLanguage_def readLocalStorage_def writeLocalStorage_def)
    (simp add: savedTheme_def readLocalStorage_def writeLocalStorage_def)

lemma write_works:
  "fst (writeLocalStorage w k v) = Some (items, False) \<longleftrightarrow> (\<exists>old. w = Some (old, False) \<and> items = old(k \<mapsto> v))"
  by (auto simp: writeLocalStorage_def split: option.splits prod.splits)

lemma preference_step_ok:
  assumes "preferences_ok d p"
  shows "preferences_ok d (preference_step p e)"
proof (cases e)
  case Toggle_Theme
  have light: "savedTheme (fst (writeLocalStorage (Some (items, False)) ''imagesilo_theme'' ''light'')) d = ''light''"
    and dark: "savedTheme (fst (writeLocalStorage (Some (items, False)) ''imagesilo_theme'' ''dark'')) d = ''dark''" for items
    using theme_write(1) [of items Light d] theme_write(1) [of items Dark d] by simp_all
  show ?thesis
    using assms Toggle_Theme light dark theme_write(2)
    by (auto simp: preferences_ok_def toggleTheme_def Let_def write_works)
next
  case (Change_Language l)
  with assms language_write show ?thesis
    by (auto simp: preferences_ok_def changeLanguage_def write_works)
qed (use assms in \<open>auto simp: preferences_ok_def\<close>)

text \<open>A step function without effects, as the events of \<open>reactive\<close> see it.\<close>

definition preference_run :: "preferences \<Rightarrow> preference_event list \<Rightarrow> preferences" where
  "preference_run p es = fst (run_steps (\<lambda>p e. (preference_step p e, [] :: effect list)) p es)"

interpretation prefs: reactive "\<lambda>p e. (preference_step p e, [] :: effect list)" "preferences_ok d" for d
  by unfold_locales (simp add: preference_step_ok)

lemma storage_kept: "local_items p = Some (items, False) \<Longrightarrow> \<exists>items'. local_items (preference_step p e) = Some (items', False)"
  by (cases e) (auto simp: toggleTheme_def changeLanguage_def Let_def writeLocalStorage_def)

interpretation prefs_storage:
  reactive "\<lambda>p e. (preference_step p e, [] :: effect list)" "\<lambda>p. \<exists>items. local_items p = Some (items, False)"
  by unfold_locales (auto dest: storage_kept)

section \<open>Properties\<close>

text \<open>
  C20: Preferences survive a reload. After any use of the theme and language controls the theme shown is
  the document's and the document's language is the one chosen; where the storage works, loading the
  page again shows the same theme and the same language.
\<close>

theorem preferences_survive_reload:
  fixes w d es
  defines "p \<equiv> preference_run (page_load w d) es"
  shows "dataset_theme p = theme_text (shown_theme p) \<and> document_lang p = updateDocumentLanguage (i18n_language p) \<and>
    (case w of Some (items, False) \<Rightarrow>
       shown_theme (page_load (local_items p) d) = shown_theme p \<and>
       i18n_language (page_load (local_items p) d) = i18n_language p
     | _ \<Rightarrow> True)"
proof -
  have ok: "preferences_ok d p" unfolding p_def preference_run_def by (rule prefs.run_inv [OF page_load_ok])
  have "\<exists>items. local_items p = Some (items, False)" if "w = Some (items, False)" for items
    unfolding p_def preference_run_def
    by (rule prefs_storage.run_inv) (simp add: that page_load_def)
  with ok show ?thesis
    by (auto simp: preferences_ok_def page_load_def split: option.splits prod.splits bool.splits)
qed

text \<open>
  The footer links the release of the build: unless the version is blank or \<open>dev\<close>, the tag the
  link ends with decodes to the version with the surrounding white space removed.
\<close>

theorem footer_release_link:
  assumes "utf8_text (trim version)" "trim version \<noteq> []" "trim version \<noteq> ''dev''"
  shows "\<exists>tag. versionURL version = repositoryURL @ ''/releases/tag/'' @ tag \<and>
    decodeURIComponent tag = Some (trim version)"
  using assms decode_encode by (auto simp: versionURL_def normalizedVersion_def)

lemma footer_release_link_witness:
  "\<exists>tag. versionURL ''v1.2+b'' = repositoryURL @ ''/releases/tag/'' @ tag \<and>
    decodeURIComponent tag = Some ''v1.2+b''"
proof -
  have t: "trim ''v1.2+b'' = ''v1.2+b''" "ascii ''v1.2+b''" by (simp_all add: trim_plain ascii_def)
  from footer_release_link [of "''v1.2+b''", unfolded t(1), OF ascii_utf8_text [OF t(2)]] show ?thesis by simp
qed

end
