(* ===== verification/Auth.thy ===== *)
theory Auth
  imports Preferences Url
begin

text \<open>
  Signing in and out: \<open>web/src/features/auth/auth-provider.tsx\<close> (the session and what happens to the
  query cache when it is lost), \<open>auth-guard.tsx\<close>, the login and the setup page, and the route table
  of \<open>web/src/app/router.tsx\<close> they redirect between.

  The query library and the router are not part of the repository. The cache is a parameter with the
  operations of \<open>QueryClient\<close> that the provider calls (\<open>query_client\<close>), the function of the router that
  finds the route of a path is a parameter (\<open>matchRoutes\<close>). What a query yields (\<open>data\<close>, \<open>isLoading\<close>)
  is input.
\<close>

section \<open>The provider\<close>

record 'c query_client =
  qc_cancelQueries :: "(query_key \<Rightarrow> bool) \<Rightarrow> 'c \<Rightarrow> 'c"
  qc_removeQueries :: "(query_key \<Rightarrow> bool) \<Rightarrow> 'c \<Rightarrow> 'c"
  qc_setSession :: "query_key \<Rightarrow> admin_session option \<Rightarrow> 'c \<Rightarrow> 'c"

record 'a query_result =
  q_data :: "'a option"
  q_isLoading :: bool

record auth_value =
  session :: "admin_session option"
  setupStatus :: "setup_status option"
  isLoading :: bool

definition sessionQueryKey :: query_key where
  "sessionQueryKey = [''auth'', ''session'']"

definition setupQueryKey :: query_key where
  "setupQueryKey = [''setup'', ''status'']"

text \<open>A status 401 is the answer that nobody is signed in; every other failure rejects.\<close>

definition loadSession :: "js_error + admin_session \<Rightarrow> js_error + admin_session option" where
  "loadSession r =
     (case r of Inr s \<Rightarrow> Inr (Some s)
      | Inl e \<Rightarrow> (case e of ApiError st m c \<Rightarrow> if st = 401 then Inr None else Inl e | _ \<Rightarrow> Inl e))"

text \<open>\<open>String(queryKey[0])\<close> is \<open>''undefined''\<close> for an empty key.\<close>

definition authenticated_query :: "query_key \<Rightarrow> bool" where
  "authenticated_query k \<longleftrightarrow> (case k of [] \<Rightarrow> ''undefined'' | h # _ \<Rightarrow> h) \<notin> set [''auth'', ''setup'']"

definition clearAuthenticatedCache :: "'c query_client \<Rightarrow> 'c \<Rightarrow> 'c" where
  "clearAuthenticatedCache qc c =
     qc_setSession qc sessionQueryKey None
       (qc_removeQueries qc authenticated_query (qc_cancelQueries qc authenticated_query c))"

definition session_request :: effect where
  "session_request = Request ''/api/v1/auth/session'' no_init"

definition setup_status_request :: effect where
  "setup_status_request = Request ''/api/v1/setup/status'' no_init"

definition refresh :: "effect list" where
  "refresh = [Fetch_Query sessionQueryKey]"

definition refreshSetup :: "effect list" where
  "refreshSetup = [Fetch_Query setupQueryKey]"

definition logout_request :: effect where
  "logout_request = Request ''/api/v1/auth/logout'' (method_init ''POST'')"

text \<open>The outcome of \<open>logout\<close> once its request settles; the cache is cleared either way.\<close>

definition logout_settled :: "'c query_client \<Rightarrow> (js_error + json option) \<Rightarrow> 'c \<Rightarrow> 'c \<times> (js_error + unit)" where
  "logout_settled qc r c =
     (clearAuthenticatedCache qc c,
      case r of Inr _ \<Rightarrow> Inr ()
      | Inl e \<Rightarrow> (case e of ApiError st m co \<Rightarrow> if st \<noteq> 401 then Inl e else Inr () | _ \<Rightarrow> Inl e))"

definition auth_context :: "admin_session option query_result \<Rightarrow> setup_status query_result \<Rightarrow> auth_value" where
  "auth_context query setupQuery =
     \<lparr>session = (case q_data query of None \<Rightarrow> None | Some s \<Rightarrow> s), setupStatus = q_data setupQuery,
      isLoading = q_isLoading query \<or> q_isLoading setupQuery\<rparr>"

section \<open>Routes and redirects\<close>

datatype page =
    Page_Setup | Page_Login | Page_Index | Page_Upload | Page_Images | Page_Image_Detail
  | Page_Migrations | Page_Aliases | Page_Api_Tokens | Page_Settings | Page_System

definition admin_routes :: "(segment list \<times> page) list" where
  "admin_routes =
    [([], Page_Index), ([Fixed ''upload''], Page_Upload), ([Fixed ''images''], Page_Images),
     ([Fixed ''images'', Param], Page_Image_Detail), ([Fixed ''migrations''], Page_Migrations),
     ([Fixed ''aliases''], Page_Aliases), ([Fixed ''api-tokens''], Page_Api_Tokens),
     ([Fixed ''settings''], Page_Settings), ([Fixed ''system''], Page_System)]"

definition routes :: "(segment list \<times> page) list" where
  "routes =
    [([Fixed ''admin'', Fixed ''setup''], Page_Setup), ([Fixed ''admin'', Fixed ''login''], Page_Login)] @
    map (\<lambda>(ss, p). (Fixed ''admin'' # ss, p)) admin_routes"

type_synonym router = "(segment list \<times> page) list \<Rightarrow> string \<Rightarrow> page option"

record location =
  loc_pathname :: string
  loc_search :: string
  loc_hash :: string
  loc_from :: "string option"

text \<open>The location a path leads to: its query begins at the first question mark before a fragment.\<close>

definition location_of :: "string \<Rightarrow> string option \<Rightarrow> location" where
  "location_of to st =
     (let (rest, frag) = split_first CHR ''#'' to; (path, query) = split_first CHR ''?'' rest
      in \<lparr>loc_pathname = path, loc_search = url_attr CHR ''?'' query, loc_hash = url_attr CHR ''#'' frag,
          loc_from = st\<rparr>)"

datatype screen = Loading_Screen | Navigate_To string "string option" | Show_Page page | Not_Found

definition AuthGuard :: "auth_value \<Rightarrow> location \<Rightarrow> screen \<Rightarrow> screen" where
  "AuthGuard a loc children =
     (if isLoading a then Loading_Screen
      else if session a = None then
        (case setupStatus a of
           Some st \<Rightarrow>
             if \<not> initialized st then Navigate_To ''/admin/setup'' None
             else Navigate_To ''/admin/login'' (Some (loc_pathname loc @ loc_search loc @ loc_hash loc))
         | None \<Rightarrow> Navigate_To ''/admin/login'' (Some (loc_pathname loc @ loc_search loc @ loc_hash loc)))
      else children)"

definition loginDestination :: "string \<Rightarrow> string option \<Rightarrow> string" where
  "loginDestination origin from =
     (case from of None \<Rightarrow> ''/admin/upload''
      | Some f \<Rightarrow>
          if \<not> starts_with f ''/admin/'' then ''/admin/upload''
          else
            case parse_url origin f of None \<Rightarrow> ''/admin/upload''
            | Some candidate \<Rightarrow>
                if url_origin candidate \<noteq> origin \<or> \<not> starts_with (url_pathname candidate) ''/admin/'' \<or>
                   url_pathname candidate \<in> set [''/admin/login'', ''/admin/setup'']
                then ''/admin/upload''
                else url_pathname candidate @ url_search candidate @ url_hash candidate)"

definition login_screen :: "auth_value \<Rightarrow> string \<Rightarrow> location \<Rightarrow> screen" where
  "login_screen a origin loc =
     (if session a \<noteq> None then Navigate_To (loginDestination origin (loc_from loc)) None
      else case setupStatus a of
          Some st \<Rightarrow> if \<not> initialized st then Navigate_To ''/admin/setup'' None else Show_Page Page_Login
        | None \<Rightarrow> Show_Page Page_Login)"

definition setup_screen :: "auth_value \<Rightarrow> screen" where
  "setup_screen a =
     (if session a \<noteq> None then Navigate_To ''/admin/upload'' None
      else case setupStatus a of
          Some st \<Rightarrow> if initialized st then Navigate_To ''/admin/login'' None else Show_Page Page_Setup
        | None \<Rightarrow> Show_Page Page_Setup)"

definition screen_at :: "router \<Rightarrow> string \<Rightarrow> auth_value \<Rightarrow> location \<Rightarrow> screen" where
  "screen_at matchRoutes origin a loc =
     (case matchRoutes routes (loc_pathname loc) of
        None \<Rightarrow> Not_Found
      | Some p \<Rightarrow>
          (if p = Page_Setup then setup_screen a
           else if p = Page_Login then login_screen a origin loc
           else AuthGuard a loc
             (if p = Page_Index then Navigate_To ''/admin/upload'' None else Show_Page p)))"

inductive redirects :: "router \<Rightarrow> string \<Rightarrow> auth_value \<Rightarrow> location \<Rightarrow> location \<Rightarrow> bool"
  for matchRoutes :: router and origin :: string and a :: auth_value where
  Redirect: "screen_at matchRoutes origin a loc = Navigate_To to from \<Longrightarrow>
    redirects matchRoutes origin a loc (location_of to from)"

inductive_simps redirects_iff: "redirects matchRoutes origin a loc loc'"

section \<open>The login page\<close>

text \<open>The theme button and the language menu of the toolbar are those of the header.\<close>

definition login_controls :: "preferences \<Rightarrow> preference_event \<Rightarrow> preferences" where
  "login_controls = preference_step"

definition setup_controls :: "preferences \<Rightarrow> preference_event \<Rightarrow> preferences" where
  "setup_controls = preference_step"

datatype form_phase = Form_Idle | Form_Posting | Form_Refreshing bool bool

record login_page =
  login_error :: "string option"
  login_phase :: form_phase

definition login_init :: login_page where
  "login_init = \<lparr>login_error = None, login_phase = Form_Idle\<rparr>"

datatype login_event =
    Login_Submit string string
  | Login_Settled "js_error + json option"
  | Login_Session_Settled "js_error + admin_session option"

text \<open>The submit button is disabled while the form is submitting, so it is not submitted twice.\<close>

fun login_step :: "string \<Rightarrow> login_page \<Rightarrow> login_event \<Rightarrow> login_page \<times> effect list" where
  "login_step destination p (Login_Submit em pw) =
     (if login_phase p \<noteq> Form_Idle then (p, [])
      else (p\<lparr>login_error := None, login_phase := Form_Posting\<rparr>,
            [Request ''/api/v1/auth/login''
               (json_init ''POST'' (JObj [(''email'', JStr em), (''password'', JStr pw)]))]))"
| "login_step destination p (Login_Settled r) =
     (if login_phase p \<noteq> Form_Posting then (p, [])
      else case r of
          Inl _ \<Rightarrow> (p\<lparr>login_error := Some ''auth.invalidCredentials'', login_phase := Form_Idle\<rparr>, [])
        | Inr _ \<Rightarrow> (p\<lparr>login_phase := Form_Refreshing False True\<rparr>, refresh))"
| "login_step destination p (Login_Session_Settled r) =
     (case login_phase p of
        Form_Refreshing _ _ \<Rightarrow>
          (case r of
             Inl _ \<Rightarrow> (p\<lparr>login_error := Some ''auth.invalidCredentials'', login_phase := Form_Idle\<rparr>, [])
           | Inr _ \<Rightarrow> (p\<lparr>login_phase := Form_Idle\<rparr>, [Navigate destination True]))
      | _ \<Rightarrow> (p, []))"

section \<open>The setup page\<close>

record setup_form =
  f_bootstrapToken :: string
  f_displayName :: string
  f_email :: string
  f_password :: string
  f_confirmPassword :: string

record setup_page =
  setup_error :: "string option"
  setup_phase :: form_phase
  setup_visibility :: visibility
  setup_compression :: bool
  setup_conversion :: bool

definition setup_init :: setup_page where
  "setup_init = \<lparr>setup_error = None, setup_phase = Form_Idle, setup_visibility = Public,
     setup_compression = False, setup_conversion = False\<rparr>"

definition setup_request_of :: "setup_page \<Rightarrow> setup_form \<Rightarrow> setup_request" where
  "setup_request_of p f =
     \<lparr>bootstrapToken = f_bootstrapToken f, sr_displayName = f_displayName f, sr_email = f_email f,
      sr_password = f_password f, sr_defaultVisibility = setup_visibility p,
      sr_compressionEnabled = setup_compression p, sr_jpegQuality = 85, sr_webpQuality = 82,
      sr_pngCompressionLevel = 6, sr_conversionEnabled = setup_conversion p,
      sr_conversionWebpQuality = 82, sr_conversionWebpLossless = False\<rparr>"

definition setup_json :: "setup_request \<Rightarrow> json" where
  "setup_json r =
     JObj [(''bootstrapToken'', JStr (bootstrapToken r)), (''displayName'', JStr (sr_displayName r)),
       (''email'', JStr (sr_email r)), (''password'', JStr (sr_password r)),
       (''defaultVisibility'', JStr (visibility_text (sr_defaultVisibility r))),
       (''compressionEnabled'', JBool (sr_compressionEnabled r)),
       (''jpegQuality'', JNum (of_nat (sr_jpegQuality r))),
       (''webpQuality'', JNum (of_nat (sr_webpQuality r))),
       (''pngCompressionLevel'', JNum (of_nat (sr_pngCompressionLevel r))),
       (''conversionEnabled'', JBool (sr_conversionEnabled r)),
       (''conversionWebpQuality'', JNum (of_nat (sr_conversionWebpQuality r))),
       (''conversionWebpLossless'', JBool (sr_conversionWebpLossless r))]"

datatype setup_event =
    Setup_Submit setup_form
  | Setup_Visibility visibility
  | Setup_Compression bool
  | Setup_Conversion bool
  | Setup_Settled "js_error + json option"
  | Setup_Session_Settled "js_error + admin_session option"
  | Setup_Status_Settled "js_error + setup_status"

text \<open>One of the two refreshes settled: \<open>Promise.all\<close> rejects at once or waits for the other.\<close>

definition setup_refreshed :: "setup_page \<Rightarrow> bool \<Rightarrow> bool \<Rightarrow> bool \<Rightarrow> setup_page \<times> effect list" where
  "setup_refreshed p failed session_done status_done =
     (if failed then (p\<lparr>setup_error := Some ''setup.failed'', setup_phase := Form_Idle\<rparr>, [])
      else if session_done \<and> status_done
        then (p\<lparr>setup_phase := Form_Idle\<rparr>, [Navigate ''/admin/upload'' True])
      else (p\<lparr>setup_phase := Form_Refreshing session_done status_done\<rparr>, []))"

fun setup_step :: "setup_page \<Rightarrow> setup_event \<Rightarrow> setup_page \<times> effect list" where
  "setup_step p (Setup_Submit f) =
     (if setup_phase p \<noteq> Form_Idle then (p, [])
      else if f_password f \<noteq> f_confirmPassword f
        then (p\<lparr>setup_error := Some ''setup.passwordMismatch''\<rparr>, [])
      else (p\<lparr>setup_phase := Form_Posting, setup_error := None\<rparr>,
            [Request ''/api/v1/setup'' (json_init ''POST'' (setup_json (setup_request_of p f)))]))"
| "setup_step p (Setup_Visibility v) = (p\<lparr>setup_visibility := v\<rparr>, [])"
| "setup_step p (Setup_Compression b) = (p\<lparr>setup_compression := b\<rparr>, [])"
| "setup_step p (Setup_Conversion b) = (p\<lparr>setup_conversion := b\<rparr>, [])"
| "setup_step p (Setup_Settled r) =
     (if setup_phase p \<noteq> Form_Posting then (p, [])
      else case r of
          Inl _ \<Rightarrow> (p\<lparr>setup_error := Some ''setup.failed'', setup_phase := Form_Idle\<rparr>, [])
        | Inr _ \<Rightarrow> (p\<lparr>setup_phase := Form_Refreshing False False\<rparr>, refresh @ refreshSetup))"
| "setup_step p (Setup_Session_Settled r) =
     (case setup_phase p of
        Form_Refreshing _ status_done \<Rightarrow> setup_refreshed p (isl r) True status_done
      | _ \<Rightarrow> (p, []))"
| "setup_step p (Setup_Status_Settled r) =
     (case setup_phase p of
        Form_Refreshing session_done _ \<Rightarrow> setup_refreshed p (isl r) session_done True
      | _ \<Rightarrow> (p, []))"


section \<open>Destinations\<close>

lemma admin_upload_no_delims: "CHR ''?'' \<notin> set ''/admin/upload''" "CHR ''#'' \<notin> set ''/admin/upload''"
  by simp_all

lemma location_of_plain:
  "CHR ''?'' \<notin> set p \<Longrightarrow> CHR ''#'' \<notin> set p \<Longrightarrow>
   location_of p st = \<lparr>loc_pathname = p, loc_search = [], loc_hash = [], loc_from = st\<rparr>"
  by (simp add: location_of_def split_first_absent url_attr_def)

lemma url_attr_split:
  assumes "c \<notin> set a"
  shows "\<exists>v. split_first c (a @ url_attr c w) = (a, v) \<and> url_attr c v = url_attr c w"
proof (cases "url_attr c w = []")
  case True
  then show ?thesis using assms by (auto simp: split_first_absent url_attr_def split: option.splits)
next
  case False
  then obtain x where w: "w = Some x" "x \<noteq> []" by (auto simp: url_attr_def split: option.splits if_splits)
  then have "split_first c (a @ url_attr c w) = (a, Some x)" using assms by (simp add: url_attr_def split_first_found)
  then show ?thesis using w by auto
qed

lemma location_of_parts:
  assumes "CHR ''?'' \<notin> set p" "CHR ''#'' \<notin> set p" "CHR ''#'' \<notin> set (url_attr CHR ''?'' q)"
  shows "location_of (p @ url_attr CHR ''?'' q @ url_attr CHR ''#'' f) st =
    \<lparr>loc_pathname = p, loc_search = url_attr CHR ''?'' q, loc_hash = url_attr CHR ''#'' f, loc_from = st\<rparr>"
proof -
  have "CHR ''#'' \<notin> set (p @ url_attr CHR ''?'' q)" using assms by simp
  from url_attr_split [OF this, of f] obtain v where
    v: "split_first CHR ''#'' ((p @ url_attr CHR ''?'' q) @ url_attr CHR ''#'' f) = (p @ url_attr CHR ''?'' q, v)"
      "url_attr CHR ''#'' v = url_attr CHR ''#'' f" by blast
  from url_attr_split [OF assms(1), of q] obtain u where
    u: "split_first CHR ''?'' (p @ url_attr CHR ''?'' q) = (p, u)" "url_attr CHR ''?'' u = url_attr CHR ''?'' q" by blast
  show ?thesis using u v by (simp add: location_of_def)
qed

text \<open>The pages a sign-in may lead to.\<close>

definition admin_destination :: "location \<Rightarrow> bool" where
  "admin_destination loc \<longleftrightarrow>
     starts_with (loc_pathname loc) ''/admin/'' \<and> loc_pathname loc \<notin> {''/admin/login'', ''/admin/setup''}"

lemma destination_cases:
  "loginDestination origin st = ''/admin/upload'' \<or>
   (\<exists>u. parse_url origin (the st) = Some u \<and> starts_with (url_pathname u) ''/admin/'' \<and>
      url_pathname u \<notin> {''/admin/login'', ''/admin/setup''} \<and>
      loginDestination origin st = url_pathname u @ url_search u @ url_hash u)"
  by (auto simp: loginDestination_def split: option.splits)

lemma upload_destination: "admin_destination (location_of ''/admin/upload'' st)"
  by (simp add: location_of_plain admin_destination_def starts_with_def)

lemma parsed_location:
  assumes "parse_url origin ref = Some u"
  shows "location_of (url_pathname u @ url_search u @ url_hash u) st =
    \<lparr>loc_pathname = url_pathname u, loc_search = url_search u, loc_hash = url_hash u, loc_from = st\<rparr>"
  using parse_url_parts [OF assms] unfolding url_search_def url_hash_def by (rule location_of_parts)

lemma destination_ok: "admin_destination (location_of (loginDestination origin st) st')"
  using destination_cases [of origin st] upload_destination
  by (auto simp: parsed_location) (auto simp: admin_destination_def)

lemma starts_with_append: "starts_with a p \<Longrightarrow> starts_with (a @ b) p"
  by (auto simp: starts_with_iff)

text \<open>
  C15: Signing in never leaves the administration: whatever text the state of the location holds, the
  destination is a path under \<open>/admin/\<close> of this server (not a protocol-relative one, nor one that dot
  segments lead outside), and never the login or the setup page itself.
\<close>

theorem login_destination_safe:
  fixes origin st
  defines "d \<equiv> loginDestination origin st"
  shows "starts_with d ''/admin/'' \<and> starts_with (loc_pathname (location_of d None)) ''/admin/'' \<and>
    loc_pathname (location_of d None) \<notin> {''/admin/login'', ''/admin/setup''}"
proof -
  have "starts_with d ''/admin/''"
    using destination_cases [of origin st] unfolding d_def
    by (auto intro: starts_with_append) (simp add: starts_with_def)
  then show ?thesis using destination_ok [of origin st None] by (simp add: d_def admin_destination_def)
qed

text \<open>
  C16: A deep link survives the sign-in. Visited without a session, an administration page with a
  well-formed path, query and fragment redirects to the login page, which, once the session is there,
  redirects to that very location.
\<close>

theorem deep_link_survives_login:
  fixes a loc ss q f s origin children
  assumes "\<not> isLoading a" "session a = None" "\<forall>st. setupStatus a = Some st \<longrightarrow> initialized st"
    and segs: "ss \<noteq> []" "list_all clean_segment ss" and long: "ss \<notin> {[''login''], [''setup'']}"
    and q: "\<forall>x \<in> set_option q. list_all clean_char x" and f: "\<forall>x \<in> set_option f. list_all clean_char x"
    and loc: "loc = \<lparr>loc_pathname = ''/admin/'' @ join ''/'' ss, loc_search = url_attr CHR ''?'' q,
      loc_hash = url_attr CHR ''#'' f, loc_from = None\<rparr>"
  shows "\<exists>from. AuthGuard a loc children = Navigate_To ''/admin/login'' (Some from) \<and>
    (\<exists>to. login_screen (a\<lparr>session := Some s\<rparr>) origin (location_of ''/admin/login'' (Some from)) = Navigate_To to None \<and>
      location_of to None = loc)"
proof -
  let ?from = "loc_pathname loc @ loc_search loc @ loc_hash loc"
  define norm :: "string option \<Rightarrow> string option" where "norm v = (case v of Some [] \<Rightarrow> None | _ \<Rightarrow> v)" for v
  have norm: "url_attr c v = url_part c (norm v)" "url_attr c (norm v) = url_attr c v"
    "\<forall>x \<in> set_option v. list_all clean_char x \<Longrightarrow> \<forall>x \<in> set_option (norm v). list_all clean_char x" for c v
    by (auto simp: norm_def url_attr_def url_part_def split: option.splits list.splits)
  have guard: "AuthGuard a loc children = Navigate_To ''/admin/login'' (Some ?from)"
    using assms(1-3) by (auto simp: AuthGuard_def split: option.splits)
  have admin: "clean_segment ''admin''"
    by (simp add: clean_segment_def clean_char_def single_dot_def double_dot_def to_lower_def lower_char_def)
  have join: "join ''/'' (''admin'' # ss) = ''admin/'' @ join ''/'' ss" using segs(1) by (cases ss) auto
  have parse: "parse_url origin ?from =
      Some \<lparr>url_origin = origin, url_pathname = CHR ''/'' # join ''/'' (''admin'' # ss),
            url_query = norm q, url_fragment = norm f\<rparr>"
    using parse_url_clean_parts [of "''admin'' # ss" "norm q" "norm f" origin] segs(2) admin norm(3) [OF q] norm(3) [OF f]
    by (simp add: loc norm(1) join)
  have noslash: "x \<in> set ss \<Longrightarrow> CHR ''/'' \<notin> set x" for x
    using segs(2) by (auto simp: list_all_iff clean_segment_def dest: clean_char_facts(2))
  have ne: "join ''/'' ss \<noteq> w" if "ss \<noteq> [w]" "CHR ''/'' \<notin> set w" for w
    using split_on_join [OF segs(1), of "CHR ''/''"] noslash split_on_absent [OF that(2)] that(1) by auto
  have not_form: "join ''/'' ss \<noteq> ''login''" "join ''/'' ss \<noteq> ''setup''" using long ne [of "''login''"] ne [of "''setup''"] by auto
  have dest: "loginDestination origin (Some ?from) = ?from"
    using not_form by (simp add: loginDestination_def parse) (simp add: loc starts_with_def join url_search_def url_hash_def norm(2))
  have origin_of: "loc_from (location_of ''/admin/login'' (Some ?from)) = Some ?from"
    by (simp add: location_of_def split_def Let_def)
  have "location_of ?from None = \<lparr>loc_pathname = loc_pathname loc, loc_search = loc_search loc,
      loc_hash = loc_hash loc, loc_from = None\<rparr>"
    using parse_url_parts [OF parse] location_of_parts [of "''/admin/'' @ join ''/'' ss" q f None]
    unfolding loc by (simp add: url_search_def norm(2) join)
  then have "location_of ?from None = loc" by (simp add: loc)
  with guard dest origin_of show ?thesis by (auto simp: login_screen_def)
qed

definition sample_session :: admin_session where
  "sample_session = \<lparr>adminId = ''1'', displayName = ''A'', email = ''a@example.org'', csrfToken = ''t'',
     session_expiresAt = ''2030-01-01T00:00:00Z''\<rparr>"

lemma deep_link_survives_login_witness:
  "\<exists>from. AuthGuard \<lparr>session = None, setupStatus = Some \<lparr>initialized = True\<rparr>, isLoading = False\<rparr>
       \<lparr>loc_pathname = ''/admin/images'', loc_search = ''?q=cat'', loc_hash = [], loc_from = None\<rparr> (Show_Page Page_Images) =
      Navigate_To ''/admin/login'' (Some from) \<and>
    (\<exists>to. login_screen \<lparr>session = Some sample_session, setupStatus = Some \<lparr>initialized = True\<rparr>, isLoading = False\<rparr> ''https://a.example''
        (location_of ''/admin/login'' (Some from)) = Navigate_To to None \<and>
      location_of to None = \<lparr>loc_pathname = ''/admin/images'', loc_search = ''?q=cat'', loc_hash = [], loc_from = None\<rparr>)"
  using deep_link_survives_login
    [of "\<lparr>session = None, setupStatus = Some \<lparr>initialized = True\<rparr>, isLoading = False\<rparr>" "[''images'']" "Some ''q=cat''" None
      "\<lparr>loc_pathname = ''/admin/images'', loc_search = ''?q=cat'', loc_hash = [], loc_from = None\<rparr>" "Show_Page Page_Images" sample_session]
  by (simp add: clean_segment_def clean_char_def single_dot_def double_dot_def to_lower_def lower_char_def url_attr_def)

section \<open>Redirects end\<close>

definition final_location :: "router \<Rightarrow> string \<Rightarrow> auth_value \<Rightarrow> location \<Rightarrow> bool" where
  "final_location m origin a loc \<longleftrightarrow> (\<forall>to from. screen_at m origin a loc \<noteq> Navigate_To to from)"

lemma final_iff: "final_location m origin a loc \<longleftrightarrow> \<not> (\<exists>loc'. redirects m origin a loc loc')"
  by (auto simp: final_location_def redirects_iff)

text \<open>What the redirects rely on of the router: it finds the three static routes they lead to.\<close>

definition router_ok :: "router \<Rightarrow> bool" where
  "router_ok m \<longleftrightarrow> m routes ''/admin/upload'' = Some Page_Upload \<and> m routes ''/admin/login'' = Some Page_Login \<and>
     m routes ''/admin/setup'' = Some Page_Setup"

lemma location_paths [simp]:
  "loc_pathname (location_of ''/admin/upload'' st) = ''/admin/upload''"
  "loc_pathname (location_of ''/admin/login'' st) = ''/admin/login''"
  "loc_pathname (location_of ''/admin/setup'' st) = ''/admin/setup''"
  by (simp_all add: location_of_plain)

lemma loc_from_location_of [simp]: "loc_from (location_of p st) = st"
  by (simp add: location_of_def split_def Let_def)

lemma first_redirect:
  assumes "router_ok m" "screen_at m origin a loc = Navigate_To to st"
  shows "final_location m origin a (location_of to st) \<or>
    (\<exists>to'. screen_at m origin a (location_of to st) = Navigate_To to' None \<and>
       final_location m origin a (location_of to' None))"
proof (cases "session a")
  case None
  show ?thesis
  proof (cases "\<exists>st. setupStatus a = Some st \<and> \<not> initialized st")
    case True
    then have "to = ''/admin/setup''" using assms None
      by (auto simp: screen_at_def setup_screen_def login_screen_def AuthGuard_def split: option.splits if_splits)
    moreover have "setup_screen a = Show_Page Page_Setup" using True None by (auto simp: setup_screen_def)
    ultimately show ?thesis using assms(1) by (simp add: final_location_def screen_at_def router_ok_def)
  next
    case False
    then have "to = ''/admin/login''" using assms None
      by (auto simp: screen_at_def setup_screen_def login_screen_def AuthGuard_def split: option.splits if_splits)
    moreover have "login_screen a origin l = Show_Page Page_Login" for l
      using False None by (auto simp: login_screen_def split: option.splits)
    ultimately show ?thesis using assms(1) by (simp add: final_location_def screen_at_def router_ok_def)
  qed
next
  case (Some s)
  have upload: "final_location m origin a (location_of ''/admin/upload'' st)" for st
    using assms(1) Some by (auto simp: final_location_def screen_at_def router_ok_def AuthGuard_def)
  have no_from: "st = None"
    using assms(2) Some by (auto simp: screen_at_def setup_screen_def login_screen_def AuthGuard_def split: option.splits if_splits)
  have plain: "to' = ''/admin/upload''" if "screen_at m origin a l = Navigate_To to' st" "loc_from l = None" for l to' st
    using that Some by (auto simp: screen_at_def setup_screen_def login_screen_def AuthGuard_def loginDestination_def split: option.splits if_splits)
  have st_None: "st = None" if "screen_at m origin a l = Navigate_To to' st" for l to' st
    using that Some by (auto simp: screen_at_def setup_screen_def login_screen_def AuthGuard_def split: option.splits if_splits)
  show ?thesis
  proof (cases "final_location m origin a (location_of to st)")
    case False
    then obtain to' st' where r: "screen_at m origin a (location_of to st) = Navigate_To to' st'"
      by (auto simp: final_location_def)
    have "to' = ''/admin/upload''" using plain [OF r] no_from by simp
    then show ?thesis using r st_None [OF r] upload by auto
  qed simp
qed

text \<open>
  C17: Redirects between the guard, the login and the setup page end: from any location and in any
  state of the session, at most two redirects lead to a location that redirects no further.
\<close>

theorem redirects_settle:
  assumes "router_ok m"
  shows "\<exists>n \<le> 2. \<exists>loc'. (redirects m origin a ^^ n) loc loc' \<and> \<not> (\<exists>next. redirects m origin a loc' next)"
proof (cases "final_location m origin a loc")
  case True
  then show ?thesis by (intro exI [of _ 0]) (auto simp: final_iff)
next
  case False
  then obtain to st where r: "screen_at m origin a loc = Navigate_To to st"
    by (auto simp: final_location_def)
  then have r1: "redirects m origin a loc (location_of to st)" by (rule redirects.Redirect)
  from first_redirect [OF assms r] show ?thesis
  proof
    assume "final_location m origin a (location_of to st)"
    then show ?thesis using r1 by (intro exI [of _ 1]) (auto simp: final_iff)
  next
    assume "\<exists>to'. screen_at m origin a (location_of to st) = Navigate_To to' None \<and>
       final_location m origin a (location_of to' None)"
    then obtain to' where s: "screen_at m origin a (location_of to st) = Navigate_To to' None"
      "final_location m origin a (location_of to' None)" by blast
    from s(1) have "redirects m origin a (location_of to st) (location_of to' None)" by (rule redirects.Redirect)
    with r1 have "(redirects m origin a ^^ 2) loc (location_of to' None)"
      by (auto simp: numeral_2_eq_2 relcompp_apply)
    then show ?thesis using s(2) by (intro exI [of _ 2]) (auto simp: final_iff)
  qed
qed

text \<open>A router that matches the segments of a path, for the witnesses.\<close>

definition find_route :: router where
  "find_route rs path = map_option snd (find (\<lambda>(t, _). segments_match t (tl (split_on CHR ''/'' path))) rs)"

lemma find_route_ok: "router_ok find_route"
  by (simp add: router_ok_def find_route_def routes_def admin_routes_def)

lemma redirects_settle_witness:
  "\<exists>n \<le> 2. \<exists>loc'. (redirects find_route [] \<lparr>session = None, setupStatus = None, isLoading = False\<rparr> ^^ n)
      (location_of ''/admin/system'' None) loc' \<and>
    \<not> (\<exists>next. redirects find_route [] \<lparr>session = None, setupStatus = None, isLoading = False\<rparr> loc' next)"
  by (rule redirects_settle) (rule find_route_ok)

section \<open>Losing the session\<close>

text \<open>What the provider relies on of the cache, for \<open>get\<close> the data of a key.\<close>

definition query_client_ok :: "'c query_client \<Rightarrow> ('c \<Rightarrow> query_key \<Rightarrow> 'v option) \<Rightarrow> ('c \<Rightarrow> admin_session option option) \<Rightarrow> bool" where
  "query_client_ok qc get session_data \<longleftrightarrow>
     (\<forall>P c k. get (qc_cancelQueries qc P c) k = get c k) \<and>
     (\<forall>P c k. get (qc_removeQueries qc P c) k = (if P k then None else get c k)) \<and>
     (\<forall>c s k. k \<noteq> sessionQueryKey \<longrightarrow> get (qc_setSession qc sessionQueryKey s c) k = get c k) \<and>
     (\<forall>c s. session_data (qc_setSession qc sessionQueryKey s c) = Some s)"

lemma clear_cache:
  assumes "query_client_ok qc get session_data"
  shows "authenticated_query k \<Longrightarrow> get (clearAuthenticatedCache qc c) k = None"
    and "\<not> authenticated_query k \<Longrightarrow> k \<noteq> sessionQueryKey \<Longrightarrow> get (clearAuthenticatedCache qc c) k = get c k"
    and "session_data (clearAuthenticatedCache qc c) = Some None"
proof -
  have "\<not> authenticated_query sessionQueryKey" by (simp add: authenticated_query_def sessionQueryKey_def)
  then show "authenticated_query k \<Longrightarrow> get (clearAuthenticatedCache qc c) k = None"
    and "\<not> authenticated_query k \<Longrightarrow> k \<noteq> sessionQueryKey \<Longrightarrow> get (clearAuthenticatedCache qc c) k = get c k"
    and "session_data (clearAuthenticatedCache qc c) = Some None"
    using assms by (cases "k = sessionQueryKey"; simp add: clearAuthenticatedCache_def query_client_ok_def)+
qed


text \<open>A cache of the session and of the texts of other queries, for the witnesses.\<close>

type_synonym simple_cache = "admin_session option option \<times> (query_key \<Rightarrow> string option)"

definition simple_client :: "simple_cache query_client" where
  "simple_client = \<lparr>qc_cancelQueries = (\<lambda>_ c. c),
     qc_removeQueries = (\<lambda>P (s, m). (s, \<lambda>k. if P k then None else m k)),
     qc_setSession = (\<lambda>_ s (_, m). (Some s, m))\<rparr>"

lemma simple_client_ok: "query_client_ok simple_client snd fst"
  by (auto simp: query_client_ok_def simple_client_def split: prod.splits)


text \<open>
  C19: Signing out always clears what was signed in: whether the request succeeds, is answered 401 or
  fails, nothing of the signed-in pages stays in the cache and the session is gone; the call rejects
  exactly when the request failed otherwise than with a 401.
\<close>

theorem logout_clears:
  fixes qc :: "'c query_client" and get :: "'c \<Rightarrow> query_key \<Rightarrow> 'v option"
  assumes "query_client_ok qc get session_data"
  shows "(\<forall>k. authenticated_query k \<longrightarrow> get (fst (logout_settled qc r c)) k = None) \<and>
    session_data (fst (logout_settled qc r c)) = Some None \<and>
    (isl (snd (logout_settled qc r c)) \<longleftrightarrow> (\<exists>e. r = Inl e \<and> (\<forall>m co. e \<noteq> ApiError 401 m co)))"
  using clear_cache [OF assms]
  by (auto simp: logout_settled_def split: sum.splits js_error.splits)

lemma logout_clears_witness:
  "snd (fst (logout_settled simple_client (Inl Abort_Error) (None, \<lambda>_. Some ''x''))) [''images''] = None \<and>
   fst (fst (logout_settled simple_client (Inl Abort_Error) (None, \<lambda>_. Some ''x''))) = Some None"
  using logout_clears [OF simple_client_ok, of "Inl Abort_Error" "(None, \<lambda>_. Some ''x'')"]
  by (simp add: authenticated_query_def)

end
