(* ===== verification/Layout.thy ===== *)
theory Layout
  imports Auth
begin

text \<open>
  The frame of the administration pages, \<open>web/src/components/layout/admin-layout.tsx\<close>: navigation and
  its dock, the menus and dialogs it opens and when they close, the search box, signing out; and the
  preloading of a page's module, \<open>web/src/app/page-loaders.ts\<close>.

  The path and the kind of the last navigation are the router's and arrive as events. \<open>initials\<close> and the
  texts that are only shown are left out.
\<close>

section \<open>Navigation\<close>

record nav_item =
  nav_icon :: string
  nav_key :: string
  nav_to :: string

definition nav :: "string \<Rightarrow> string \<Rightarrow> string \<Rightarrow> nav_item" where
  "nav i k t = \<lparr>nav_icon = i, nav_key = k, nav_to = t\<rparr>"

definition workspaceNavigation :: "nav_item list" where
  "workspaceNavigation =
    [nav ''upload'' ''upload'' ''/admin/upload'', nav ''images'' ''images'' ''/admin/images'',
     nav ''server'' ''migrations'' ''/admin/migrations'', nav ''history'' ''aliases'' ''/admin/aliases'']"

definition systemNavigation :: "nav_item list" where
  "systemNavigation =
    [nav ''key'' ''apiTokens'' ''/admin/api-tokens'', nav ''settings'' ''settings'' ''/admin/settings'',
     nav ''activity'' ''system'' ''/admin/system'']"

definition navigationItems :: "nav_item list" where
  "navigationItems = workspaceNavigation @ systemNavigation"

text \<open>\<open>findIndex\<close> is - 1 where no item matches.\<close>

fun find_index :: "('a \<Rightarrow> bool) \<Rightarrow> 'a list \<Rightarrow> int" where
  "find_index P [] = - 1"
| "find_index P (x # xs) = (if P x then 0 else let i = find_index P xs in if i < 0 then - 1 else i + 1)"

definition currentIndex :: "string \<Rightarrow> int" where
  "currentIndex path = find_index (\<lambda>item. starts_with path (nav_to item)) navigationItems"

definition currentItem :: "string \<Rightarrow> nav_item option" where
  "currentItem path = (if currentIndex path < 0 then None else Some (navigationItems ! nat (currentIndex path)))"

definition dockIndex :: "bool \<Rightarrow> string \<Rightarrow> int" where
  "dockIndex mob path =
     (if mob then min (max (currentIndex path) 0) 2 else max (currentIndex path) 0)"

definition dock_count :: "bool \<Rightarrow> nat" where
  "dock_count mob = (if mob then 3 else length navigationItems)"

definition dock_items :: "bool \<Rightarrow> nav_item list" where
  "dock_items mob = (if mob then take 2 navigationItems else navigationItems)"

text \<open>The button for the remaining pages, on small screens: its label, and whether it stands for the page.\<close>

definition more_button :: "string \<Rightarrow> bool \<times> string" where
  "more_button path =
     (if 1 < currentIndex path
      then (True, ''nav.compact.'' @ nav_key (navigationItems ! nat (currentIndex path)))
      else (False, ''nav.more''))"

section \<open>Preloading\<close>

definition pageLoaders :: "(string \<times> page) list" where
  "pageLoaders =
    [(''/admin/upload'', Page_Upload), (''/admin/images'', Page_Images),
     (''/admin/migrations'', Page_Migrations), (''/admin/aliases'', Page_Aliases),
     (''/admin/api-tokens'', Page_Api_Tokens), (''/admin/settings'', Page_Settings),
     (''/admin/system'', Page_System)]"

definition preloadAdminPage :: "string \<Rightarrow> page option" where
  "preloadAdminPage path =
     (if starts_with path ''/admin/images/'' then Some Page_Image_Detail else map_of pageLoaders path)"

section \<open>The layout\<close>

datatype navigation_type = POP | PUSH | REPLACE

record admin_layout =
  mobileOpen :: bool
  mobile :: bool
  searchOpen :: bool
  searchTerm :: string
  profileOpen :: bool
  preferences_of :: preferences
  layout_path :: string
  layout_navigation :: navigation_type

definition layout_init :: "bool \<Rightarrow> preferences \<Rightarrow> string \<Rightarrow> admin_layout" where
  "layout_init mob prefs path =
     \<lparr>mobileOpen = False, mobile = mob, searchOpen = False, searchTerm = [], profileOpen = False,
      preferences_of = prefs, layout_path = path, layout_navigation = POP\<rparr>"

datatype account_event = Profile_Toggle | Profile_Open_Change bool | Settings_Item | Sign_Out_Item

datatype search_event = Search_Close | Search_Input string | Search_Submit

datatype sheet_event = More_Button | Sheet_Close | Sheet_Link string

datatype layout_event =
    Media_Change bool
  | Document_Key bool bool string
  | Location_Change string navigation_type
  | Preference preference_event
  | Account account_event
  | Logout_Done "js_error + unit"
  | Search_Trigger
  | Search search_event
  | Sheet sheet_event

definition search_path :: "string \<Rightarrow> string" where
  "search_path query =
     (if query \<noteq> [] then ''/admin/images?q='' @ encodeURIComponent query else ''/admin/images'')"

definition media_update :: "bool \<Rightarrow> admin_layout \<Rightarrow> admin_layout" where
  "media_update matches l = l\<lparr>mobile := matches, mobileOpen := (if \<not> matches then False else mobileOpen l)\<rparr>"

definition openSearch :: "bool \<Rightarrow> bool \<Rightarrow> string \<Rightarrow> admin_layout \<Rightarrow> admin_layout" where
  "openSearch meta ctrl key l =
     (if (meta \<or> ctrl) \<and> to_lower key = ''k'' then l\<lparr>mobileOpen := False, searchOpen := True\<rparr> else l)"

text \<open>The two effects of a new location: menus close, and a page not reached by going back starts at its top.\<close>

definition location_effects ::
    "string \<Rightarrow> navigation_type \<Rightarrow> admin_layout \<Rightarrow> admin_layout \<times> effect list" where
  "location_effects path ty l =
     ((if path \<noteq> layout_path l
       then l\<lparr>mobileOpen := False, profileOpen := False,
              preferences_of := (preferences_of l)\<lparr>languageOpen := False\<rparr>,
              layout_path := path, layout_navigation := ty\<rparr>
       else l\<lparr>layout_navigation := ty\<rparr>),
      if (path \<noteq> layout_path l \<or> ty \<noteq> layout_navigation l) \<and> ty \<noteq> POP then [Scroll_To (Fin 0)] else [])"

text \<open>\<open>signOut\<close> after its call of \<open>logout\<close>: a rejection ends it.\<close>

definition signOut :: "js_error + unit \<Rightarrow> effect list" where
  "signOut r = (case r of Inl _ \<Rightarrow> [] | Inr _ \<Rightarrow> [Navigate ''/admin/login'' True])"

definition searchImages :: "admin_layout \<Rightarrow> admin_layout \<times> effect list" where
  "searchImages l =
     (l\<lparr>searchOpen := False, searchTerm := []\<rparr>, [Navigate (search_path (trim (searchTerm l))) False])"

fun account_menu :: "admin_layout \<Rightarrow> account_event \<Rightarrow> admin_layout \<times> effect list" where
  "account_menu l Profile_Toggle = (l\<lparr>profileOpen := \<not> profileOpen l\<rparr>, [])"
| "account_menu l (Profile_Open_Change b) = (l\<lparr>profileOpen := b\<rparr>, [])"
| "account_menu l Settings_Item = (l\<lparr>profileOpen := False\<rparr>, [Navigate ''/admin/settings'' False])"
| "account_menu l Sign_Out_Item = (l, [logout_request])"

fun search_dialog :: "admin_layout \<Rightarrow> search_event \<Rightarrow> admin_layout \<times> effect list" where
  "search_dialog l Search_Close = (l\<lparr>searchOpen := False\<rparr>, [])"
| "search_dialog l (Search_Input s) = (l\<lparr>searchTerm := s\<rparr>, [])"
| "search_dialog l Search_Submit = searchImages l"

text \<open>The button that opens the sheet is rendered on small screens only.\<close>

fun navigation_sheet :: "admin_layout \<Rightarrow> sheet_event \<Rightarrow> admin_layout \<times> effect list" where
  "navigation_sheet l More_Button = (if mobile l then (l\<lparr>mobileOpen := True\<rparr>, []) else (l, []))"
| "navigation_sheet l Sheet_Close = (l\<lparr>mobileOpen := False\<rparr>, [])"
| "navigation_sheet l (Sheet_Link path) = (l\<lparr>mobileOpen := False\<rparr>, [Navigate path False])"

fun layout_step :: "admin_layout \<Rightarrow> layout_event \<Rightarrow> admin_layout \<times> effect list" where
  "layout_step l (Media_Change matches) = (media_update matches l, [])"
| "layout_step l (Document_Key meta ctrl key) = (openSearch meta ctrl key l, [])"
| "layout_step l (Location_Change path ty) = location_effects path ty l"
| "layout_step l (Preference e) = (l\<lparr>preferences_of := preference_step (preferences_of l) e\<rparr>, [])"
| "layout_step l (Account e) = account_menu l e"
| "layout_step l (Logout_Done r) = (l, signOut r)"
| "layout_step l Search_Trigger = (l\<lparr>searchOpen := True\<rparr>, [])"
| "layout_step l (Search e) = search_dialog l e"
| "layout_step l (Sheet e) = navigation_sheet l e"

text \<open>A link of the navigation: what its pointer and focus events preload, and the page a click leads to.\<close>

datatype link_event = Pointer_Enter | Link_Focus | Pointer_Down | Link_Click

definition NavigationLink :: "nav_item \<Rightarrow> link_event \<Rightarrow> page option \<times> effect list" where
  "NavigationLink item e =
     (case e of Link_Click \<Rightarrow> (None, [Navigate (nav_to item) False]) | _ \<Rightarrow> (preloadAdminPage (nav_to item), []))"

section \<open>Lemmas\<close>

lemma find_index_range: "- 1 \<le> find_index P xs \<and> find_index P xs < int (length xs)"
  by (induction xs) (auto simp: Let_def)

lemma find_index_found: "0 \<le> find_index P xs \<Longrightarrow> P (xs ! nat (find_index P xs))"
proof (induction xs)
  case (Cons x xs)
  show ?case
  proof (cases "P x")
    case False
    then have i: "0 \<le> find_index P xs" using Cons.prems by (auto simp: Let_def split: if_splits)
    then have "nat (find_index P xs + 1) = Suc (nat (find_index P xs))" by simp
    then show ?thesis using False i Cons.IH by (simp add: Let_def)
  qed simp
qed simp

lemma find_index_None: "find_index P xs < 0 \<longleftrightarrow> (\<forall>x \<in> set xs. \<not> P x)"
  by (induction xs) (use find_index_range in \<open>auto simp: Let_def\<close>)

lemma length_navigation: "length navigationItems = 7"
  by (simp add: navigationItems_def workspaceNavigation_def systemNavigation_def)

text \<open>No navigation path is a prefix of another.\<close>

lemma navigation_prefix_free:
  assumes "x \<in> set navigationItems" "y \<in> set navigationItems"
    "starts_with path (nav_to x)" "starts_with path (nav_to y)"
  shows "x = y"
proof -
  have "\<forall>x \<in> set navigationItems. \<forall>y \<in> set navigationItems.
      starts_with (nav_to x) (nav_to y) \<longrightarrow> x = y"
    by (simp add: navigationItems_def workspaceNavigation_def systemNavigation_def nav_def starts_with_def)
  moreover have "starts_with (nav_to x) (nav_to y) \<or> starts_with (nav_to y) (nav_to x)"
    using assms(3,4) unfolding starts_with_iff by (metis append_eq_append_conv2)
  ultimately show ?thesis using assms(1,2) by auto
qed

lemma mobile_sheet: "(mobileOpen l \<longrightarrow> mobile l) \<Longrightarrow> mobileOpen (fst (layout_step l e)) \<longrightarrow> mobile (fst (layout_step l e))"
proof (cases e)
  case (Account a)
  then show "(mobileOpen l \<longrightarrow> mobile l) \<Longrightarrow> ?thesis" by (cases a) auto
next
  case (Search a)
  then show "(mobileOpen l \<longrightarrow> mobile l) \<Longrightarrow> ?thesis" by (cases a) (auto simp: searchImages_def)
next
  case (Sheet a)
  then show "(mobileOpen l \<longrightarrow> mobile l) \<Longrightarrow> ?thesis" by (cases a) auto
qed (auto simp: location_effects_def media_update_def openSearch_def)

interpretation layout_sheet: reactive layout_step "\<lambda>l. mobileOpen l \<longrightarrow> mobile l"
  by unfold_locales (rule mobile_sheet)

section \<open>Properties\<close>

text \<open>
  The navigation marks the page shown. The item it marks is the only one whose path begins the
  location, it marks none exactly where there is none, and the indicator of the dock stays within
  its places on either screen size.
\<close>

theorem navigation_marks_page:
  "(case currentItem path of
      Some item \<Rightarrow> item \<in> set navigationItems \<and>
        (\<forall>x \<in> set navigationItems. starts_with path (nav_to x) \<longleftrightarrow> x = item)
    | None \<Rightarrow> (\<forall>x \<in> set navigationItems. \<not> starts_with path (nav_to x))) \<and>
   0 \<le> dockIndex mob path \<and> dockIndex mob path < int (dock_count mob)"
proof -
  let ?P = "\<lambda>item. starts_with path (nav_to item)"
  have range: "- 1 \<le> currentIndex path" "currentIndex path < 7"
    using find_index_range [of ?P navigationItems] by (simp_all add: currentIndex_def length_navigation)
  then have dock: "0 \<le> dockIndex mob path \<and> dockIndex mob path < int (dock_count mob)"
    by (auto simp: dockIndex_def dock_count_def length_navigation)
  show ?thesis
  proof (cases "currentIndex path < 0")
    case True
    then have "\<forall>x \<in> set navigationItems. \<not> starts_with path (nav_to x)"
      using find_index_None [of ?P navigationItems] unfolding currentIndex_def by blast
    then show ?thesis using dock True by (simp add: currentItem_def)
  next
    case False
    let ?item = "navigationItems ! nat (currentIndex path)"
    have "starts_with path (nav_to ?item)"
      using find_index_found [of ?P navigationItems] False by (simp add: currentIndex_def)
    moreover have "?item \<in> set navigationItems"
      using range False by (intro nth_mem) (simp add: length_navigation)
    ultimately show ?thesis
      using dock False navigation_prefix_free by (auto simp: currentItem_def)
  qed
qed

lemma navigation_marks_page_witness:
  "currentItem ''/admin/images/7'' = Some (nav ''images'' ''images'' ''/admin/images'') \<and>
   \<not> starts_with ''/admin/images/7'' (nav_to (nav ''upload'' ''upload'' ''/admin/upload'')) \<and> dockIndex True ''/admin/images/7'' < 3"
proof -
  let ?i = "nav ''images'' ''images'' ''/admin/images''" and ?u = "nav ''upload'' ''upload'' ''/admin/upload''"
  have c: "currentItem ''/admin/images/7'' = Some ?i"
    by (simp add: currentItem_def currentIndex_def navigationItems_def workspaceNavigation_def nav_def starts_with_def)
  have u: "?u \<in> set navigationItems" "?u \<noteq> ?i"
    by (simp_all add: navigationItems_def workspaceNavigation_def nav_def)
  from navigation_marks_page [of "''/admin/images/7''" True] show ?thesis
    unfolding c option.case using u c by (simp add: dock_count_def)
qed

text \<open>
  Preloading fetches the page that will be shown: for the path of every administration route with
  a page of its own, any image id included, the module preloaded is that of the route's page.
\<close>

theorem preload_matches_route:
  assumes "(t, p) \<in> set admin_routes" "p \<noteq> Page_Index" "segments_match t ss"
  shows "preloadAdminPage (''/admin/'' @ join ''/'' ss) = Some p"
proof -
  have seg: "segments_match (Fixed x # ts) ss \<longleftrightarrow> (\<exists>r. ss = x # r \<and> segments_match ts r)"
    "segments_match (Param # ts) ss \<longleftrightarrow> (\<exists>h r. ss = h # r \<and> h \<noteq> [] \<and> segments_match ts r)"
    "segments_match [] ss \<longleftrightarrow> ss = []" for x ts ss
    by (cases ss; auto)+
  show ?thesis
    using assms unfolding admin_routes_def
    by (auto simp: seg preloadAdminPage_def pageLoaders_def starts_with_def)
qed

lemma preload_matches_route_witness: "preloadAdminPage (''/admin/'' @ join ''/'' [''images'', ''i1'']) = Some Page_Image_Detail"
  by (rule preload_matches_route [of "[Fixed ''images'', Param]"]) (simp_all add: admin_routes_def)

text \<open>
  The sheet with all pages is open on small screens only, and arriving at another page closes it
  and both menus, whatever was open before.
\<close>

theorem layout_menus_close:
  fixes mob prefs path es
  defines "l \<equiv> fst (run_steps layout_step (layout_init mob prefs path) es)"
  shows "(mobileOpen l \<longrightarrow> mobile l) \<and>
    (\<forall>path' ty. path' \<noteq> layout_path l \<longrightarrow>
       (let l' = fst (layout_step l (Location_Change path' ty))
        in \<not> mobileOpen l' \<and> \<not> profileOpen l' \<and> \<not> languageOpen (preferences_of l') \<and> layout_path l' = path'))"
proof -
  have "mobileOpen l \<longrightarrow> mobile l"
    unfolding l_def by (rule layout_sheet.run_inv) (simp add: layout_init_def)
  then show ?thesis by (simp add: location_effects_def)
qed

lemma layout_menus_close_witness:
  "\<not> mobileOpen (fst (layout_step (fst (run_steps layout_step (layout_init True (page_load None False) ''/admin/upload'') [Sheet More_Button, Account Profile_Toggle]))
      (Location_Change ''/admin/system'' PUSH)))"
proof -
  have "''/admin/system'' \<noteq>
      layout_path (fst (run_steps layout_step (layout_init True (page_load None False) ''/admin/upload'') [Sheet More_Button, Account Profile_Toggle]))"
    by (simp add: layout_init_def)
  from layout_menus_close [THEN conjunct2, rule_format, OF this, of PUSH] show ?thesis
    unfolding Let_def by blast
qed

end
