(* ===== verification/Filters.thy ===== *)
theory Filters
  imports Uri Js_Number Calendar
begin

text \<open>
  What the image library and the migration library share of their filters (each source file has its own
  copy of these functions): the normalised query, the fields appended to it, sizes in MiB, and dates.
  Local time and \<open>Date.parse\<close> depend on the browser and are a parameter, the record \<open>clock\<close>.
\<close>

section \<open>The query\<close>

definition limit_params :: params where
  "limit_params = [(''limit'', ''24'')]"

definition param_text :: "params \<Rightarrow> string \<Rightarrow> string" where
  "param_text ps name = (case params_get ps name of None \<Rightarrow> [] | Some v \<Rightarrow> trim v)"

definition normalized_by :: "string list \<Rightarrow> params \<Rightarrow> params" where
  "normalized_by names source =
     fold (\<lambda>name ps. if param_text source name \<noteq> [] then params_set name (param_text source name) ps else ps)
       names limit_params"

text \<open>\<open>append\<close>, \<open>appendMiB\<close> and the size shown in the form.\<close>

definition append_param :: "string \<Rightarrow> string \<Rightarrow> params \<Rightarrow> params" where
  "append_param name raw ps = (if trim raw \<noteq> [] then params_set name (trim raw) ps else ps)"

definition mib_bytes :: "string \<Rightarrow> string option" where
  "mib_bytes raw =
     (let value = js_Number (trim raw)
      in if js_is_finite value \<and> js_less (Fin 0) value
         then Some (js_num_string (js_round (js_mul (js_mul value (Fin 1024)) (Fin 1024)))) else None)"

definition appendMiB :: "string \<Rightarrow> string \<Rightarrow> params \<Rightarrow> params" where
  "appendMiB name raw ps = (case mib_bytes raw of None \<Rightarrow> ps | Some v \<Rightarrow> params_set name v ps)"

definition bytesToMiB :: "string option \<Rightarrow> string" where
  "bytesToMiB raw =
     (let bytes = (case raw of None \<Rightarrow> Fin 0 | Some s \<Rightarrow> js_Number s)
      in if \<not> js_is_finite bytes \<or> \<not> js_less (Fin 0) bytes then []
         else js_num_string
           (js_div (js_round (js_mul (js_div (js_div bytes (Fin 1024)) (Fin 1024)) (Fin 10))) (Fin 10)))"

subsection \<open>Dates\<close>

text \<open>
  Instants and local times in milliseconds; \<open>to_utc\<close> is the instant the constructor of \<open>Date\<close> gives
  local components, \<open>to_local\<close> what its getters read.
\<close>

record clock =
  to_utc :: "int \<Rightarrow> int"
  to_local :: "int \<Rightarrow> int"
  date_parse :: "string \<Rightarrow> int option"

definition day_ms :: int where
  "day_ms = 86400000"

definition year_text :: "int \<Rightarrow> string" where
  "year_text y =
     (if 0 \<le> y \<and> y \<le> 9999 then pad_start 4 CHR ''0'' (decimal (nat y))
      else (if y < 0 then CHR ''-'' else CHR ''+'') # pad_start 6 CHR ''0'' (decimal (nat \<bar>y\<bar>)))"

definition two :: "int \<Rightarrow> string" where
  "two n = pad_start 2 CHR ''0'' (decimal (nat n))"

definition toISOString :: "int \<Rightarrow> string" where
  "toISOString t =
     (let d = t div day_ms; ms = t mod day_ms
      in year_text (year_of d) @ ''-'' @ two (int (month_of d) + 1) @ ''-'' @ two (date_of d) @ ''T'' @
         two (ms div 3600000) @ '':'' @ two (ms div 60000 mod 60) @ '':'' @ two (ms div 1000 mod 60) @ ''.'' @
         pad_start 3 CHR ''0'' (decimal (nat (ms mod 1000))) @ ''Z'')"

definition appendDate :: "clock \<Rightarrow> string \<Rightarrow> string \<Rightarrow> bool \<Rightarrow> params \<Rightarrow> params" where
  "appendDate c name raw endOfDay ps =
     (case match_date (trim raw) of None \<Rightarrow> ps
      | Some (ys, ms, ds) \<Rightarrow>
          let d = new_date (int (digits_value ys)) (int (digits_value ms) - 1) (int (digits_value ds))
          in params_set name (toISOString (to_utc c (d * day_ms + (if endOfDay then 86399999 else 0)))) ps)"

definition dateParameterValue :: "clock \<Rightarrow> string option \<Rightarrow> string" where
  "dateParameterValue c raw =
     (case raw of None \<Rightarrow> []
      | Some s \<Rightarrow> if s = [] then []
          else (case date_parse c s of None \<Rightarrow> [] | Some t \<Rightarrow> toDateValue (to_local c t div day_ms)))"

section \<open>Laws of the query\<close>

lemma fold_params_set_new:
  assumes "distinct names" "\<forall>n \<in> set names. \<not> params_has ps n"
  shows "fold (\<lambda>n ps. if t n \<noteq> [] then params_set n (t n) ps else ps) names ps =
    ps @ map (\<lambda>n. (n, t n)) (filter (\<lambda>n. t n \<noteq> []) names)"
  using assms
proof (induction names arbitrary: ps)
  case (Cons n names)
  have "\<forall>m \<in> set names. \<not> params_has (ps @ [(n, t n)]) m"
    using Cons.prems by (auto simp: params_has_def)
  then show ?case using Cons by (simp add: params_set_new)
qed simp

lemma trim_param_text [simp]: "trim (param_text s n) = param_text s n"
  by (simp add: param_text_def split: option.split)

text \<open>
  The filters of a page: distinct names, none of them \<open>limit\<close>. The pages share the laws of the query
  they build.
\<close>

locale filter_names =
  fixes names :: "string list"
  assumes names_distinct: "distinct names"
    and names_limit: "''limit'' \<notin> set names"
begin

lemma normalized_eq:
  "normalized_by names s = limit_params @ map (\<lambda>n. (n, param_text s n)) (filter (\<lambda>n. param_text s n \<noteq> []) names)"
  unfolding normalized_by_def
  by (rule fold_params_set_new [OF names_distinct]) (use names_limit in \<open>auto simp: limit_params_def params_has_def\<close>)

lemma normalized_get:
  "params_get (normalized_by names s) x =
     (if x \<in> set names \<and> param_text s x \<noteq> [] then Some (param_text s x) else params_get limit_params x)"
proof -
  have "normalized_by names s = fold (\<lambda>n ps. case (if param_text s n = [] then None else Some (param_text s n)) of
      None \<Rightarrow> ps | Some v \<Rightarrow> params_set n v ps) names limit_params"
    unfolding normalized_by_def by (rule fold_cong) auto
  then show ?thesis by (simp add: search_params.get_fold_put)
qed

lemma param_text_normalized: "n \<in> set names \<Longrightarrow> param_text (normalized_by names s) n = param_text s n"
proof -
  assume n: "n \<in> set names"
  then have "params_get limit_params n = None" using names_limit by (auto simp: limit_params_def params_get_def)
  then have "params_get (normalized_by names s) n = (if param_text s n = [] then None else Some (param_text s n))"
    using n by (simp add: normalized_get)
  then show ?thesis by (simp add: param_text_def [of "normalized_by names s"])
qed

lemma normalized_cong:
  "(\<forall>n \<in> set names. param_text a n = param_text b n) \<Longrightarrow> normalized_by names a = normalized_by names b"
  unfolding normalized_by_def by (rule fold_cong) auto

lemma normalized_inject:
  "normalized_by names a = normalized_by names b \<longleftrightarrow> (\<forall>n \<in> set names. param_text a n = param_text b n)"
  by (metis normalized_cong param_text_normalized)

lemma normalized_idem: "normalized_by names (normalized_by names s) = normalized_by names s"
  by (rule normalized_cong) (simp add: param_text_normalized)

text \<open>The query is a canonical form of the filters.\<close>

lemma query_canonical:
  "(params_string (normalized_by names a) = params_string (normalized_by names b) \<longleftrightarrow>
      (\<forall>n \<in> set names. param_text a n = param_text b n)) \<and>
   params_parse (params_string (normalized_by names a)) =
     limit_params @ map (\<lambda>n. (n, param_text a n)) (filter (\<lambda>n. param_text a n \<noteq> []) names) \<and>
   normalized_by names (params_parse (params_string (normalized_by names a))) = normalized_by names a"
proof (intro conjI)
  show "params_string (normalized_by names a) = params_string (normalized_by names b) \<longleftrightarrow>
      (\<forall>n \<in> set names. param_text a n = param_text b n)"
    using normalized_inject by (metis params_parse_string)
  show "params_parse (params_string (normalized_by names a)) =
     limit_params @ map (\<lambda>n. (n, param_text a n)) (filter (\<lambda>n. param_text a n \<noteq> []) names)"
    by (simp only: params_parse_string normalized_eq)
  show "normalized_by names (params_parse (params_string (normalized_by names a))) = normalized_by names a"
    by (simp only: params_parse_string normalized_idem)
qed

end

section \<open>Dates and sizes in the form\<close>

text \<open>What is relied on of a local time: its instant is read back, on the same day.\<close>

definition clock_ok :: "clock \<Rightarrow> int \<Rightarrow> bool" where
  "clock_ok c u \<longleftrightarrow> date_parse c (toISOString (to_utc c u)) = Some (to_utc c u) \<and>
     to_local c (to_utc c u) div day_ms = u div day_ms"

definition filter_time :: "int \<Rightarrow> bool \<Rightarrow> int" where
  "filter_time d endOfDay = d * day_ms + (if endOfDay then 86399999 else 0)"

lemma toISOString_nonempty [simp]: "toISOString t \<noteq> []"
  by (simp add: toISOString_def Let_def)

lemma match_date_trim: "match_date raw \<noteq> None \<Longrightarrow> trim raw = raw"
proof -
  assume "match_date raw \<noteq> None"
  then obtain a b c where m: "match_date raw = Some (a, b, c)" by auto
  then have parts: "raw = a @ ''-'' @ b @ ''-'' @ c" "list_all is_digit a" "list_all is_digit b" "list_all is_digit c"
    unfolding match_date_iff by auto
  have "list_all (\<lambda>c. 32 < byte c \<and> byte c < 128) x" if "list_all is_digit x" for x
    using that by (auto simp: list_all_iff is_digit_def)
  then show "trim raw = raw" using parts by (intro trim_plain) simp
qed

text \<open>
  C26: A date chosen as a filter is the date shown again. Written into the location as the instant its
  local day begins (or ends) and read from it, a date from the year 1000 on is the same date, wherever
  the browser reads that instant back on the same local day.
\<close>

theorem date_filter_roundtrip:
  assumes "parseDate raw = Some d" "1000 \<le> year_of d" "clock_ok c (filter_time d endOfDay)"
  shows "dateParameterValue c (params_get (appendDate c name raw endOfDay ps) name) = raw"
proof -
  obtain ys ms ds where m: "match_date raw = Some (ys, ms, ds)"
    and d: "d = new_date (int (digits_value ys)) (int (digits_value ms) - 1) (int (digits_value ds))"
    using assms(1) by (auto simp: parseDate_def Let_def split: option.splits if_splits)
  let ?u = "filter_time d endOfDay"
  have "params_get (appendDate c name raw endOfDay ps) name = Some (toISOString (to_utc c ?u))"
    using m match_date_trim [of raw] by (simp add: appendDate_def d params_get_set filter_time_def)
  moreover have "?u div day_ms = d" by (simp add: day_ms_def filter_time_def)
  ultimately show ?thesis
    using assms toDateValue_parsed [OF assms(1)] by (simp add: dateParameterValue_def clock_ok_def)
qed

text \<open>
  A size filter in whole MiB survives the location: written in bytes and read back it is the number
  typed, with no error from the floating-point arithmetic, up to 8 PiB.
\<close>

theorem size_filter_roundtrip:
  assumes "0 < n" "n \<le> 2 ^ 33"
  shows "params_get (appendMiB name (decimal n) ps) name = Some (decimal (n * 2 ^ 20)) \<and>
    bytesToMiB (params_get (appendMiB name (decimal n) ps) name) = decimal n"
proof -
  have plain: "trim (decimal n) = decimal n"
    using decimal_digits [of n] by (intro trim_plain) (auto simp: list_all_iff is_digit_def)
  have num: "js_Number (decimal n) = Fin (of_nat n)" "js_Number (decimal (n * 2 ^ 20)) = Fin (of_nat (n * 2 ^ 20))"
    using assms by (intro js_Number_decimal; simp)+
  have mul: "dbl (of_nat n * 1024) = Fin (of_nat n * 1024)" "dbl (of_nat n * 1024 * 1024) = Fin (of_nat n * 1048576)"
    "dbl (of_nat n * 10) = Fin (of_nat n * 10)" "dbl (of_nat n * 1048576 / 1024) = Fin (of_nat n * 1024)"
    "dbl (of_nat n * 1024 / 1024) = Fin (of_nat n)" "dbl (of_nat n * 10 / 10) = Fin (of_nat n)"
  proof -
    have e: "of_nat n * 1024 * 1024 = (of_nat n * 1048576 :: rat)" "of_nat n * 1048576 / 1024 = (of_nat n * 1024 :: rat)"
      "of_nat n * 1024 / 1024 = (of_nat n :: rat)" "of_nat n * 10 / 10 = (of_nat n :: rat)" by simp_all
    show "dbl (of_nat n * 1024) = Fin (of_nat n * 1024)" "dbl (of_nat n * 1024 * 1024) = Fin (of_nat n * 1048576)"
      "dbl (of_nat n * 10) = Fin (of_nat n * 10)" "dbl (of_nat n * 1048576 / 1024) = Fin (of_nat n * 1024)"
      "dbl (of_nat n * 1024 / 1024) = Fin (of_nat n)" "dbl (of_nat n * 10 / 10) = Fin (of_nat n)"
      unfolding e
      using dbl_of_nat [of "n * 1024"] dbl_of_nat [of "n * 1048576"] dbl_of_nat [of "n * 10"] dbl_of_nat [of n] assms by simp_all
  qed
  have round: "js_round (Fin (of_nat k)) = Fin (of_nat k)" for k
    by (simp add: floor_unique)
  have r: "js_round (Fin (of_nat n * 1048576)) = Fin (of_nat n * 1048576)" "js_round (Fin (of_nat n * 10)) = Fin (of_nat n * 10)"
    using round [of "n * 1048576"] round [of "n * 10"] by (simp_all only: of_nat_mult of_nat_numeral)
  have str: "js_num_string (Fin (of_nat n * 1048576)) = decimal (n * 2 ^ 20)" "js_num_string (Fin (of_nat n)) = decimal n"
    using js_num_string_of_nat [of "n * 2 ^ 20"] js_num_string_of_nat [of n] assms by simp_all
  have ops: "js_mul (Fin (of_nat n)) (Fin 1024) = Fin (of_nat n * 1024)" "js_mul (Fin (of_nat n * 1024)) (Fin 1024) = Fin (of_nat n * 1048576)"
    "js_mul (Fin (of_nat n)) (Fin 10) = Fin (of_nat n * 10)" "js_div (Fin (of_nat n * 1048576)) (Fin 1024) = Fin (of_nat n * 1024)"
    "js_div (Fin (of_nat n * 1024)) (Fin 1024) = Fin (of_nat n)" "js_div (Fin (of_nat n * 10)) (Fin 10) = Fin (of_nat n)"
    unfolding js_mul.simps js_div.simps by (simp_all only: mul if_False) simp_all
  have num': "js_Number (decimal (n * 2 ^ 20)) = Fin (of_nat n * 1048576)" using num(2) by simp
  have bytes: "mib_bytes (decimal n) = Some (decimal (n * 2 ^ 20))"
    using assms(1) by (simp add: mib_bytes_def plain num(1) js_is_finite_def ops r str del: js_round.simps js_mul.simps js_div.simps js_num_string.simps)
  have "bytesToMiB (Some (decimal (n * 2 ^ 20))) = decimal n"
    using assms(1) unfolding bytesToMiB_def option.case num' Let_def
    by (simp add: js_is_finite_def ops r str del: js_round.simps js_mul.simps js_div.simps js_num_string.simps)
  then show ?thesis using bytes by (simp add: appendMiB_def params_get_set)
qed

lemma size_filter_roundtrip_witness: "bytesToMiB (params_get (appendMiB ''minBytes'' (decimal 5) []) ''minBytes'') = decimal 5"
  by (rule size_filter_roundtrip [THEN conjunct2]) simp_all

text \<open>A clock one hour behind UTC that reads one instant, for the witnesses.\<close>

definition sample_clock :: clock where
  "sample_clock = \<lparr>to_utc = \<lambda>u. u + 3600000, to_local = \<lambda>t. t - 3600000,
     date_parse = \<lambda>s. if s = toISOString 1709168400000 then Some 1709168400000 else None\<rparr>"

lemma date_filter_roundtrip_witness:
  "dateParameterValue sample_clock
     (params_get (appendDate sample_clock ''createdFrom'' ''2024-02-29'' False []) ''createdFrom'') = ''2024-02-29''"
proof -
  have "parseDate ''2024-02-29'' = Some 19782" "1000 \<le> year_of 19782" by code_simp+
  then show ?thesis by (rule date_filter_roundtrip) (simp add: clock_ok_def filter_time_def day_ms_def sample_clock_def)
qed

end
