(* ===== verification/Image_List.thy ===== *)
theory Image_List
  imports Layout Filters
begin

text \<open>
  The image library, \<open>web/src/features/images/image-list-page.tsx\<close>: the filters and their form in the
  query of the location, the selection and the mutations on it, the confirmation of a deletion, the
  preferences kept in the local storage, and the scroll positions remembered for the way back.

  The pages of the infinite query, the flags of its result and the parameters of the location are the
  libraries' and arrive as events.
\<close>

section \<open>Filters\<close>

definition imageFilterNames :: "string list" where
  "imageFilterNames =
    [''q'', ''visibility'', ''format'', ''uploadedVia'', ''createdFrom'', ''createdTo'', ''minBytes'', ''maxBytes'',
     ''minWidth'', ''maxWidth'', ''minHeight'', ''maxHeight'']"

definition advancedFilterNames :: "string list" where
  "advancedFilterNames =
    [''createdFrom'', ''createdTo'', ''minBytes'', ''maxBytes'', ''minWidth'', ''maxWidth'', ''minHeight'', ''maxHeight'']"

definition normalized_params :: "params \<Rightarrow> params" where
  "normalized_params = normalized_by imageFilterNames"

definition normalizedFilterQuery :: "params \<Rightarrow> string" where
  "normalizedFilterQuery source = params_string (normalized_params source)"

definition activeFilterCount :: "params \<Rightarrow> nat" where
  "activeFilterCount source =
     length (filter (params_has (params_parse (normalizedFilterQuery source))) imageFilterNames)"

definition hasAdvancedParameters :: "params \<Rightarrow> bool" where
  "hasAdvancedParameters ps = list_ex (\<lambda>name. param_text ps name \<noteq> []) advancedFilterNames"

section \<open>Scroll positions\<close>

type_synonym scroll_positions = "(string \<times> jsnum \<times> nat) list"

definition rememberScroll :: "string \<Rightarrow> jsnum \<Rightarrow> nat \<Rightarrow> scroll_positions \<Rightarrow> scroll_positions" where
  "rememberScroll key scrollY count m =
     (let m' = AList.update key (scrollY, count) (AList.delete key m)
      in drop (length m' - 20) m')"

text \<open>What the layout effect does in one render of the page.\<close>

record list_query =
  lq_isSuccess :: bool
  lq_hasNextPage :: bool
  lq_isFetchingNextPage :: bool
  lq_isFetchNextPageError :: bool
  lq_count :: nat

definition restoreScroll :: "list_query \<Rightarrow> string \<Rightarrow> scroll_positions \<Rightarrow> scroll_positions \<times> effect list" where
  "restoreScroll q key m =
     (if \<not> lq_isSuccess q then (m, [])
      else case map_of m key of None \<Rightarrow> (m, [])
        | Some (y, count) \<Rightarrow>
            if lq_count q < count \<and> lq_hasNextPage q \<and> \<not> lq_isFetchNextPageError q
            then (m, if \<not> lq_isFetchingNextPage q then [Fetch_Next_Page] else [])
            else (AList.delete key m, [Scroll_To y]))"

section \<open>The page\<close>

datatype view_mode = Grid | List_View

fun view_mode_text :: "view_mode \<Rightarrow> string" where
  "view_mode_text Grid = ''grid''"
| "view_mode_text List_View = ''list''"

definition viewModeStorageKey :: string where
  "viewModeStorageKey = ''imagesilo_image_view_mode''"

definition filtersOpenStorageKey :: string where
  "filtersOpenStorageKey = ''imagesilo_image_filters_open''"

definition advancedFiltersOpenStorageKey :: string where
  "advancedFiltersOpenStorageKey = ''imagesilo_image_advanced_filters_open''"

definition storedBoolean :: "local_storage \<Rightarrow> string \<Rightarrow> bool" where
  "storedBoolean w key \<longleftrightarrow> readLocalStorage w key = Some ''true''"

definition storedViewMode :: "local_storage \<Rightarrow> view_mode" where
  "storedViewMode w = (if readLocalStorage w viewModeStorageKey = Some ''list'' then List_View else Grid)"

definition bool_text :: "bool \<Rightarrow> string" where
  "bool_text b = (if b then ''true'' else ''false'')"

text \<open>
  A mutation is pending until its handler returns: \<open>visibilitySync\<close> and \<open>batchSync\<close> say that the request has
  been answered and the cancellation of older responses is awaited, the latter for which images still.
\<close>

record image_list_page =
  il_params :: params
  filtersOpen :: bool
  advancedOpen :: bool
  createdFrom :: string
  createdTo :: string
  viewMode :: view_mode
  selected :: "string list"
  deleteConfirmOpen :: bool
  deleteSnapshot :: "string list"
  visibilityMutation :: "(string \<times> visibility) option"
  visibilitySync :: bool
  batchVisibility :: "(visibility \<times> string list) option"
  batchSync :: "(batch_operation_item list \<times> string list) option"
  batchDelete :: "string list option"

definition image_list_init :: "clock \<Rightarrow> local_storage \<Rightarrow> params \<Rightarrow> image_list_page" where
  "image_list_init c w ps =
     \<lparr>il_params = ps, filtersOpen = storedBoolean w filtersOpenStorageKey,
      advancedOpen = hasAdvancedParameters ps \<or> storedBoolean w advancedFiltersOpenStorageKey,
      createdFrom = dateParameterValue c (params_get ps ''createdFrom''),
      createdTo = dateParameterValue c (params_get ps ''createdTo''), viewMode = storedViewMode w, selected = [],
      deleteConfirmOpen = False, deleteSnapshot = [], visibilityMutation = None, visibilitySync = False,
      batchVisibility = None, batchSync = None, batchDelete = None\<rparr>"

text \<open>A page of the infinite query.\<close>

definition image_page_request :: "params \<Rightarrow> string \<Rightarrow> effect" where
  "image_page_request ps pageParam =
     (let parameters = params_parse (normalizedFilterQuery ps)
      in Request
           (''/api/v1/images?'' @ params_string (if pageParam \<noteq> [] then params_set ''cursor'' pageParam parameters else parameters))
           no_init)"

definition image_next_page :: "image_list \<Rightarrow> string option" where
  "image_next_page pg = (case image_nextCursor pg of Some c \<Rightarrow> if c = [] then None else Some c | None \<Rightarrow> None)"

definition selectedImages :: "image list \<Rightarrow> image_list_page \<Rightarrow> image list" where
  "selectedImages images p = filter (\<lambda>im. image_id im \<in> set (selected p)) images"

definition il_busy :: "image_list_page \<Rightarrow> bool" where
  "il_busy p \<longleftrightarrow> visibilityMutation p \<noteq> None \<or> batchVisibility p \<noteq> None \<or> batchDelete p \<noteq> None"

definition setSearchParams :: "params \<Rightarrow> effect" where
  "setSearchParams ps = Navigate (''?'' @ params_string ps) True"

definition setVisibilityFilter :: "string \<Rightarrow> image_list_page \<Rightarrow> effect list" where
  "setVisibilityFilter v p =
     [setSearchParams
        (if v \<noteq> [] then params_set ''visibility'' v (il_params p) else params_delete ''visibility'' (il_params p))]"

record filter_form =
  ff_q :: string
  ff_visibility :: string
  ff_format :: string
  ff_uploadedVia :: string
  ff_minMiB :: string
  ff_maxMiB :: string
  ff_minWidth :: string
  ff_maxWidth :: string
  ff_minHeight :: string
  ff_maxHeight :: string

definition filter_params :: "clock \<Rightarrow> filter_form \<Rightarrow> image_list_page \<Rightarrow> params" where
  "filter_params c f p =
     (append_param ''maxHeight'' (ff_maxHeight f) \<circ> append_param ''minHeight'' (ff_minHeight f) \<circ>
      append_param ''maxWidth'' (ff_maxWidth f) \<circ> append_param ''minWidth'' (ff_minWidth f) \<circ>
      appendMiB ''maxBytes'' (ff_maxMiB f) \<circ> appendMiB ''minBytes'' (ff_minMiB f) \<circ>
      appendDate c ''createdTo'' (createdTo p) True \<circ> appendDate c ''createdFrom'' (createdFrom p) False \<circ>
      append_param ''uploadedVia'' (ff_uploadedVia f) \<circ> append_param ''format'' (ff_format f) \<circ>
      append_param ''visibility'' (ff_visibility f) \<circ> append_param ''q'' (ff_q f)) limit_params"

text \<open>The fields of the form show the filters of the location.\<close>

definition form_defaults :: "params \<Rightarrow> filter_form" where
  "form_defaults ps =
     (let filterValues = params_parse (normalizedFilterQuery ps);
          shown = (\<lambda>name. case params_get filterValues name of None \<Rightarrow> [] | Some v \<Rightarrow> v)
      in \<lparr>ff_q = shown ''q'', ff_visibility = shown ''visibility'', ff_format = shown ''format'',
          ff_uploadedVia = shown ''uploadedVia'', ff_minMiB = bytesToMiB (params_get filterValues ''minBytes''),
          ff_maxMiB = bytesToMiB (params_get filterValues ''maxBytes''), ff_minWidth = shown ''minWidth'',
          ff_maxWidth = shown ''maxWidth'', ff_minHeight = shown ''minHeight'', ff_maxHeight = shown ''maxHeight''\<rparr>)"

definition applyFilters :: "clock \<Rightarrow> filter_form \<Rightarrow> bool \<Rightarrow> image_list_page \<Rightarrow> image_list_page \<times> effect list" where
  "applyFilters c f narrow p =
     (p\<lparr>selected := [], filtersOpen := filtersOpen p \<and> \<not> narrow\<rparr>,
      setSearchParams (filter_params c f p) # (if narrow then [Focus_Filter_Toggle] else []))"

definition resetFilters :: "image_list_page \<Rightarrow> image_list_page \<times> effect list" where
  "resetFilters p =
     (p\<lparr>selected := [], createdFrom := [], createdTo := [], advancedOpen := False\<rparr>,
      [Reset_Form, setSearchParams []])"

definition toggleSelected :: "string \<Rightarrow> image_list_page \<Rightarrow> image_list_page \<times> effect list" where
  "toggleSelected i p =
     (if il_busy p then (p, [])
      else if i \<in> set (selected p) then (p\<lparr>selected := jset_delete i (selected p)\<rparr>, [])
      else if 100 \<le> length (selected p) then (p, [plain_toast Toast_Warning ''images.selectionLimit'' []])
      else (p\<lparr>selected := jset_add i (selected p)\<rparr>, []))"

text \<open>The effects of new parameters: the selection is dropped, and the form follows the location.\<close>

definition params_effects :: "clock \<Rightarrow> params \<Rightarrow> image_list_page \<Rightarrow> image_list_page \<times> effect list" where
  "params_effects c ps p =
     (if params_string ps = params_string (il_params p) then (p\<lparr>il_params := ps\<rparr>, [])
      else (p\<lparr>il_params := ps, selected := [], createdFrom := dateParameterValue c (params_get ps ''createdFrom''),
              createdTo := dateParameterValue c (params_get ps ''createdTo''),
              advancedOpen := advancedOpen p \<or> hasAdvancedParameters ps\<rparr>,
            if normalizedFilterQuery ps = normalizedFilterQuery (il_params p) then [] else [Reset_Form]))"

subsection \<open>Mutations\<close>

definition ids_json :: "string list \<Rightarrow> json" where
  "ids_json ids = JArr (map JStr ids)"

definition visibility_request :: "string \<Rightarrow> visibility \<Rightarrow> effect" where
  "visibility_request i v =
     Request (''/api/v1/images/'' @ i @ ''/visibility'')
       (json_init ''PATCH'' (JObj [(''visibility'', JStr (visibility_text v))]))"

definition batch_visibility_request :: "visibility \<Rightarrow> string list \<Rightarrow> effect" where
  "batch_visibility_request v ids =
     Request ''/api/v1/images/batch-visibility''
       (json_init ''PATCH'' (JObj [(''imageIds'', ids_json ids), (''visibility'', JStr (visibility_text v))]))"

definition batch_delete_request :: "string list \<Rightarrow> effect" where
  "batch_delete_request ids =
     Request ''/api/v1/images/batch-delete'' (json_init ''POST'' (JObj [(''imageIds'', ids_json ids)]))"

text \<open>\<open>showBatchToast\<close>: what failed is what is not deleted or updated; the counts are in the order of the text.\<close>

definition batch_failures :: "batch_operation_item list \<Rightarrow> batch_operation_item list" where
  "batch_failures rs =
     filter (\<lambda>r. bo_status r = Item_Error \<or> bo_status r = NotFound \<or> bo_status r = CleanupPending) rs"

definition showBatchToast :: "batch_operation_item list \<Rightarrow> string \<Rightarrow> effect" where
  "showBatchToast rs i =
     (if 0 < length (batch_failures rs)
      then toast_of Toast_Warning ''toast.batchPartial'' i [length rs - length (batch_failures rs), length (batch_failures rs)]
      else toast_of Toast_Success ''toast.batchSuccess'' i [length rs])"

text \<open>
  \<open>syncDetailVisibility\<close>, before and after it awaits the cancellation: an older response must not
  overwrite the confirmed change.
\<close>

definition sync_cancel :: "string \<Rightarrow> effect" where
  "sync_cancel i = Cancel_Queries [''image'', i]"

definition sync_apply :: "visibility \<Rightarrow> string \<Rightarrow> effect list" where
  "sync_apply v i = [Update_Detail i v, Invalidate_Queries [''image'', i]]"

definition visibility_toast_id :: "string \<Rightarrow> string" where
  "visibility_toast_id i = ''image-visibility-'' @ i"

definition visibility_settled :: "js_error + json option \<Rightarrow> image_list_page \<Rightarrow> image_list_page \<times> effect list" where
  "visibility_settled r p =
     (case visibilityMutation p of None \<Rightarrow> (p, [])
      | Some (i, v) \<Rightarrow>
          if visibilitySync p then (p, [])
          else case r of
              Inl _ \<Rightarrow> (p\<lparr>visibilityMutation := None\<rparr>,
                        [toast_of Toast_Error ''toast.operationFailed'' (visibility_toast_id i) []])
            | Inr _ \<Rightarrow> (p\<lparr>visibilitySync := True\<rparr>, [sync_cancel i]))"

definition visibility_synced :: "image_list_page \<Rightarrow> image_list_page \<times> effect list" where
  "visibility_synced p =
     (case visibilityMutation p of None \<Rightarrow> (p, [])
      | Some (i, v) \<Rightarrow>
          if \<not> visibilitySync p then (p, [])
          else (p\<lparr>visibilityMutation := None, visibilitySync := False\<rparr>,
            sync_apply v i @
            [toast_of Toast_Success (if v = Public then ''toast.imagePublic'' else ''toast.imagePrivate'')
               (visibility_toast_id i) [],
             Invalidate_Queries [''images'']]))"

text \<open>After the last cancellation; without an updated image there is none to wait for.\<close>

definition batch_visibility_done :: "batch_operation_item list \<Rightarrow> image_list_page \<Rightarrow> image_list_page \<times> effect list" where
  "batch_visibility_done rs p =
     (p\<lparr>batchVisibility := None, batchSync := None, selected := []\<rparr>,
      [showBatchToast rs ''batch-visibility'', Invalidate_Queries [''images'']])"

definition batch_visibility_settled ::
    "js_error + batch_operation_item list \<Rightarrow> image_list_page \<Rightarrow> image_list_page \<times> effect list" where
  "batch_visibility_settled r p =
     (if batchVisibility p = None \<or> batchSync p \<noteq> None then (p, [])
      else case r of
          Inl _ \<Rightarrow> (p\<lparr>batchVisibility := None\<rparr>, [toast_of Toast_Error ''toast.operationFailed'' ''batch-visibility'' []])
        | Inr rs \<Rightarrow>
            let ids = map bo_imageId (filter (\<lambda>x. bo_status x = Updated) rs)
            in if ids = [] then batch_visibility_done rs p
               else (p\<lparr>batchSync := Some (rs, ids)\<rparr>, map sync_cancel ids))"

definition batch_visibility_synced :: "string \<Rightarrow> image_list_page \<Rightarrow> image_list_page \<times> effect list" where
  "batch_visibility_synced i p =
     (case (batchVisibility p, batchSync p) of
        (Some (v, _), Some (rs, ids)) \<Rightarrow>
          if i \<notin> set ids then (p, [])
          else if remove1 i ids = []
            then (fst (batch_visibility_done rs p), sync_apply v i @ snd (batch_visibility_done rs p))
          else (p\<lparr>batchSync := Some (rs, remove1 i ids)\<rparr>, sync_apply v i)
      | _ \<Rightarrow> (p, []))"

definition batch_delete_settled ::
    "js_error + batch_operation_item list \<Rightarrow> image_list_page \<Rightarrow> image_list_page \<times> effect list" where
  "batch_delete_settled r p =
     (case batchDelete p of None \<Rightarrow> (p, [])
      | Some _ \<Rightarrow>
          (case r of
             Inl _ \<Rightarrow> (p\<lparr>batchDelete := None\<rparr>, [toast_of Toast_Error ''toast.operationFailed'' ''batch-delete'' []])
           | Inr rs \<Rightarrow>
               (p\<lparr>batchDelete := None, deleteConfirmOpen := False, deleteSnapshot := [], selected := []\<rparr>,
                [showBatchToast rs ''batch-delete'', Invalidate_Queries [''images''], Invalidate_Queries [''overview'']])))"

subsection \<open>Events\<close>

text \<open>The toolbar for the selection is shown while it is not empty, its buttons disabled while busy.\<close>

datatype batch_event = Make_Visibility visibility | Delete_Button | Clear_Selection

definition toolbar_step :: "image_list_page \<Rightarrow> batch_event \<Rightarrow> image_list_page \<times> effect list" where
  "toolbar_step p e =
     (if selected p = [] \<or> il_busy p then (p, [])
      else case e of
        Make_Visibility v \<Rightarrow>
          (p\<lparr>batchVisibility := Some (v, selected p)\<rparr>,
           [toast_of Toast_Loading ''common.working'' ''batch-visibility'' [], batch_visibility_request v (selected p)])
      | Delete_Button \<Rightarrow> (p\<lparr>deleteSnapshot := selected p, deleteConfirmOpen := True\<rparr>, [])
      | Clear_Selection \<Rightarrow> (p\<lparr>selected := []\<rparr>, []))"

text \<open>The confirmation dialog: a pending one reports nothing (\<open>confirm_step\<close> of theory \<open>Modal\<close>).\<close>

definition delete_dialog :: "image_list_page \<Rightarrow> bool \<Rightarrow> image_list_page \<times> effect list" where
  "delete_dialog p confirmed =
     (if \<not> deleteConfirmOpen p \<or> batchDelete p \<noteq> None then (p, [])
      else if confirmed
        then (p\<lparr>batchDelete := Some (deleteSnapshot p)\<rparr>,
              [toast_of Toast_Loading ''common.working'' ''batch-delete'' [], batch_delete_request (deleteSnapshot p)])
      else (p\<lparr>deleteConfirmOpen := False, deleteSnapshot := []\<rparr>, []))"

text \<open>The card of an image: its visibility button, disabled while busy, shows the other visibility.\<close>

definition card_visibility :: "string \<Rightarrow> visibility \<Rightarrow> image_list_page \<Rightarrow> image_list_page \<times> effect list" where
  "card_visibility i current p =
     (if il_busy p then (p, [])
      else let v = (if current = Public then Private else Public)
        in (p\<lparr>visibilityMutation := Some (i, v)\<rparr>,
            [toast_of Toast_Loading ''common.working'' (visibility_toast_id i) [], visibility_request i v]))"

datatype image_list_event =
    Params_Change params
  | Visibility_Filter string
  | Toggle_Filters
  | Toggle_Advanced
  | Set_View view_mode
  | Created_From string
  | Created_To string
  | Apply_Filters filter_form bool
  | Reset_Filters
  | Toggle_Selected string
  | Card_Visibility string visibility
  | Toolbar batch_event
  | Dialog_Confirm
  | Dialog_Cancel
  | Visibility_Settled "js_error + json option"
  | Visibility_Synced
  | Batch_Visibility_Settled "js_error + batch_operation_item list"
  | Batch_Visibility_Synced string
  | Batch_Delete_Settled "js_error + batch_operation_item list"
  | Load_Page string
  | Upload_Action

fun image_list_handle :: "clock \<Rightarrow> image_list_page \<Rightarrow> image_list_event \<Rightarrow> image_list_page \<times> effect list" where
  "image_list_handle c p (Params_Change ps) = params_effects c ps p"
| "image_list_handle c p (Visibility_Filter v) = (p, setVisibilityFilter v p)"
| "image_list_handle c p Toggle_Filters = (p\<lparr>filtersOpen := \<not> filtersOpen p\<rparr>, [])"
| "image_list_handle c p Toggle_Advanced = (p\<lparr>advancedOpen := \<not> advancedOpen p\<rparr>, [])"
| "image_list_handle c p (Set_View m) = (p\<lparr>viewMode := m\<rparr>, [])"
| "image_list_handle c p (Created_From s) = (p\<lparr>createdFrom := s\<rparr>, [])"
| "image_list_handle c p (Created_To s) = (p\<lparr>createdTo := s\<rparr>, [])"
| "image_list_handle c p (Apply_Filters f narrow) = applyFilters c f narrow p"
| "image_list_handle c p Reset_Filters = resetFilters p"
| "image_list_handle c p (Toggle_Selected i) = toggleSelected i p"
| "image_list_handle c p (Card_Visibility i v) = card_visibility i v p"
| "image_list_handle c p (Toolbar e) = toolbar_step p e"
| "image_list_handle c p Dialog_Confirm = delete_dialog p True"
| "image_list_handle c p Dialog_Cancel = delete_dialog p False"
| "image_list_handle c p (Visibility_Settled r) = visibility_settled r p"
| "image_list_handle c p Visibility_Synced = visibility_synced p"
| "image_list_handle c p (Batch_Visibility_Synced i) = batch_visibility_synced i p"
| "image_list_handle c p (Batch_Visibility_Settled r) = batch_visibility_settled r p"
| "image_list_handle c p (Batch_Delete_Settled r) = batch_delete_settled r p"
| "image_list_handle c p (Load_Page cursor) = (p, [image_page_request (il_params p) cursor])"
| "image_list_handle c p Upload_Action = (p, [Navigate ''/admin/upload'' False])"

text \<open>
  The effects of the first render store the preferences as they are; later they run after a render in
  which a preference changed.
\<close>

definition image_list_mount :: "clock \<Rightarrow> local_storage \<Rightarrow> params \<Rightarrow> image_list_page \<times> effect list" where
  "image_list_mount c w ps =
     (let p = image_list_init c w ps
      in (p, [Store_Item filtersOpenStorageKey (bool_text (filtersOpen p)),
              Store_Item advancedFiltersOpenStorageKey (bool_text (advancedOpen p)),
              Store_Item viewModeStorageKey (view_mode_text (viewMode p)), Reset_Form]))"

definition persist :: "image_list_page \<Rightarrow> image_list_page \<Rightarrow> effect list" where
  "persist p p' =
     (if filtersOpen p' = filtersOpen p then []
      else [Store_Item filtersOpenStorageKey (bool_text (filtersOpen p'))]) @
     (if advancedOpen p' = advancedOpen p then []
      else [Store_Item advancedFiltersOpenStorageKey (bool_text (advancedOpen p'))]) @
     (if viewMode p' = viewMode p then [] else [Store_Item viewModeStorageKey (view_mode_text (viewMode p'))])"

definition image_list_step :: "clock \<Rightarrow> image_list_page \<Rightarrow> image_list_event \<Rightarrow> image_list_page \<times> effect list" where
  "image_list_step c p e =
     (let (p', out) = image_list_handle c p e in (p', out @ persist p p'))"

section \<open>The query of the filters\<close>

interpretation library: filter_names imageFilterNames
  by unfold_locales (simp_all add: imageFilterNames_def)

lemma normalized_params_eq:
  "normalized_params s = limit_params @ map (\<lambda>n. (n, param_text s n)) (filter (\<lambda>n. param_text s n \<noteq> []) imageFilterNames)"
  unfolding normalized_params_def by (rule library.normalized_eq)

text \<open>
  C23: The query of the library is a canonical form of its filters. Two locations ask the server for the
  same images under the same cache key exactly where the texts of their filters agree up to surrounding
  white space; the query read back holds just the filters that have a text, and normalising it again
  changes nothing.
\<close>

theorem filter_query_canonical:
  "(normalizedFilterQuery a = normalizedFilterQuery b \<longleftrightarrow>
     (\<forall>n \<in> set imageFilterNames. param_text a n = param_text b n)) \<and>
   params_parse (normalizedFilterQuery a) =
     limit_params @ map (\<lambda>n. (n, param_text a n)) (filter (\<lambda>n. param_text a n \<noteq> []) imageFilterNames) \<and>
   normalizedFilterQuery (params_parse (normalizedFilterQuery a)) = normalizedFilterQuery a"
  unfolding normalizedFilterQuery_def normalized_params_def
  using library.query_canonical [of a b] by (metis (no_types))

lemma filter_query_canonical_witness:
  "normalizedFilterQuery [(''q'', ''cat''), (''page'', ''2'')] = normalizedFilterQuery [(''q'', ''cat'')]"
  using filter_query_canonical [THEN conjunct1, of "[(''q'', ''cat''), (''page'', ''2'')]" "[(''q'', ''cat'')]"]
  by (simp add: imageFilterNames_def param_text_def params_get_def)

subsection \<open>The search of the header\<close>

definition location_params :: "location \<Rightarrow> params" where
  "location_params loc =
     params_parse (case loc_search loc of [] \<Rightarrow> [] | c # s \<Rightarrow> if c = CHR ''?'' then s else c # s)"

lemma form_decode_unreserved: "uri_unreserved c \<Longrightarrow> form_decode (c # s) = c # form_decode s"
  by (auto simp: uri_unreserved_def alnum_def is_digit_def)

lemma form_decode_pct: "form_decode (pct c @ s) = c # form_decode s"
proof -
  have "byte c div 16 < 16" using byte_less [of c] by linarith
  then show ?thesis by (simp add: pct_def hex_value_digit)
qed

lemma form_decode_component: "form_decode (encodeURIComponent s) = s"
  by (induction s) (auto simp: encodeURIComponent_def form_decode_unreserved form_decode_pct simp del: form_decode.simps(2))

lemma component_chars: "c \<in> set (encodeURIComponent s) \<Longrightarrow> uri_unreserved c \<or> c = CHR ''%''"
proof -
  have "uri_unreserved x" if "x \<in> set (tl (pct d))" for x d
  proof -
    have "byte d div 16 < 16" using byte_less [of d] by linarith
    then show ?thesis
      using that hex_digit_alnum [of "byte d div 16"] hex_digit_alnum [of "byte d mod 16"]
      by (auto simp: pct_def uri_unreserved_def)
  qed
  then show "c \<in> set (encodeURIComponent s) \<Longrightarrow> uri_unreserved c \<or> c = CHR ''%''"
    by (auto simp: encodeURIComponent_def pct_def split: if_splits)
qed

lemma unreserved_delims:
  "\<not> (uri_unreserved CHR ''&'' \<or> CHR ''&'' = CHR ''%'')" "\<not> (uri_unreserved CHR ''='' \<or> CHR ''='' = CHR ''%'')"
  "\<not> (uri_unreserved CHR ''#'' \<or> CHR ''#'' = CHR ''%'')" "\<not> (uri_unreserved CHR ''?'' \<or> CHR ''?'' = CHR ''%'')"
  by (simp_all add: uri_unreserved_def alnum_def is_digit_def)

lemma component_no_delims:
  "CHR ''&'' \<notin> set (encodeURIComponent s)" "CHR ''='' \<notin> set (encodeURIComponent s)"
  "CHR ''#'' \<notin> set (encodeURIComponent s)" "CHR ''?'' \<notin> set (encodeURIComponent s)"
  using component_chars [of _ s]
  by (metis unreserved_delims)+

lemma search_location:
  "location_params (location_of (search_path t) None) = (if t = [] then [] else [(''q'', t)])"
proof (cases "t = []")
  case False
  let ?e = "encodeURIComponent t"
  have "location_of (''/admin/images'' @ url_attr CHR ''?'' (Some (''q='' @ ?e)) @ url_attr CHR ''#'' None) None =
      \<lparr>loc_pathname = ''/admin/images'', loc_search = url_attr CHR ''?'' (Some (''q='' @ ?e)),
       loc_hash = url_attr CHR ''#'' None, loc_from = None\<rparr>"
    by (rule location_of_parts) (simp_all add: url_attr_def component_no_delims)
  then have loc: "loc_search (location_of (search_path t) None) = ''?q='' @ ?e"
    using False by (simp add: search_path_def url_attr_def)
  have "split_on CHR ''&'' (''q='' @ ?e) = [''q='' @ ?e]"
    by (rule split_on_absent) (simp add: component_no_delims)
  moreover have "parse_pair (''q='' @ ?e) = (''q'', t)" by (simp add: parse_pair_def form_decode_component)
  ultimately show ?thesis using False by (simp add: location_params_def loc params_parse_def)
next
  case True
  then show ?thesis by (simp add: search_path_def location_of_plain location_params_def params_parse_def)
qed

text \<open>
  C24: The search of the header reaches the library: whatever is typed, submitting navigates to a location
  from which the library filters by exactly that text without surrounding white space, and by nothing else.
\<close>

theorem search_reaches_library:
  "\<exists>to. snd (layout_step l (Search Search_Submit)) = [Navigate to False] \<and>
     loc_pathname (location_of to None) = ''/admin/images'' \<and>
     normalized_params (location_params (location_of to None)) =
       limit_params @ (if trim (searchTerm l) = [] then [] else [(''q'', trim (searchTerm l))])"
proof -
  let ?t = "trim (searchTerm l)"
  have path: "loc_pathname (location_of (search_path ?t) None) = ''/admin/images''"
  proof (cases "?t = []")
    case True
    then show ?thesis by (simp add: search_path_def location_of_plain)
  next
    case False
    then have e: "search_path ?t = ''/admin/images'' @ url_attr CHR ''?'' (Some (''q='' @ encodeURIComponent ?t)) @ url_attr CHR ''#'' None"
      by (simp add: search_path_def url_attr_def)
    show ?thesis unfolding e
      by (subst location_of_parts) (simp_all add: url_attr_def component_no_delims)
  qed
  have "param_text [(''q'', ?t)] n = (if n = ''q'' then ?t else [])" for n by (simp add: param_text_def params_get_def)
  then have "normalized_params [(''q'', ?t)] = limit_params @ (if ?t = [] then [] else [(''q'', ?t)])"
    by (simp add: normalized_params_eq imageFilterNames_def)
  moreover have "normalized_params [] = limit_params"
    by (simp add: normalized_params_eq imageFilterNames_def param_text_def params_get_def)
  ultimately show ?thesis using path by (simp add: searchImages_def search_location)
qed

section \<open>Selection and deletion\<close>

text \<open>The identifiers a batch request carries, read from its body.\<close>

fun batch_ids :: "json option \<Rightarrow> string list" where
  "batch_ids (Some (JObj ((k, JArr xs) # _))) =
     (if k = ''imageIds'' then map (\<lambda>x. case x of JStr s \<Rightarrow> s | _ \<Rightarrow> []) xs else [])"
| "batch_ids _ = []"

lemma batch_ids_json [simp]: "batch_ids (Some (JObj ((''imageIds'', ids_json ids) # r))) = ids"
  by (simp add: ids_json_def comp_def)

definition batch_list_ok :: "string list \<Rightarrow> bool" where
  "batch_list_ok ids \<longleftrightarrow> distinct ids \<and> 0 < length ids \<and> length ids \<le> 100"

text \<open>What the page asks for in a batch: between one and a hundred images, none twice.\<close>

fun batch_ok :: "effect \<Rightarrow> bool" where
  "batch_ok (Request path i) =
     (path \<in> {''/api/v1/images/batch-visibility'', ''/api/v1/images/batch-delete''} \<longrightarrow> batch_list_ok (batch_ids (init_body i)))"
| "batch_ok _ = True"

definition selection_ok :: "image_list_page \<Rightarrow> bool" where
  "selection_ok p \<longleftrightarrow>
     distinct (selected p) \<and> length (selected p) \<le> 100 \<and>
     (deleteConfirmOpen p \<longrightarrow> batch_list_ok (deleteSnapshot p))"

lemma selection_unchanged:
  "selection_ok p \<Longrightarrow> selected q = selected p \<Longrightarrow> deleteSnapshot q = deleteSnapshot p \<Longrightarrow>
   deleteConfirmOpen q = deleteConfirmOpen p \<Longrightarrow> selection_ok q"
  by (simp add: selection_ok_def)

lemma selection_cleared:
  "selection_ok p \<Longrightarrow> selected q = [] \<Longrightarrow> deleteSnapshot q = deleteSnapshot p \<Longrightarrow>
   deleteConfirmOpen q = deleteConfirmOpen p \<Longrightarrow> selection_ok q"
  by (simp add: selection_ok_def)

lemma toggle_ok: "selection_ok p \<Longrightarrow> selection_ok (fst (toggleSelected i p))"
proof -
  assume ok: "selection_ok p"
  have "length (jset_delete i (selected p)) \<le> 100" "length (selected p) < 100 \<longrightarrow> length (jset_add i (selected p)) \<le> 100"
    using ok length_jset_delete [of i "selected p"] length_jset_add [of i "selected p"] by (auto simp: selection_ok_def)
  with ok show ?thesis by (auto simp: toggleSelected_def selection_ok_def)
qed

lemma toolbar_ok: "selection_ok p \<Longrightarrow> selection_ok (fst (toolbar_step p e)) \<and> list_all batch_ok (snd (toolbar_step p e))"
  by (cases e) (auto simp: toolbar_step_def selection_ok_def batch_list_ok_def batch_visibility_request_def toast_of_def json_init_def)

lemma dialog_ok: "selection_ok p \<Longrightarrow> selection_ok (fst (delete_dialog p b)) \<and> list_all batch_ok (snd (delete_dialog p b))"
  by (auto simp: delete_dialog_def selection_ok_def batch_delete_request_def toast_of_def json_init_def)

lemma sync_ok [simp]:
  "list_all batch_ok (sync_apply v i)" "list_all batch_ok (map (sync_cancel \<circ> f) xs)" "batch_ok (sync_cancel i)"
  by (induction xs) (simp_all add: sync_apply_def sync_cancel_def)

lemma toast_batch_ok [simp]: "batch_ok (toast_of k key i cs)" "batch_ok (plain_toast k key cs)" "batch_ok (showBatchToast rs i)"
  by (simp_all add: toast_of_def plain_toast_def showBatchToast_def)

lemma single_request_ok [simp]: "batch_ok (visibility_request i v)" "batch_ok (image_page_request ps c)"
proof -
  have "''/api/v1/images/'' @ i @ ''/visibility'' \<notin> {''/api/v1/images/batch-visibility'', ''/api/v1/images/batch-delete''}"
  proof -
    have "length i = 5" if "i @ ''/visibility'' = ''batch-visibility''" using arg_cong [OF that, of length] by simp
    then have "''/visibility'' = drop 5 ''batch-visibility''" if "i @ ''/visibility'' = ''batch-visibility''"
      using that by (metis append_eq_conv_conj)
    moreover have "length i = 1" if "i @ ''/visibility'' = ''batch-delete''" using arg_cong [OF that, of length] by simp
    then have "''/visibility'' = drop 1 ''batch-delete''" if "i @ ''/visibility'' = ''batch-delete''"
      using that by (metis append_eq_conv_conj)
    ultimately have "i @ ''/visibility'' \<noteq> ''batch-visibility''" "i @ ''/visibility'' \<noteq> ''batch-delete''" by auto
    then show ?thesis by auto
  qed
  then show "batch_ok (visibility_request i v)" by (simp add: visibility_request_def)
  show "batch_ok (image_page_request ps c)" by (simp add: image_page_request_def Let_def)
qed

lemma persist_ok: "list_all batch_ok (persist p q)"
  by (simp add: persist_def)

lemma handle_ok:
  "selection_ok p \<Longrightarrow> selection_ok (fst (image_list_handle c p e)) \<and> list_all batch_ok (snd (image_list_handle c p e))"
proof (cases e)
  case (Toggle_Selected i)
  then show "selection_ok p \<Longrightarrow> ?thesis" using toggle_ok by (auto simp: toggleSelected_def)
next
  case (Toolbar b)
  then show "selection_ok p \<Longrightarrow> ?thesis" using toolbar_ok by simp
next
  case (Batch_Visibility_Settled r)
  then show "selection_ok p \<Longrightarrow> ?thesis"
    by (auto simp: batch_visibility_settled_def batch_visibility_done_def Let_def selection_ok_def split: sum.splits)
next
  case (Batch_Visibility_Synced i)
  then show "selection_ok p \<Longrightarrow> ?thesis"
    by (auto simp: batch_visibility_synced_def batch_visibility_done_def selection_ok_def split: option.splits)
next
  case Visibility_Synced
  then show "selection_ok p \<Longrightarrow> ?thesis"
    by (auto simp: visibility_synced_def selection_ok_def split: option.splits)
next
  case (Batch_Delete_Settled r)
  then show "selection_ok p \<Longrightarrow> ?thesis"
    by (auto simp: batch_delete_settled_def selection_ok_def split: option.splits sum.splits)
next
  case (Visibility_Settled r)
  then show "selection_ok p \<Longrightarrow> ?thesis"
    by (auto simp: visibility_settled_def selection_ok_def split: option.splits sum.splits)
qed (use dialog_ok in \<open>auto simp: params_effects_def applyFilters_def resetFilters_def card_visibility_def setVisibilityFilter_def
    setSearchParams_def Let_def selection_ok_def\<close>)

interpretation image_batches: reactive_output "image_list_step c" selection_ok batch_ok for c
proof unfold_locales
  fix p e x
  assume ok: "selection_ok p"
  obtain q out where h: "image_list_handle c p e = (q, out)" by force
  have "selection_ok q" "list_all batch_ok out" using handle_ok [OF ok, of c e] h by auto
  then show "selection_ok (fst (image_list_step c p e))"
    "x \<in> set (snd (image_list_step c p e)) \<Longrightarrow> batch_ok x"
    using persist_ok [of p q] by (auto simp: image_list_step_def h list_all_iff)
qed

lemma image_list_init_ok: "selection_ok (image_list_init c w ps)"
  by (simp add: selection_ok_def image_list_init_def)


text \<open>Events that leave the confirmation of a deletion as it is.\<close>

fun keeps_dialog :: "image_list_event \<Rightarrow> bool" where
  "keeps_dialog (Toolbar Delete_Button) = False"
| "keeps_dialog Dialog_Confirm = False"
| "keeps_dialog Dialog_Cancel = False"
| "keeps_dialog (Batch_Delete_Settled _) = False"
| "keeps_dialog _ = True"

lemma keeps_dialog_step:
  assumes "keeps_dialog e"
  shows "deleteSnapshot (fst (image_list_step c p e)) = deleteSnapshot p"
    "deleteConfirmOpen (fst (image_list_step c p e)) = deleteConfirmOpen p"
    "batchDelete (fst (image_list_step c p e)) = batchDelete p"
  using assms
  by (cases e rule: keeps_dialog.cases;
    simp add: image_list_step_def split_def params_effects_def applyFilters_def resetFilters_def toggleSelected_def
      toolbar_step_def card_visibility_def Let_def visibility_settled_def visibility_synced_def batch_visibility_settled_def
      batch_visibility_synced_def batch_visibility_done_def
      split: option.split sum.split)+

lemma keeps_dialog_run:
  assumes "\<forall>e \<in> set es. keeps_dialog e"
  shows "deleteSnapshot (fst (run_steps (image_list_step c) p es)) = deleteSnapshot p"
    "deleteConfirmOpen (fst (run_steps (image_list_step c) p es)) = deleteConfirmOpen p"
    "batchDelete (fst (run_steps (image_list_step c) p es)) = batchDelete p"
  using assms by (induction es arbitrary: p) (simp_all add: keeps_dialog_step)

text \<open>
  C21: What is deleted is what was selected when the deletion was asked for: whatever happens to the
  selection, the filters or the location until the dialog is confirmed, the request names exactly the
  images selected when the button was pressed.
\<close>

theorem delete_confirms_selection:
  assumes "selected p \<noteq> []" "\<not> il_busy p" "\<forall>e \<in> set es. keeps_dialog e"
  shows "snd (image_list_step c
       (fst (run_steps (image_list_step c) (fst (image_list_step c p (Toolbar Delete_Button))) es)) Dialog_Confirm) =
    [toast_of Toast_Loading ''common.working'' ''batch-delete'' [], batch_delete_request (selected p)]"
proof -
  let ?p1 = "fst (image_list_step c p (Toolbar Delete_Button))"
  have "deleteSnapshot ?p1 = selected p" "deleteConfirmOpen ?p1" "batchDelete ?p1 = None"
    using assms(1,2) by (simp_all add: image_list_step_def toolbar_step_def il_busy_def)
  then show ?thesis
    using keeps_dialog_run [OF assms(3), of c ?p1] by (simp add: image_list_step_def delete_dialog_def persist_def)
qed

lemma delete_confirms_selection_witness:
  "snd (image_list_step sample_clock
       (fst (run_steps (image_list_step sample_clock)
          (fst (image_list_step sample_clock ((image_list_init sample_clock None [])\<lparr>selected := [''a'', ''b'']\<rparr>) (Toolbar Delete_Button)))
          [Toggle_Selected ''c'', Params_Change [(''q'', ''x'')]])) Dialog_Confirm) =
    [toast_of Toast_Loading ''common.working'' ''batch-delete'' [], batch_delete_request [''a'', ''b'']]"
  using delete_confirms_selection [of "(image_list_init sample_clock None [])\<lparr>selected := [''a'', ''b'']\<rparr>"
      "[Toggle_Selected ''c'', Params_Change [(''q'', ''x'')]]" sample_clock]
  by (simp add: image_list_init_def il_busy_def del: run_steps_Cons)

section \<open>Going back\<close>

datatype scroll_event = Remember string jsnum nat | Restore list_query string

fun scroll_step :: "scroll_positions \<Rightarrow> scroll_event \<Rightarrow> scroll_positions \<times> effect list" where
  "scroll_step m (Remember key y count) = (rememberScroll key y count m, [])"
| "scroll_step m (Restore q key) = restoreScroll q key m"

definition positions_ok :: "scroll_positions \<Rightarrow> bool" where
  "positions_ok m \<longleftrightarrow> distinct (map fst m) \<and> length m \<le> 20"

lemma update_new: "k \<notin> fst ` set m \<Longrightarrow> AList.update k v m = m @ [(k, v)]"
  by (induction m) auto

lemma remember_eq: "rememberScroll k y n m = drop (Suc (length (AList.delete k m)) - 20) (AList.delete k m @ [(k, y, n)])"
proof -
  have "AList.update k v (AList.delete k m) = AList.delete k m @ [(k, v)]" for v
    by (rule update_new) (auto simp: AList.delete_eq)
  then show ?thesis by (simp add: rememberScroll_def Let_def)
qed

lemma remember_ok: "positions_ok m \<Longrightarrow> positions_ok (rememberScroll k y n m)"
proof -
  assume ok: "positions_ok m"
  then have "distinct (map fst (AList.delete k m @ [(k, y, n)]))"
    using AList.distinct_delete by (auto simp: positions_ok_def AList.delete_eq)
  then have "distinct (map fst (rememberScroll k y n m))" unfolding remember_eq drop_map [symmetric] by (rule distinct_drop)
  then show ?thesis by (simp add: positions_ok_def remember_eq)
qed

lemma restore_ok: "positions_ok m \<Longrightarrow> positions_ok (fst (restoreScroll q k m))"
  using AList.distinct_delete [of m k] length_delete_le [of k m]
  by (auto simp: positions_ok_def restoreScroll_def split: option.splits)

interpretation scroll: reactive scroll_step positions_ok
proof unfold_locales
  fix m e
  assume "positions_ok m"
  then show "positions_ok (fst (scroll_step m e))" using remember_ok restore_ok by (cases e) auto
qed

text \<open>An entry with at most \<open>j\<close> entries remembered after it.\<close>

definition kept_after :: "string \<Rightarrow> jsnum \<times> nat \<Rightarrow> nat \<Rightarrow> scroll_positions \<Rightarrow> bool" where
  "kept_after k v j m \<longleftrightarrow> (\<exists>a b. m = a @ (k, v) # b \<and> k \<notin> fst ` set a \<and> k \<notin> fst ` set b \<and> length b \<le> j)"

lemma kept_lookup:
  assumes "kept_after k v j m"
  shows "map_of m k = Some v"
proof -
  from assms obtain a b where m: "m = a @ (k, v) # b" "k \<notin> fst ` set a" by (auto simp: kept_after_def)
  from m(2) have "map_of a k = None" unfolding map_of_eq_None_iff .
  then show ?thesis by (simp add: m(1) map_add_def)
qed

lemma remember_kept:
  assumes "kept_after k v j m" "k' \<noteq> k" "j \<le> 18"
  shows "kept_after k v (Suc j) (rememberScroll k' y n m)"
proof -
  obtain a b where m: "m = a @ (k, v) # b" "k \<notin> fst ` set a" "k \<notin> fst ` set b" "length b \<le> j"
    using assms(1) by (auto simp: kept_after_def)
  let ?f = "filter (\<lambda>p. k' \<noteq> fst p)"
  have d: "AList.delete k' m = ?f a @ (k, v) # ?f b" using assms(2) by (simp add: m(1) AList.delete_eq split_def)
  have "length (?f b) \<le> 18" using m(4) assms(3) length_filter_le [of _ b] by (meson le_trans)
  then have "rememberScroll k' y n m =
      drop (Suc (length (AList.delete k' m)) - 20) (?f a) @ (k, v) # ?f b @ [(k', y, n)]"
    by (simp add: remember_eq d drop_append)
  moreover have "length (?f b) \<le> length b" by simp
  moreover define a' where "a' = drop (Suc (length (AList.delete k' m)) - 20) (?f a)"
  moreover have "k \<notin> fst ` set a'" using m(2) set_drop_subset [of _ "?f a"] unfolding a'_def by (auto 4 3)
  ultimately have "rememberScroll k' y n m = a' @ (k, v) # ?f b @ [(k', y, n)] \<and> k \<notin> fst ` set a' \<and>
      k \<notin> fst ` set (?f b @ [(k', y, n)]) \<and> length (?f b @ [(k', y, n)]) \<le> Suc j"
    using m(3) order_trans [OF length_filter_le m(4)] assms(2) by auto
  then show ?thesis unfolding kept_after_def by blast
qed

lemma remember_new: "kept_after k (y, n) 0 (rememberScroll k y n m)"
proof -
  let ?d = "AList.delete k m"
  have "rememberScroll k y n m = drop (Suc (length ?d) - 20) ?d @ [(k, y, n)]" by (simp add: remember_eq)
  moreover have "k \<notin> fst ` set (drop (Suc (length ?d) - 20) ?d)"
    by (auto dest!: in_set_dropD simp: AList.delete_eq)
  ultimately show ?thesis by (auto simp: kept_after_def)
qed

lemma remember_others:
  assumes "kept_after k v j m" "\<forall>(k', y, n) \<in> set others. k' \<noteq> k" "j + length others \<le> 19"
  shows "kept_after k v (j + length others) (fold (\<lambda>(k', y, n). rememberScroll k' y n) others m)"
  using assms
proof (induction others arbitrary: m j)
  case (Cons x xs)
  obtain k' y n where x: "x = (k', y, n)" by (cases x)
  have "kept_after k v (Suc j) (rememberScroll k' y n m)"
    using Cons.prems by (intro remember_kept) (auto simp: x)
  from Cons.IH [OF this] Cons.prems show ?case by (simp add: x)
qed simp

text \<open>
  C25: The way back from an image restores the library. At most twenty positions are remembered; one
  survives the visits of up to nineteen other entries of the history, and coming back first loads the
  pages that were loaded, then scrolls to the position and forgets it.
\<close>

theorem scroll_restored:
  assumes "\<forall>(k', y', n') \<in> set others. k' \<noteq> k" "length others \<le> 19" "lq_isSuccess q"
  shows "let m = fst (run_steps scroll_step [] es);
             later = fold (\<lambda>(k', y', n'). rememberScroll k' y' n') others (rememberScroll k y n m)
    in length m \<le> 20 \<and> length later \<le> 20 \<and>
      restoreScroll q k later =
        (if lq_count q < n \<and> lq_hasNextPage q \<and> \<not> lq_isFetchNextPageError q
         then (later, if \<not> lq_isFetchingNextPage q then [Fetch_Next_Page] else [])
         else (AList.delete k later, [Scroll_To y]))"
proof -
  define m where "m = fst (run_steps scroll_step [] es)"
  define later where "later = fold (\<lambda>(k', y', n'). rememberScroll k' y' n') others (rememberScroll k y n m)"
  have m: "positions_ok m" unfolding m_def by (rule scroll.run_inv) (simp add: positions_ok_def)
  have "positions_ok (fold (\<lambda>(k', y', n'). rememberScroll k' y' n') xs p)" if "positions_ok p" for xs p
    using that by (induction xs arbitrary: p) (auto simp: remember_ok)
  then have "positions_ok later" unfolding later_def using m remember_ok by blast
  moreover have "map_of later k = Some (y, n)"
    unfolding later_def using remember_others [OF remember_new assms(1)] assms(2) by (intro kept_lookup) auto
  ultimately show ?thesis
    using m assms(3) unfolding Let_def m_def [symmetric] later_def [symmetric]
    by (auto simp: positions_ok_def restoreScroll_def)
qed

lemma scroll_restored_witness:
  "snd (restoreScroll \<lparr>lq_isSuccess = True, lq_hasNextPage = True, lq_isFetchingNextPage = False,
       lq_isFetchNextPageError = False, lq_count = 24\<rparr> ''k''
     (rememberScroll ''j'' (Fin 5) 24 (rememberScroll ''k'' (Fin 900) 48 []))) = [Fetch_Next_Page]"
  using scroll_restored [of "[(''j'', Fin 5, 24)]" "''k''" "\<lparr>lq_isSuccess = True, lq_hasNextPage = True,
      lq_isFetchingNextPage = False, lq_isFetchNextPageError = False, lq_count = 24\<rparr>" "[]" "Fin 900" 48]
  by (simp add: Let_def)

end
