(* ===== verification/Migration.thy ===== *)
theory Migration
  imports Image_List
begin

text \<open>
  The migration library, \<open>web/src/features/migrations/migration-image-page.tsx\<close>: the images found in the
  migration directory of the server, their filters, the rescan, and deletion, which the server may
  have switched off. The functions on filters are those of theory \<open>Filters\<close>, which the source repeats.
\<close>

section \<open>Filters\<close>

definition migrationFilterNames :: "string list" where
  "migrationFilterNames = [''q'', ''format'', ''minBytes'', ''maxBytes'']"

definition migration_filter_query :: "params \<Rightarrow> string" where
  "migration_filter_query source = params_string (normalized_by migrationFilterNames source)"

definition migration_bytesToMiB :: "string option \<Rightarrow> string" where
  "migration_bytesToMiB raw =
     (case raw of None \<Rightarrow> []
      | Some s \<Rightarrow> if s = [] then []
          else let bytes = js_Number s
            in if js_is_finite bytes \<and> js_less (Fin 0) bytes
               then js_num_string (js_div (js_round (js_mul (js_div (js_div bytes (Fin 1024)) (Fin 1024)) (Fin 10))) (Fin 10))
               else [])"

definition displayPath :: "string \<Rightarrow> string" where
  "displayPath v = (case decodeURI v of None \<Rightarrow> v | Some s \<Rightarrow> s)"

record migration_form =
  mf_q :: string
  mf_format :: string
  mf_minMiB :: string
  mf_maxMiB :: string

definition migration_form_defaults :: "params \<Rightarrow> migration_form" where
  "migration_form_defaults ps =
     (let filterValues = params_parse (migration_filter_query ps);
          shown = (\<lambda>name. case params_get filterValues name of None \<Rightarrow> [] | Some v \<Rightarrow> v)
      in \<lparr>mf_q = shown ''q'', mf_format = shown ''format'',
          mf_minMiB = migration_bytesToMiB (params_get filterValues ''minBytes''),
          mf_maxMiB = migration_bytesToMiB (params_get filterValues ''maxBytes'')\<rparr>)"

text \<open>The page has its own \<open>append\<close> and \<open>appendMiB\<close>, which do what those of the image library do.\<close>

definition migration_append :: "string \<Rightarrow> string \<Rightarrow> params \<Rightarrow> params" where
  "migration_append name raw ps = (let value = trim raw in if value \<noteq> [] then params_set name value ps else ps)"

definition migration_appendMiB :: "string \<Rightarrow> string \<Rightarrow> params \<Rightarrow> params" where
  "migration_appendMiB name raw ps =
     (let value = js_Number (trim raw)
      in if js_is_finite value \<and> js_less (Fin 0) value
         then params_set name (js_num_string (js_round (js_mul (js_mul value (Fin 1024)) (Fin 1024)))) ps else ps)"

lemma migration_append_eq [simp]: "migration_append = append_param" "migration_appendMiB = appendMiB"
  by (auto simp: fun_eq_iff migration_append_def append_param_def migration_appendMiB_def appendMiB_def mib_bytes_def Let_def)

definition migration_params :: "migration_form \<Rightarrow> params" where
  "migration_params f =
     (migration_appendMiB ''maxBytes'' (mf_maxMiB f) \<circ> migration_appendMiB ''minBytes'' (mf_minMiB f) \<circ>
      migration_append ''format'' (mf_format f) \<circ> migration_append ''q'' (mf_q f)) limit_params"

section \<open>The page\<close>

datatype refresh_phase = Refresh_Idle | Refresh_Posting | Refresh_Invalidating

record migration_page =
  mg_params :: params
  mg_filtersOpen :: bool
  mg_viewMode :: view_mode
  mg_selected :: "string list"
  mg_deleteConfirmOpen :: bool
  mg_deleteSnapshot :: "string list"
  mg_pages :: "migration_image_list list"
  mg_refresh :: refresh_phase
  mg_batchDelete :: "string list option"

definition migration_viewModeStorageKey :: string where
  "migration_viewModeStorageKey = ''imagesilo_migration_view_mode''"

definition migration_filtersOpenStorageKey :: string where
  "migration_filtersOpenStorageKey = ''imagesilo_migration_filters_open''"

definition migration_init :: "local_storage \<Rightarrow> params \<Rightarrow> migration_page" where
  "migration_init w ps =
     \<lparr>mg_params = ps, mg_filtersOpen = (readLocalStorage w migration_filtersOpenStorageKey = Some ''true''),
      mg_viewMode = (if readLocalStorage w migration_viewModeStorageKey = Some ''list'' then List_View else Grid),
      mg_selected = [], mg_deleteConfirmOpen = False, mg_deleteSnapshot = [], mg_pages = [],
      mg_refresh = Refresh_Idle, mg_batchDelete = None\<rparr>"

definition migration_page_request :: "params \<Rightarrow> string \<Rightarrow> effect" where
  "migration_page_request ps pageParam =
     (let parameters = params_parse (migration_filter_query ps)
      in Request
           (''/api/v1/migration-images?'' @
            params_string (if pageParam \<noteq> [] then params_set ''cursor'' pageParam parameters else parameters))
           no_init)"

definition migration_images :: "migration_page \<Rightarrow> migration_image list" where
  "migration_images p = concat (map mi_items (mg_pages p))"

text \<open>What the first page says; without a page, nothing may be changed.\<close>

definition mg_enabled :: "migration_page \<Rightarrow> bool" where
  "mg_enabled p = (case mg_pages p of [] \<Rightarrow> False | pg # _ \<Rightarrow> mutationsEnabled pg)"

definition mg_skippedFiles :: "migration_page \<Rightarrow> nat" where
  "mg_skippedFiles p = (case mg_pages p of [] \<Rightarrow> 0 | pg # _ \<Rightarrow> skippedFiles pg)"

definition refresh_request :: effect where
  "refresh_request = Request ''/api/v1/migration-images/refresh'' (method_init ''POST'')"

definition refresh_settled :: "js_error + json option \<Rightarrow> migration_page \<Rightarrow> migration_page \<times> effect list" where
  "refresh_settled r p =
     (if mg_refresh p \<noteq> Refresh_Posting then (p, [])
      else case r of
          Inl _ \<Rightarrow> (p\<lparr>mg_refresh := Refresh_Idle\<rparr>,
                    [toast_of Toast_Error ''migrations.refreshFailed'' ''migration-refresh'' []])
        | Inr _ \<Rightarrow> (p\<lparr>mg_refresh := Refresh_Invalidating, mg_selected := []\<rparr>, [Invalidate_Queries [''migration-images'']]))"

definition refresh_invalidated :: "migration_page \<Rightarrow> migration_page \<times> effect list" where
  "refresh_invalidated p =
     (if mg_refresh p \<noteq> Refresh_Invalidating then (p, [])
      else (p\<lparr>mg_refresh := Refresh_Idle\<rparr>, [toast_of Toast_Success ''migrations.refreshSuccess'' ''migration-refresh'' []]))"

definition migration_delete_request :: "string list \<Rightarrow> effect" where
  "migration_delete_request paths =
     Request ''/api/v1/migration-images/batch-delete'' (json_init ''POST'' (JObj [(''paths'', ids_json paths)]))"

definition migration_failures :: "migration_operation_item list \<Rightarrow> migration_operation_item list" where
  "migration_failures rs = filter (\<lambda>r. mo_status r \<noteq> Mig_Deleted) rs"

definition migration_toast :: "migration_operation_item list \<Rightarrow> effect" where
  "migration_toast rs =
     (if 0 < length (migration_failures rs)
      then toast_of Toast_Warning ''migrations.batchPartial'' ''migration-batch-delete''
             [length rs - length (migration_failures rs), length (migration_failures rs)]
      else toast_of Toast_Success ''migrations.batchSuccess'' ''migration-batch-delete'' [length rs])"

definition migration_delete_settled ::
    "js_error + migration_operation_item list \<Rightarrow> migration_page \<Rightarrow> migration_page \<times> effect list" where
  "migration_delete_settled r p =
     (case mg_batchDelete p of None \<Rightarrow> (p, [])
      | Some _ \<Rightarrow>
          (case r of
             Inl _ \<Rightarrow> (p\<lparr>mg_batchDelete := None\<rparr>,
                       [toast_of Toast_Error ''migrations.deleteFailed'' ''migration-batch-delete'' []])
           | Inr rs \<Rightarrow>
               (p\<lparr>mg_batchDelete := None, mg_deleteConfirmOpen := False, mg_deleteSnapshot := [], mg_selected := []\<rparr>,
                [migration_toast rs, Invalidate_Queries [''migration-images'']])))"

definition migration_applyFilters :: "migration_form \<Rightarrow> bool \<Rightarrow> migration_page \<Rightarrow> migration_page \<times> effect list" where
  "migration_applyFilters f narrow p =
     (p\<lparr>mg_selected := [], mg_filtersOpen := mg_filtersOpen p \<and> \<not> narrow\<rparr>,
      setSearchParams (migration_params f) # (if narrow then [Focus_Filter_Toggle] else []))"

definition migration_resetFilters :: "migration_page \<Rightarrow> migration_page \<times> effect list" where
  "migration_resetFilters p = (p\<lparr>mg_selected := []\<rparr>, [Reset_Form, setSearchParams []])"

definition migration_toggleSelected :: "string \<Rightarrow> migration_page \<Rightarrow> migration_page \<times> effect list" where
  "migration_toggleSelected path p =
     (if mg_batchDelete p \<noteq> None \<or> \<not> mg_enabled p then (p, [])
      else if path \<in> set (mg_selected p) then (p\<lparr>mg_selected := jset_delete path (mg_selected p)\<rparr>, [])
      else if 100 \<le> length (mg_selected p) then (p, [plain_toast Toast_Warning ''migrations.selectionLimit'' []])
      else (p\<lparr>mg_selected := jset_add path (mg_selected p)\<rparr>, []))"

definition confirmDelete :: "string list \<Rightarrow> migration_page \<Rightarrow> migration_page" where
  "confirmDelete paths p =
     (if \<not> mg_enabled p \<or> mg_batchDelete p \<noteq> None then p
      else p\<lparr>mg_deleteSnapshot := paths, mg_deleteConfirmOpen := True\<rparr>)"

definition migration_params_effects :: "params \<Rightarrow> migration_page \<Rightarrow> migration_page \<times> effect list" where
  "migration_params_effects ps p =
     (if params_string ps = params_string (mg_params p) then (p\<lparr>mg_params := ps\<rparr>, [])
      else (p\<lparr>mg_params := ps, mg_selected := []\<rparr>,
            if migration_filter_query ps = migration_filter_query (mg_params p) then [] else [Reset_Form]))"

text \<open>The toolbar for the selection: deleting it and clearing it, unless a deletion is pending.\<close>

definition migration_toolbar :: "bool \<Rightarrow> migration_page \<Rightarrow> migration_page" where
  "migration_toolbar delete p =
     (if mg_selected p = [] \<or> mg_batchDelete p \<noteq> None then p
      else if delete then confirmDelete (mg_selected p) p else p\<lparr>mg_selected := []\<rparr>)"

definition migration_dialog :: "bool \<Rightarrow> migration_page \<Rightarrow> migration_page \<times> effect list" where
  "migration_dialog confirmed p =
     (if \<not> mg_deleteConfirmOpen p \<or> mg_batchDelete p \<noteq> None then (p, [])
      else if confirmed
        then (p\<lparr>mg_batchDelete := Some (mg_deleteSnapshot p)\<rparr>,
              [toast_of Toast_Loading ''common.working'' ''migration-batch-delete'' [],
               migration_delete_request (mg_deleteSnapshot p)])
      else (p\<lparr>mg_deleteConfirmOpen := False, mg_deleteSnapshot := []\<rparr>, []))"

datatype migration_event =
    Mg_Pages "migration_image_list list"
  | Mg_Params params
  | Mg_Load_Page string
  | Mg_Toggle_Filters
  | Mg_Set_View view_mode
  | Mg_Refresh
  | Mg_Refresh_Settled "js_error + json option"
  | Mg_Refresh_Invalidated
  | Mg_Apply migration_form bool
  | Mg_Reset
  | Mg_Toggle string
  | Mg_Card_Delete string
  | Mg_Toolbar bool
  | Mg_Dialog bool
  | Mg_Delete_Settled "js_error + migration_operation_item list"

text \<open>The buttons of a card are rendered while changes are enabled; \<open>toggleSelected\<close> and \<open>confirmDelete\<close> ask again.\<close>

definition migration_toolbar_buttons :: "migration_page \<Rightarrow> migration_event \<Rightarrow> migration_page \<times> effect list" where
  "migration_toolbar_buttons p e =
     (case e of
        Mg_Toggle_Filters \<Rightarrow> (p\<lparr>mg_filtersOpen := \<not> mg_filtersOpen p\<rparr>, [])
      | Mg_Set_View m \<Rightarrow> (p\<lparr>mg_viewMode := m\<rparr>, [])
      | Mg_Refresh \<Rightarrow>
          if mg_refresh p \<noteq> Refresh_Idle then (p, []) else (p\<lparr>mg_refresh := Refresh_Posting\<rparr>, [refresh_request])
      | _ \<Rightarrow> (p, []))"

definition MigrationImageCard :: "migration_page \<Rightarrow> migration_event \<Rightarrow> migration_page \<times> effect list" where
  "MigrationImageCard p e =
     (if \<not> mg_enabled p \<or> mg_batchDelete p \<noteq> None then (p, [])
      else case e of
        Mg_Toggle path \<Rightarrow> migration_toggleSelected path p
      | Mg_Card_Delete path \<Rightarrow> (confirmDelete [path] p, [])
      | _ \<Rightarrow> (p, []))"

fun migration_handle :: "migration_page \<Rightarrow> migration_event \<Rightarrow> migration_page \<times> effect list" where
  "migration_handle p (Mg_Pages pages) = (p\<lparr>mg_pages := pages\<rparr>, [])"
| "migration_handle p (Mg_Params ps) = migration_params_effects ps p"
| "migration_handle p (Mg_Load_Page cursor) = (p, [migration_page_request (mg_params p) cursor])"
| "migration_handle p (Mg_Refresh_Settled r) = refresh_settled r p"
| "migration_handle p Mg_Refresh_Invalidated = refresh_invalidated p"
| "migration_handle p (Mg_Apply f narrow) = migration_applyFilters f narrow p"
| "migration_handle p Mg_Reset = migration_resetFilters p"
| "migration_handle p (Mg_Toolbar delete) = (migration_toolbar delete p, [])"
| "migration_handle p (Mg_Dialog confirmed) = migration_dialog confirmed p"
| "migration_handle p (Mg_Delete_Settled r) = migration_delete_settled r p"
| "migration_handle p (Mg_Toggle path) = MigrationImageCard p (Mg_Toggle path)"
| "migration_handle p (Mg_Card_Delete path) = MigrationImageCard p (Mg_Card_Delete path)"
| "migration_handle p Mg_Toggle_Filters = migration_toolbar_buttons p Mg_Toggle_Filters"
| "migration_handle p (Mg_Set_View m) = migration_toolbar_buttons p (Mg_Set_View m)"
| "migration_handle p Mg_Refresh = migration_toolbar_buttons p Mg_Refresh"

text \<open>The effects of the first render, and of a later one in which a preference changed.\<close>

definition migration_mount :: "local_storage \<Rightarrow> params \<Rightarrow> migration_page \<times> effect list" where
  "migration_mount w ps =
     (let p = migration_init w ps
      in (p, [Store_Item migration_filtersOpenStorageKey (bool_text (mg_filtersOpen p)),
              Store_Item migration_viewModeStorageKey (view_mode_text (mg_viewMode p)), Reset_Form]))"

definition migration_persist :: "migration_page \<Rightarrow> migration_page \<Rightarrow> effect list" where
  "migration_persist p p' =
     (if mg_filtersOpen p' = mg_filtersOpen p then []
      else [Store_Item migration_filtersOpenStorageKey (bool_text (mg_filtersOpen p'))]) @
     (if mg_viewMode p' = mg_viewMode p then []
      else [Store_Item migration_viewModeStorageKey (view_mode_text (mg_viewMode p'))])"

definition migration_step :: "migration_page \<Rightarrow> migration_event \<Rightarrow> migration_page \<times> effect list" where
  "migration_step p e =
     (let (p', out) = migration_handle p e in (p', out @ migration_persist p p'))"

section \<open>Lemmas\<close>

interpretation migration_filters: filter_names migrationFilterNames
  by unfold_locales (simp_all add: migrationFilterNames_def)

text \<open>The two copies of \<open>bytesToMiB\<close> agree.\<close>

lemma migration_bytesToMiB_eq: "migration_bytesToMiB = bytesToMiB"
proof
  fix raw
  have "js_Number [] = Fin 0" by (simp add: js_Number_def)
  then show "migration_bytesToMiB raw = bytesToMiB raw"
    by (auto simp: migration_bytesToMiB_def bytesToMiB_def Let_def js_is_finite_def split: option.split)
qed

fun migration_batch :: "effect \<Rightarrow> string list option" where
  "migration_batch (Request path i) =
     (if path \<noteq> ''/api/v1/migration-images/batch-delete'' then None
      else case init_body i of Some (JObj [(k, JArr xs)]) \<Rightarrow> Some (map (\<lambda>x. case x of JStr s \<Rightarrow> s | _ \<Rightarrow> []) xs)
        | _ \<Rightarrow> Some [])"
| "migration_batch _ = None"

definition migration_batch_ok :: "effect \<Rightarrow> bool" where
  "migration_batch_ok x = (case migration_batch x of None \<Rightarrow> True | Some paths \<Rightarrow> batch_list_ok paths)"

definition migration_ok :: "migration_page \<Rightarrow> bool" where
  "migration_ok p \<longleftrightarrow> distinct (mg_selected p) \<and> length (mg_selected p) \<le> 100 \<and>
     (mg_deleteConfirmOpen p \<longrightarrow> batch_list_ok (mg_deleteSnapshot p))"

lemma migration_toast_ok [simp]:
  "migration_batch (toast_of k key i cs) = None" "migration_batch (plain_toast k key cs) = None"
  "migration_batch (migration_toast rs) = None" "migration_batch (setSearchParams ps) = None"
  "migration_batch refresh_request = None"
  by (simp_all add: toast_of_def plain_toast_def migration_toast_def setSearchParams_def refresh_request_def)

lemma migration_delete_batch [simp]: "migration_batch (migration_delete_request paths) = Some paths"
  by (simp add: migration_delete_request_def json_init_def ids_json_def comp_def)

lemma migration_page_batch [simp]: "migration_batch (migration_page_request ps c) = None"
  by (simp add: migration_page_request_def Let_def)

lemma migration_toggle_ok: "migration_ok p \<Longrightarrow> migration_ok (fst (migration_toggleSelected i p))"
proof -
  assume ok: "migration_ok p"
  have "length (jset_delete i (mg_selected p)) \<le> 100"
    "length (mg_selected p) < 100 \<longrightarrow> length (jset_add i (mg_selected p)) \<le> 100"
    using ok length_jset_delete [of i "mg_selected p"] length_jset_add [of i "mg_selected p"] by (auto simp: migration_ok_def)
  with ok show ?thesis by (auto simp: migration_toggleSelected_def migration_ok_def)
qed

lemma migration_toggle_out: "list_all migration_batch_ok (snd (migration_toggleSelected i p))"
  by (simp add: migration_toggleSelected_def migration_batch_ok_def)

lemma confirmDelete_ok: "migration_ok p \<Longrightarrow> batch_list_ok paths \<Longrightarrow> migration_ok (confirmDelete paths p)"
  by (simp add: confirmDelete_def migration_ok_def)

lemma migration_handle_ok:
  assumes ok: "migration_ok p"
  shows "migration_ok (fst (migration_handle p e)) \<and> list_all migration_batch_ok (snd (migration_handle p e))"
proof (cases e)
  case (Mg_Toggle i)
  then show ?thesis using ok migration_toggle_ok migration_toggle_out by (simp add: MigrationImageCard_def)
next
  case (Mg_Card_Delete i)
  then show ?thesis using ok confirmDelete_ok [OF ok, of "[i]"] by (simp add: MigrationImageCard_def batch_list_ok_def)
next
  case (Mg_Toolbar d)
  have "mg_selected p \<noteq> [] \<Longrightarrow> batch_list_ok (mg_selected p)" using ok by (simp add: migration_ok_def batch_list_ok_def)
  then show ?thesis using Mg_Toolbar ok confirmDelete_ok [OF ok] by (simp add: migration_toolbar_def migration_ok_def)
next
  case (Mg_Refresh_Settled r)
  then show ?thesis using ok by (cases r) (simp_all add: refresh_settled_def migration_ok_def migration_batch_ok_def)
next
  case (Mg_Delete_Settled r)
  then show ?thesis using ok
    by (cases r) (simp_all add: migration_delete_settled_def migration_ok_def migration_batch_ok_def split: option.split)
next
  case (Mg_Dialog c)
  then show ?thesis using ok by (simp add: migration_dialog_def migration_ok_def migration_batch_ok_def)
qed (use ok in \<open>simp_all add: migration_params_effects_def refresh_invalidated_def migration_applyFilters_def
    migration_resetFilters_def migration_toolbar_buttons_def migration_ok_def migration_batch_ok_def\<close>)

interpretation migration_batches: reactive_output migration_step migration_ok migration_batch_ok
proof unfold_locales
  fix p e x
  assume ok: "migration_ok p"
  obtain q out where h: "migration_handle p e = (q, out)" by force
  have "migration_ok q" "list_all migration_batch_ok out" using migration_handle_ok [OF ok, of e] h by auto
  then show "migration_ok (fst (migration_step p e))"
    "x \<in> set (snd (migration_step p e)) \<Longrightarrow> migration_batch_ok x"
    by (auto simp: migration_step_def h list_all_iff migration_persist_def migration_batch_ok_def split: if_splits)
qed

text \<open>A server that does not allow changes says so in every list it sends.\<close>

fun read_only_event :: "migration_event \<Rightarrow> bool" where
  "read_only_event (Mg_Pages pages) = (case pages of [] \<Rightarrow> True | pg # _ \<Rightarrow> \<not> mutationsEnabled pg)"
| "read_only_event _ = True"

definition untouched :: "migration_page \<Rightarrow> bool" where
  "untouched p \<longleftrightarrow> \<not> mg_enabled p \<and> mg_selected p = [] \<and> \<not> mg_deleteConfirmOpen p \<and> mg_batchDelete p = None"

lemma read_only_handle:
  assumes "untouched p" "read_only_event e"
  shows "untouched (fst (migration_handle p e)) \<and> list_all (\<lambda>x. migration_batch x = None) (snd (migration_handle p e))"
proof (cases e)
  case (Mg_Pages pages)
  then show ?thesis using assms by (cases pages) (simp_all add: untouched_def mg_enabled_def)
next
  case (Mg_Refresh_Settled r)
  then show ?thesis using assms by (cases r) (simp_all add: untouched_def refresh_settled_def mg_enabled_def)
qed (use assms in \<open>simp_all add: untouched_def mg_enabled_def migration_params_effects_def refresh_invalidated_def
    migration_applyFilters_def migration_resetFilters_def migration_toolbar_buttons_def migration_toolbar_def
    migration_dialog_def migration_delete_settled_def MigrationImageCard_def\<close>)

lemma read_only_step:
  assumes "untouched p" "read_only_event e"
  shows "untouched (fst (migration_step p e)) \<and> list_all (\<lambda>x. migration_batch x = None) (snd (migration_step p e))"
  using read_only_handle [OF assms] by (simp add: migration_step_def split_def migration_persist_def Let_def)

lemma read_only_run:
  assumes "untouched p" "\<forall>e \<in> set es. read_only_event e"
  shows "untouched (fst (run_steps migration_step p es)) \<and>
    list_all (\<lambda>x. migration_batch x = None) (snd (run_steps migration_step p es))"
  using assms by (induction es arbitrary: p) (simp_all add: read_only_step)



end
