(* ===== verification/Settings.thy ===== *)
theory Settings
  imports Auth Js_Number
begin

text \<open>
  The settings page, \<open>web/src/features/settings/settings-page.tsx\<close>: the profile, the default visibility,
  the password and the processing settings, each with its validation and its mutation.

  \<open>sp_settings\<close> is the data of the settings query. A mutation of the query library whose \<open>onSuccess\<close>
  rejects ends in \<open>onError\<close>. Error texts are the keys the code translates.
\<close>

section \<open>Validation\<close>

definition has_whitespace :: "string \<Rightarrow> bool" where
  "has_whitespace s \<longleftrightarrow> list_ex (\<lambda>k. leading_ws (drop k s) \<noteq> None) [0..<length s]"

text \<open>The pattern of an e-mail address, tested on the parts around its \<open>@\<close>.\<close>

definition email_test :: "string \<Rightarrow> bool" where
  "email_test s \<longleftrightarrow>
     (case split_on CHR ''@'' s of
        [l, d] \<Rightarrow> l \<noteq> [] \<and> list_ex (\<lambda>i. d ! i = CHR ''.'') [1..<length d - 1] \<and> \<not> has_whitespace s
      | _ \<Rightarrow> False)"

definition numberValue :: "string \<Rightarrow> nat \<Rightarrow> nat \<Rightarrow> nat option" where
  "numberValue raw mn mx =
     (if trim raw = [] then None
      else case js_Number raw of
          Fin x \<Rightarrow> if of_int \<lfloor>x\<rfloor> = x \<and> of_nat mn \<le> x \<and> x \<le> of_nat mx then Some (nat \<lfloor>x\<rfloor>) else None
        | _ \<Rightarrow> None)"

type_synonym form_errors = "(string \<times> string) list"

section \<open>The page\<close>

record processing_draft =
  pd_compressionEnabled :: bool
  pd_jpegQuality :: string
  pd_webpQuality :: string
  pd_pngCompressionLevel :: string
  pd_conversionEnabled :: bool
  pd_conversionWebpQuality :: string
  pd_conversionWebpLossless :: bool

definition toProcessingDraft :: "app_settings \<Rightarrow> processing_draft" where
  "toProcessingDraft s =
     \<lparr>pd_compressionEnabled = compressionEnabled s, pd_jpegQuality = decimal (jpegQuality s),
      pd_webpQuality = decimal (webpQuality s), pd_pngCompressionLevel = decimal (pngCompressionLevel s),
      pd_conversionEnabled = conversionEnabled s, pd_conversionWebpQuality = decimal (conversionWebpQuality s),
      pd_conversionWebpLossless = conversionWebpLossless s\<rparr>"

datatype profile_phase = Profile_Idle | Profile_Saving | Profile_Refreshing

record settings_page =
  currentPassword :: string
  newPassword :: string
  profileErrors :: form_errors
  passwordErrors :: form_errors
  processingErrors :: form_errors
  processingDraft :: "processing_draft option"
  sp_settings :: "app_settings option"
  sp_profile :: profile_phase
  sp_visibility_pending :: bool
  sp_password_pending :: bool
  sp_processing_pending :: bool

definition settings_init :: settings_page where
  "settings_init =
     \<lparr>currentPassword = [], newPassword = [], profileErrors = [], passwordErrors = [], processingErrors = [],
      processingDraft = None, sp_settings = None, sp_profile = Profile_Idle, sp_visibility_pending = False,
      sp_password_pending = False, sp_processing_pending = False\<rparr>"

text \<open>New data of the query; the draft is made from the first.\<close>

definition settings_data :: "app_settings \<Rightarrow> settings_page \<Rightarrow> settings_page" where
  "settings_data s p =
     p\<lparr>sp_settings := Some s,
       processingDraft := (case processingDraft p of None \<Rightarrow> Some (toProcessingDraft s) | Some d \<Rightarrow> Some d)\<rparr>"

definition settings_request :: effect where
  "settings_request = Request ''/api/v1/settings'' no_init"

subsection \<open>Profile\<close>

definition profile_request :: "string \<Rightarrow> string \<Rightarrow> effect" where
  "profile_request name mail =
     Request ''/api/v1/auth/profile''
       (json_init ''PATCH'' (JObj [(''displayName'', JStr name), (''email'', JStr mail)]))"

definition profile_errors :: "string \<Rightarrow> string \<Rightarrow> form_errors" where
  "profile_errors name mail =
     (if name = [] then [(''displayName'', ''validation.required'')] else []) @
     (if mail = [] then [(''email'', ''validation.required'')]
      else if \<not> email_test mail then [(''email'', ''validation.email'')] else [])"

definition updateProfile :: "string \<Rightarrow> string \<Rightarrow> settings_page \<Rightarrow> settings_page \<times> effect list" where
  "updateProfile rawName rawEmail p =
     (if sp_profile p \<noteq> Profile_Idle then (p, [])
      else
        let name = trim rawName; mail = trim rawEmail; errors = profile_errors name mail
        in if 0 < length errors then (p\<lparr>profileErrors := errors\<rparr>, [])
           else (p\<lparr>profileErrors := errors, sp_profile := Profile_Saving\<rparr>,
                 [toast_of Toast_Loading ''toast.profileSaving'' ''settings-profile'' [], profile_request name mail]))"

definition profile_failed :: "settings_page \<Rightarrow> settings_page \<times> effect list" where
  "profile_failed p =
     (p\<lparr>sp_profile := Profile_Idle\<rparr>, [toast_of Toast_Error ''toast.profileFailed'' ''settings-profile'' []])"

definition profile_settled :: "js_error + json option \<Rightarrow> settings_page \<Rightarrow> settings_page \<times> effect list" where
  "profile_settled r p =
     (if sp_profile p \<noteq> Profile_Saving then (p, [])
      else case r of Inl _ \<Rightarrow> profile_failed p | Inr _ \<Rightarrow> (p\<lparr>sp_profile := Profile_Refreshing\<rparr>, refresh))"

definition profile_refreshed :: "js_error + admin_session option \<Rightarrow> settings_page \<Rightarrow> settings_page \<times> effect list" where
  "profile_refreshed r p =
     (if sp_profile p \<noteq> Profile_Refreshing then (p, [])
      else case r of Inl _ \<Rightarrow> profile_failed p
        | Inr _ \<Rightarrow> (p\<lparr>sp_profile := Profile_Idle\<rparr>,
                   [toast_of Toast_Success ''toast.profileSaved'' ''settings-profile'' []]))"

subsection \<open>Default visibility\<close>

definition default_visibility_request :: "visibility \<Rightarrow> effect" where
  "default_visibility_request v =
     Request ''/api/v1/settings/default-visibility''
       (json_init ''PATCH'' (JObj [(''defaultVisibility'', JStr (visibility_text v))]))"

definition default_visibility_select :: "visibility \<Rightarrow> settings_page \<Rightarrow> settings_page \<times> effect list" where
  "default_visibility_select v p =
     (if sp_settings p = None \<or> sp_visibility_pending p then (p, [])
      else (p\<lparr>sp_visibility_pending := True\<rparr>,
            [toast_of Toast_Loading ''toast.settingsSaving'' ''settings-visibility'' [], default_visibility_request v]))"

definition default_visibility_settled :: "js_error + app_settings \<Rightarrow> settings_page \<Rightarrow> settings_page \<times> effect list" where
  "default_visibility_settled r p =
     (if \<not> sp_visibility_pending p then (p, [])
      else case r of
          Inl _ \<Rightarrow> (p\<lparr>sp_visibility_pending := False\<rparr>,
                    [toast_of Toast_Error ''toast.settingsFailed'' ''settings-visibility'' []])
        | Inr s \<Rightarrow> (p\<lparr>sp_visibility_pending := False, sp_settings := Some s\<rparr>,
                    [Set_Query_Data [''settings''], toast_of Toast_Success ''toast.settingsSaved'' ''settings-visibility'' []]))"

subsection \<open>Password\<close>

definition password_errors :: "string \<Rightarrow> string \<Rightarrow> form_errors" where
  "password_errors current new =
     (if current = [] then [(''currentPassword'', ''validation.required'')] else []) @
     (if new = [] then [(''newPassword'', ''validation.required'')]
      else if js_length new < 12 then [(''newPassword'', ''validation.minLength'')] else [])"

definition password_request :: "string \<Rightarrow> string \<Rightarrow> effect" where
  "password_request current new =
     Request ''/api/v1/auth/password''
       (json_init ''POST'' (JObj [(''currentPassword'', JStr current), (''newPassword'', JStr new)]))"

definition changePassword :: "settings_page \<Rightarrow> settings_page \<times> effect list" where
  "changePassword p =
     (if sp_password_pending p then (p, [])
      else
        let errors = password_errors (currentPassword p) (newPassword p)
        in if 0 < length errors then (p\<lparr>passwordErrors := errors\<rparr>, [])
           else (p\<lparr>passwordErrors := errors, sp_password_pending := True\<rparr>,
                 [toast_of Toast_Loading ''toast.passwordChanging'' ''settings-password'' [],
                  password_request (currentPassword p) (newPassword p)]))"

definition password_settled :: "js_error + json option \<Rightarrow> settings_page \<Rightarrow> settings_page \<times> effect list" where
  "password_settled r p =
     (if \<not> sp_password_pending p then (p, [])
      else case r of
          Inl _ \<Rightarrow> (p\<lparr>sp_password_pending := False\<rparr>,
                    [toast_of Toast_Error ''settings.passwordFailed'' ''settings-password'' []])
        | Inr _ \<Rightarrow> (p\<lparr>sp_password_pending := False, currentPassword := [], newPassword := []\<rparr>,
                    [toast_of Toast_Success ''toast.passwordChanged'' ''settings-password'' []]))"

subsection \<open>Processing\<close>

definition processing_request :: "processing_draft \<Rightarrow> nat \<Rightarrow> nat \<Rightarrow> nat \<Rightarrow> nat \<Rightarrow> effect" where
  "processing_request d jpeg webp png conversion =
     Request ''/api/v1/settings/processing''
       (json_init ''PATCH''
         (JObj [(''compressionEnabled'', JBool (pd_compressionEnabled d)), (''jpegQuality'', JNum (of_nat jpeg)),
           (''webpQuality'', JNum (of_nat webp)), (''pngCompressionLevel'', JNum (of_nat png)),
           (''conversionEnabled'', JBool (pd_conversionEnabled d)),
           (''conversionWebpQuality'', JNum (of_nat conversion)),
           (''conversionWebpLossless'', JBool (pd_conversionWebpLossless d))]))"

definition processing_fields :: "processing_draft \<Rightarrow> (string \<times> nat option) list" where
  "processing_fields d =
     [(''jpegQuality'', numberValue (pd_jpegQuality d) 1 100), (''webpQuality'', numberValue (pd_webpQuality d) 1 100),
      (''pngCompressionLevel'', numberValue (pd_pngCompressionLevel d) 0 9),
      (''conversionWebpQuality'', numberValue (pd_conversionWebpQuality d) 1 100)]"

definition processing_errors :: "processing_draft \<Rightarrow> form_errors" where
  "processing_errors d =
     map (\<lambda>(name, _). (name, ''validation.numberRange'')) (filter (\<lambda>(_, v). v = None) (processing_fields d))"

definition updateProcessing :: "settings_page \<Rightarrow> settings_page \<times> effect list" where
  "updateProcessing p =
     (case processingDraft p of None \<Rightarrow> (p, [])
      | Some d \<Rightarrow>
          if sp_processing_pending p then (p, [])
          else if 0 < length (processing_errors d) then (p\<lparr>processingErrors := processing_errors d\<rparr>, [])
          else
            (p\<lparr>processingErrors := processing_errors d, sp_processing_pending := True\<rparr>,
             [toast_of Toast_Loading ''toast.settingsSaving'' ''settings-processing'' [],
              processing_request d (the (numberValue (pd_jpegQuality d) 1 100)) (the (numberValue (pd_webpQuality d) 1 100))
                (the (numberValue (pd_pngCompressionLevel d) 0 9)) (the (numberValue (pd_conversionWebpQuality d) 1 100))]))"

definition processing_settled :: "js_error + app_settings \<Rightarrow> settings_page \<Rightarrow> settings_page \<times> effect list" where
  "processing_settled r p =
     (if \<not> sp_processing_pending p then (p, [])
      else case r of
          Inl _ \<Rightarrow> (p\<lparr>sp_processing_pending := False\<rparr>,
                    [toast_of Toast_Error ''settings.processingFailed'' ''settings-processing'' []])
        | Inr s \<Rightarrow> (p\<lparr>sp_processing_pending := False, sp_settings := Some s, processingDraft := Some (toProcessingDraft s)\<rparr>,
                    [Set_Query_Data [''settings''], toast_of Toast_Success ''toast.settingsSaved'' ''settings-processing'' []]))"

subsection \<open>Events\<close>

datatype draft_edit =
    Edit_Compression bool
  | Edit_Jpeg string
  | Edit_Webp string
  | Edit_Png string
  | Edit_Conversion bool
  | Edit_Conversion_Webp string
  | Edit_Lossless bool

fun edit_draft :: "draft_edit \<Rightarrow> processing_draft \<Rightarrow> processing_draft" where
  "edit_draft (Edit_Compression b) d = d\<lparr>pd_compressionEnabled := b\<rparr>"
| "edit_draft (Edit_Jpeg s) d = d\<lparr>pd_jpegQuality := s\<rparr>"
| "edit_draft (Edit_Webp s) d = d\<lparr>pd_webpQuality := s\<rparr>"
| "edit_draft (Edit_Png s) d = d\<lparr>pd_pngCompressionLevel := s\<rparr>"
| "edit_draft (Edit_Conversion b) d = d\<lparr>pd_conversionEnabled := b\<rparr>"
| "edit_draft (Edit_Conversion_Webp s) d = d\<lparr>pd_conversionWebpQuality := s\<rparr>"
| "edit_draft (Edit_Lossless b) d = d\<lparr>pd_conversionWebpLossless := b\<rparr>"

datatype settings_event =
    Settings_Data app_settings
  | Profile_Submit string string
  | Profile_Settled "js_error + json option"
  | Profile_Refreshed "js_error + admin_session option"
  | Default_Visibility visibility
  | Default_Visibility_Settled "js_error + app_settings"
  | Current_Password string
  | New_Password string
  | Password_Submit
  | Password_Settled "js_error + json option"
  | Edit_Draft draft_edit
  | Processing_Submit
  | Processing_Settled "js_error + app_settings"

fun settings_step :: "settings_page \<Rightarrow> settings_event \<Rightarrow> settings_page \<times> effect list" where
  "settings_step p (Settings_Data s) = (settings_data s p, [])"
| "settings_step p (Profile_Submit n m) = updateProfile n m p"
| "settings_step p (Profile_Settled r) = profile_settled r p"
| "settings_step p (Profile_Refreshed r) = profile_refreshed r p"
| "settings_step p (Default_Visibility v) = default_visibility_select v p"
| "settings_step p (Default_Visibility_Settled r) = default_visibility_settled r p"
| "settings_step p (Current_Password s) = (p\<lparr>currentPassword := s\<rparr>, [])"
| "settings_step p (New_Password s) = (p\<lparr>newPassword := s\<rparr>, [])"
| "settings_step p Password_Submit = changePassword p"
| "settings_step p (Password_Settled r) = password_settled r p"
| "settings_step p (Edit_Draft e) = (p\<lparr>processingDraft := map_option (edit_draft e) (processingDraft p)\<rparr>, [])"
| "settings_step p Processing_Submit = updateProcessing p"
| "settings_step p (Processing_Settled r) = processing_settled r p"

section \<open>Lemmas\<close>

lemma numberValue_range: "numberValue raw mn mx = Some v \<Longrightarrow> mn \<le> v \<and> v \<le> mx"
proof -
  assume "numberValue raw mn mx = Some v"
  then obtain n where n: "of_nat mn \<le> (of_int n :: rat)" "(of_int n :: rat) \<le> of_nat mx" "v = nat n"
    by (auto simp: numberValue_def split: if_splits jsnum.splits)
  then have "int mn \<le> n" "n \<le> int mx" by (metis of_int_le_iff of_int_of_nat_eq)+
  then show "mn \<le> v \<and> v \<le> mx" using n(3) by linarith
qed

lemma numberValue_decimal:
  assumes "mn \<le> n" "n \<le> mx" "mx \<le> 100"
  shows "numberValue (decimal n) mn mx = Some n"
proof -
  have "trim (decimal n) = decimal n"
    using decimal_digits [of n] by (intro trim_plain) (auto simp: list_all_iff is_digit_def)
  moreover have "js_Number (decimal n) = Fin (of_nat n)" using assms by (intro js_Number_decimal) simp
  ultimately show ?thesis using assms by (simp add: numberValue_def)
qed

text \<open>What the page asks the server, read from the body of a request.\<close>

definition number_in :: "(string \<times> json) list \<Rightarrow> string \<Rightarrow> nat \<Rightarrow> nat \<Rightarrow> bool" where
  "number_in fs k mn mx =
     (case map_of fs k of Some (JNum x) \<Rightarrow> of_int \<lfloor>x\<rfloor> = x \<and> of_nat mn \<le> x \<and> x \<le> of_nat mx | _ \<Rightarrow> False)"

definition text_with :: "(string \<times> json) list \<Rightarrow> string \<Rightarrow> (string \<Rightarrow> bool) \<Rightarrow> bool" where
  "text_with fs k P = (case map_of fs k of Some (JStr s) \<Rightarrow> P s | _ \<Rightarrow> False)"

definition settings_body_ok :: "string \<Rightarrow> (string \<times> json) list \<Rightarrow> bool" where
  "settings_body_ok path fs \<longleftrightarrow>
     (if path = ''/api/v1/auth/profile'' then
        text_with fs ''displayName'' (\<lambda>s. s \<noteq> [] \<and> trim s = s) \<and> text_with fs ''email'' (\<lambda>s. email_test s \<and> trim s = s)
      else if path = ''/api/v1/auth/password'' then
        text_with fs ''currentPassword'' (\<lambda>s. s \<noteq> []) \<and> text_with fs ''newPassword'' (\<lambda>s. 12 \<le> js_length s)
      else if path = ''/api/v1/settings/processing'' then
        number_in fs ''jpegQuality'' 1 100 \<and> number_in fs ''webpQuality'' 1 100 \<and>
        number_in fs ''pngCompressionLevel'' 0 9 \<and> number_in fs ''conversionWebpQuality'' 1 100
      else path = ''/api/v1/settings/default-visibility'')"

fun settings_request_ok :: "effect \<Rightarrow> bool" where
  "settings_request_ok (Request path i) =
     (case init_body i of Some (JObj fs) \<Rightarrow> settings_body_ok path fs | _ \<Rightarrow> False)"
| "settings_request_ok _ = True"

lemma settings_toast_ok [simp]: "settings_request_ok (toast_of k key i cs)"
  by (simp add: toast_of_def)

lemma profile_request_ok: "profile_errors n m = [] \<Longrightarrow> trim n = n \<Longrightarrow> trim m = m \<Longrightarrow> settings_request_ok (profile_request n m)"
  by (simp add: profile_errors_def profile_request_def json_init_def settings_body_ok_def text_with_def split: if_splits)

lemma password_request_ok: "password_errors c n = [] \<Longrightarrow> settings_request_ok (password_request c n)"
  by (simp add: password_errors_def password_request_def json_init_def settings_body_ok_def text_with_def split: if_splits)

lemma visibility_request_ok: "settings_request_ok (default_visibility_request v)"
  by (simp add: default_visibility_request_def json_init_def settings_body_ok_def)

lemma processing_request_ok:
  assumes "1 \<le> a" "a \<le> 100" "1 \<le> b" "b \<le> 100" "c \<le> 9" "1 \<le> e" "e \<le> 100"
  shows "settings_request_ok (processing_request d a b c e)"
  using assms by (simp add: processing_request_def json_init_def settings_body_ok_def number_in_def)

lemma updateProcessing_ok: "list_all settings_request_ok (snd (updateProcessing p))"
proof (cases "processingDraft p")
  case (Some d)
  have "settings_request_ok (processing_request d (the (numberValue (pd_jpegQuality d) 1 100))
      (the (numberValue (pd_webpQuality d) 1 100)) (the (numberValue (pd_pngCompressionLevel d) 0 9))
      (the (numberValue (pd_conversionWebpQuality d) 1 100)))" if "processing_errors d = []"
  proof -
    from that obtain a b c e where v: "numberValue (pd_jpegQuality d) 1 100 = Some a"
      "numberValue (pd_webpQuality d) 1 100 = Some b" "numberValue (pd_pngCompressionLevel d) 0 9 = Some c"
      "numberValue (pd_conversionWebpQuality d) 1 100 = Some e"
      by (auto simp: processing_errors_def processing_fields_def split: if_splits)
    note r = v [THEN numberValue_range]
    show ?thesis unfolding v option.sel by (rule processing_request_ok) (use r in auto)
  qed
  then show ?thesis using Some by (simp add: updateProcessing_def)
qed (simp add: updateProcessing_def)

interpretation settings: reactive_output settings_step "\<lambda>_. True" settings_request_ok
proof unfold_locales
  fix p e x
  have "list_all settings_request_ok (snd (settings_step p e))"
  proof (cases e)
    case (Profile_Submit n m)
    then show ?thesis using profile_request_ok [of "trim n" "trim m"] by (simp add: updateProfile_def Let_def)
  next
    case Password_Submit
    then show ?thesis using password_request_ok by (simp add: changePassword_def Let_def)
  next
    case Processing_Submit
    then show ?thesis using updateProcessing_ok by simp
  qed (simp_all add: settings_data_def profile_settled_def profile_refreshed_def profile_failed_def refresh_def
      default_visibility_select_def visibility_request_ok default_visibility_settled_def password_settled_def
      processing_settled_def split: sum.split)
  then show "x \<in> set (snd (settings_step p e)) \<Longrightarrow> settings_request_ok x" by (simp add: list_all_iff)
qed simp_all

section \<open>Properties\<close>

text \<open>
  C32: The settings page sends valid values only. Whatever is typed, a profile request has a name and
  an address of the right shape without surrounding white space, a password request a current password
  and a new one of at least twelve characters, and a processing request whole numbers in their ranges.
\<close>

theorem settings_requests_valid:
  "list_all settings_request_ok (snd (run_steps settings_step settings_init es))"
  using settings.run_ok by (auto simp: list_all_iff)

text \<open>
  Saving an untouched form changes nothing: the draft made from settings in their ranges is valid,
  and submitting it sends back exactly the values the server gave.
\<close>

theorem settings_draft_roundtrip:
  assumes "1 \<le> jpegQuality s" "jpegQuality s \<le> 100" "1 \<le> webpQuality s" "webpQuality s \<le> 100"
    "pngCompressionLevel s \<le> 9" "1 \<le> conversionWebpQuality s" "conversionWebpQuality s \<le> 100"
  shows "snd (run_steps settings_step settings_init [Settings_Data s, Processing_Submit]) =
    [toast_of Toast_Loading ''toast.settingsSaving'' ''settings-processing'' [],
     processing_request (toProcessingDraft s) (jpegQuality s) (webpQuality s) (pngCompressionLevel s) (conversionWebpQuality s)]"
proof -
  have v: "numberValue (decimal (jpegQuality s)) (Suc 0) 100 = Some (jpegQuality s)"
    "numberValue (decimal (webpQuality s)) (Suc 0) 100 = Some (webpQuality s)"
    "numberValue (decimal (pngCompressionLevel s)) 0 9 = Some (pngCompressionLevel s)"
    "numberValue (decimal (conversionWebpQuality s)) (Suc 0) 100 = Some (conversionWebpQuality s)"
    using assms by (simp_all add: numberValue_decimal)
  show ?thesis
    by (simp add: settings_data_def settings_init_def updateProcessing_def processing_errors_def processing_fields_def v)
      (simp add: toProcessingDraft_def v)
qed

lemma settings_draft_roundtrip_witness:
  "snd (run_steps settings_step settings_init
     [Settings_Data \<lparr>defaultVisibility = Public, compressionEnabled = True, jpegQuality = 85, webpQuality = 82,
        pngCompressionLevel = 6, conversionEnabled = False, conversionWebpQuality = 82, conversionWebpLossless = False\<rparr>,
      Processing_Submit]) =
    [toast_of Toast_Loading ''toast.settingsSaving'' ''settings-processing'' [],
     processing_request (toProcessingDraft \<lparr>defaultVisibility = Public, compressionEnabled = True, jpegQuality = 85,
        webpQuality = 82, pngCompressionLevel = 6, conversionEnabled = False, conversionWebpQuality = 82,
        conversionWebpLossless = False\<rparr>) 85 82 6 82]"
  using settings_draft_roundtrip [of "\<lparr>defaultVisibility = Public, compressionEnabled = True, jpegQuality = 85,
      webpQuality = 82, pngCompressionLevel = 6, conversionEnabled = False, conversionWebpQuality = 82,
      conversionWebpLossless = False\<rparr>"]
  by (simp del: run_steps_Cons)

lemma split_on_two: "split_on c s = [l, d] \<longleftrightarrow> s = l @ c # d \<and> c \<notin> set l \<and> c \<notin> set d"
proof
  assume sp: "split_on c s = [l, d]"
  then have "c \<in> set s" using split_on_absent [of c s] by auto
  then obtain a b where s: "s = a @ c # b" "c \<notin> set a" by (auto dest: split_list_first)
  then have "split_on c b = [d]" "a = l" using sp by (simp_all add: split_on_append_sep)
  moreover have "c \<notin> set b"
  proof
    assume "c \<in> set b"
    then obtain u v where b: "b = u @ c # v" "c \<notin> set u" by (auto dest: split_list_first)
    then have "split_on c b = u # split_on c v" by (simp add: split_on_append_sep)
    then show False using \<open>split_on c b = [d]\<close> by (metis list.inject split_on_nonempty)
  qed
  ultimately show "s = l @ c # d \<and> c \<notin> set l \<and> c \<notin> set d" using s split_on_absent [of c b] by simp
qed (simp add: split_on_append_sep split_on_absent)

lemma inner_dot:
  "list_ex (\<lambda>i. d ! i = c) [1..<length d - 1] \<longleftrightarrow> (\<exists>a b. d = a @ c # b \<and> a \<noteq> [] \<and> b \<noteq> [])"
proof
  assume "list_ex (\<lambda>i. d ! i = c) [1..<length d - 1]"
  then obtain i where i: "1 \<le> i" "i < length d - 1" "d ! i = c" by (auto simp: list_ex_iff)
  then have "d = take i d @ c # drop (Suc i) d" by (metis Suc_pred add_lessD1 id_take_nth_drop less_diff_conv)
  moreover have "take i d \<noteq> []" "drop (Suc i) d \<noteq> []" using i by auto
  ultimately show "\<exists>a b. d = a @ c # b \<and> a \<noteq> [] \<and> b \<noteq> []" by blast
next
  assume "\<exists>a b. d = a @ c # b \<and> a \<noteq> [] \<and> b \<noteq> []"
  then obtain a b where d: "d = a @ c # b" "a \<noteq> []" "b \<noteq> []" by blast
  from d(2,3) have "Suc 0 \<le> length a" "Suc 0 \<le> length b" by (simp_all add: Suc_le_eq)
  then have "length a \<in> set [1..<length d - 1]" using d(3) by (simp add: d(1))
  moreover have "d ! length a = c" using d by simp
  ultimately show "list_ex (\<lambda>i. d ! i = c) [1..<length d - 1]" unfolding list_ex_iff by blast
qed

lemma whitespace_free:
  "\<not> has_whitespace s \<longleftrightarrow> (\<forall>w \<in> set whitespace. \<forall>a b. s \<noteq> a @ w @ b)"
proof -
  have "has_whitespace s \<longleftrightarrow> (\<exists>k < length s. \<exists>w \<in> set whitespace. starts_with (drop k s) w)"
    by (auto simp: has_whitespace_def list_ex_iff leading_ws_None)
  also have "\<dots> \<longleftrightarrow> (\<exists>w \<in> set whitespace. \<exists>a b. s = a @ w @ b)"
  proof
    assume "\<exists>k < length s. \<exists>w \<in> set whitespace. starts_with (drop k s) w"
    then obtain k w t where "w \<in> set whitespace" "drop k s = w @ t" by (auto simp: starts_with_iff)
    then show "\<exists>w \<in> set whitespace. \<exists>a b. s = a @ w @ b" by (metis append_take_drop_id)
  next
    assume "\<exists>w \<in> set whitespace. \<exists>a b. s = a @ w @ b"
    then obtain w a b where w: "w \<in> set whitespace" "s = a @ w @ b" by blast
    then have "length a < length s" using whitespace_nonempty by auto
    moreover have "starts_with (drop (length a) s) w" using w(2) by (auto simp: starts_with_iff)
    ultimately show "\<exists>k < length s. \<exists>w \<in> set whitespace. starts_with (drop k s) w" using w(1) by blast
  qed
  finally show ?thesis by blast
qed

text \<open>
  The check of an address is the pattern of the source: some text, an \<open>@\<close>, some text, a dot and
  some text, without another \<open>@\<close> and without white space anywhere.
\<close>

theorem email_test_pattern:
  "email_test s \<longleftrightarrow>
     (\<exists>a b c. s = a @ ''@'' @ b @ ''.'' @ c \<and> a \<noteq> [] \<and> b \<noteq> [] \<and> c \<noteq> [] \<and> CHR ''@'' \<notin> set (a @ b @ c)) \<and>
     \<not> (\<exists>w \<in> set whitespace. \<exists>a b. s = a @ w @ b)"
proof -
  have "email_test s \<longleftrightarrow>
      (\<exists>l d. split_on CHR ''@'' s = [l, d] \<and> l \<noteq> [] \<and> list_ex (\<lambda>i. d ! i = CHR ''.'') [1..<length d - 1]) \<and> \<not> has_whitespace s"
    by (auto simp: email_test_def split: list.splits)
  also have "(\<exists>l d. split_on CHR ''@'' s = [l, d] \<and> l \<noteq> [] \<and> list_ex (\<lambda>i. d ! i = CHR ''.'') [1..<length d - 1]) \<longleftrightarrow>
      (\<exists>a b c. s = a @ ''@'' @ b @ ''.'' @ c \<and> a \<noteq> [] \<and> b \<noteq> [] \<and> c \<noteq> [] \<and> CHR ''@'' \<notin> set (a @ b @ c))"
    (is "?L \<longleftrightarrow> ?R")
  proof
    assume ?L
    then obtain l d a b where "s = l @ CHR ''@'' # d" "CHR ''@'' \<notin> set l" "CHR ''@'' \<notin> set d" "l \<noteq> []"
      "d = a @ CHR ''.'' # b" "a \<noteq> []" "b \<noteq> []"
      unfolding split_on_two inner_dot by blast
    then have "s = l @ ''@'' @ a @ ''.'' @ b \<and> l \<noteq> [] \<and> a \<noteq> [] \<and> b \<noteq> [] \<and> CHR ''@'' \<notin> set (l @ a @ b)" by simp
    then show ?R by blast
  next
    assume ?R
    then obtain a b c where p: "s = a @ ''@'' @ b @ ''.'' @ c" "a \<noteq> []" "b \<noteq> []" "c \<noteq> []" "CHR ''@'' \<notin> set (a @ b @ c)"
      by blast
    then have "split_on CHR ''@'' s = [a, b @ ''.'' @ c]" unfolding split_on_two by simp
    moreover have "list_ex (\<lambda>i. (b @ ''.'' @ c) ! i = CHR ''.'') [1..<length (b @ ''.'' @ c) - 1]"
      unfolding inner_dot using p(3,4) by (intro exI [of _ b] exI [of _ c]) simp
    ultimately show ?L using p(2) by blast
  qed
  finally show ?thesis by (simp add: whitespace_free)
qed

end
