(* ===== verification/Token_Page.thy ===== *)
theory Token_Page
  imports Filters Effects
begin

text \<open>
  The page of the API tokens, \<open>web/src/features/api-tokens/api-token-page.tsx\<close>: the form with its scopes
  and expiry, the secret shown once, and revocation.
\<close>

section \<open>The source\<close>

definition availableScopes :: "api_token_scope list" where
  "availableScopes = [Images_Upload, Images_Read_Private, Images_Delete, Aliases_Write]"

fun scopeDescriptionKeys :: "api_token_scope \<Rightarrow> string" where
  "scopeDescriptionKeys Images_Upload = ''upload''"
| "scopeDescriptionKeys Images_Read_Private = ''readPrivate''"
| "scopeDescriptionKeys Images_Delete = ''delete''"
| "scopeDescriptionKeys Aliases_Write = ''writeAlias''"

text \<open>A mutation that failed stays so until it is started again (\<open>isError\<close>).\<close>

datatype create_phase = Create_Idle | Create_Posting | Create_Invalidating

record token_page =
  tk_name :: string
  tk_scopes :: "api_token_scope list"
  tk_expiresDate :: string
  tk_expiresHour :: string
  tk_expiresMinute :: string
  tk_created :: "created_api_token option"
  tk_revokeTarget :: "(string \<times> string) option"
  tk_create :: create_phase
  tk_revoke :: create_phase
  tk_createFailed :: bool

definition token_init :: token_page where
  "token_init = \<lparr>tk_name = [], tk_scopes = [], tk_expiresDate = [], tk_expiresHour = ''23'', tk_expiresMinute = ''59'',
     tk_created = None, tk_revokeTarget = None, tk_create = Create_Idle, tk_revoke = Create_Idle, tk_createFailed = False\<rparr>"

text \<open>The integer a component of \<open>new Date\<close> stands for, \<open>None\<close> where it makes the date invalid.\<close>

definition date_component :: "string \<Rightarrow> int option" where
  "date_component s =
     (case js_Number s of Fin x \<Rightarrow> Some (if x < 0 then - \<lfloor>- x\<rfloor> else \<lfloor>x\<rfloor>) | _ \<Rightarrow> None)"

text \<open>\<open>None\<close> is the \<open>RangeError\<close> of an invalid date.\<close>

definition expirationISO :: "clock \<Rightarrow> string \<Rightarrow> string \<Rightarrow> string \<Rightarrow> string option" where
  "expirationISO c date hour minute =
     (case map date_component (split_on CHR ''-'' date) of
        Some y # Some m # Some d # _ \<Rightarrow>
          (case (date_component hour, date_component minute) of
             (Some h, Some mi) \<Rightarrow>
               Some (toISOString (to_utc c (new_date y (m - 1) d * day_ms + h * 3600000 + mi * 60000)))
           | _ \<Rightarrow> None)
      | _ \<Rightarrow> None)"

definition todayValue :: "int \<Rightarrow> string" where
  "todayValue today = toDateValue today"

definition hour_options :: "string list" where
  "hour_options = map (\<lambda>h. pad_start 2 CHR ''0'' (decimal h)) [0..<24]"

definition minute_options :: "string list" where
  "minute_options = [''00'', ''15'', ''30'', ''45'', ''59'']"

definition token_list_request :: effect where
  "token_list_request = Request ''/api/v1/api-tokens'' no_init"

definition token_create_request :: "string \<Rightarrow> api_token_scope list \<Rightarrow> string option \<Rightarrow> effect" where
  "token_create_request name scopes expires =
     Request ''/api/v1/api-tokens''
       (json_init ''POST''
         (JObj [(''name'', JStr name), (''scopes'', JArr (map (\<lambda>s. JStr (scope_text s)) scopes)),
           (''expiresAt'', case expires of None \<Rightarrow> JNull | Some e \<Rightarrow> JStr e)]))"

definition token_revoke_request :: "string \<Rightarrow> effect" where
  "token_revoke_request i = Request (''/api/v1/api-tokens/'' @ i) (method_init ''DELETE'')"

text \<open>The button is disabled without a name or a scope and while pending; an invalid expiry rejects the call.\<close>

definition token_submit :: "clock \<Rightarrow> token_page \<Rightarrow> token_page \<times> effect list" where
  "token_submit c p =
     (if trim (tk_name p) = [] \<or> length (tk_scopes p) = 0 \<or> tk_create p \<noteq> Create_Idle then (p, [])
      else if tk_expiresDate p = [] then
        (p\<lparr>tk_created := None, tk_create := Create_Posting, tk_createFailed := False\<rparr>, [token_create_request (tk_name p) (tk_scopes p) None])
      else
        case expirationISO c (tk_expiresDate p) (tk_expiresHour p) (tk_expiresMinute p) of
          None \<Rightarrow> (p\<lparr>tk_created := None, tk_createFailed := True\<rparr>, [plain_toast Toast_Error ''apiTokens.createFailed'' []])
        | Some e \<Rightarrow>
            (p\<lparr>tk_created := None, tk_create := Create_Posting, tk_createFailed := False\<rparr>, [token_create_request (tk_name p) (tk_scopes p) (Some e)]))"

definition token_created :: "js_error + created_api_token \<Rightarrow> token_page \<Rightarrow> token_page \<times> effect list" where
  "token_created r p =
     (if tk_create p \<noteq> Create_Posting then (p, [])
      else case r of
          Inl _ \<Rightarrow> (p\<lparr>tk_create := Create_Idle, tk_createFailed := True\<rparr>, [plain_toast Toast_Error ''apiTokens.createFailed'' []])
        | Inr t \<Rightarrow>
            (p\<lparr>tk_created := Some t, tk_name := [], tk_scopes := [], tk_expiresDate := [], tk_expiresHour := ''23'',
               tk_expiresMinute := ''59'', tk_create := Create_Invalidating\<rparr>,
             [Invalidate_Queries [''api-tokens'']]))"

definition token_create_invalidated :: "token_page \<Rightarrow> token_page \<times> effect list" where
  "token_create_invalidated p =
     (if tk_create p \<noteq> Create_Invalidating then (p, [])
      else (p\<lparr>tk_create := Create_Idle\<rparr>, [plain_toast Toast_Success ''toast.tokenCreated'' []]))"

definition toggleScope :: "api_token_scope \<Rightarrow> token_page \<Rightarrow> token_page" where
  "toggleScope s p =
     p\<lparr>tk_scopes := (if s \<in> set (tk_scopes p) then filter (\<lambda>x. x \<noteq> s) (tk_scopes p) else tk_scopes p @ [s])\<rparr>"

text \<open>The revocation: its button on an active token, its dialog, and the answer.\<close>

definition token_revoke_button :: "api_token \<Rightarrow> token_page \<Rightarrow> token_page" where
  "token_revoke_button t p =
     (if token_status t = ''active'' \<and> tk_revoke p = Create_Idle
      then p\<lparr>tk_revokeTarget := Some (token_id t, token_name t)\<rparr> else p)"

definition token_dialog :: "bool \<Rightarrow> token_page \<Rightarrow> token_page \<times> effect list" where
  "token_dialog confirmed p =
     (case tk_revokeTarget p of None \<Rightarrow> (p, [])
      | Some (i, _) \<Rightarrow>
          if tk_revoke p \<noteq> Create_Idle then (p, [])
          else if confirmed then (p\<lparr>tk_revoke := Create_Posting\<rparr>, [token_revoke_request i])
          else (p\<lparr>tk_revokeTarget := None\<rparr>, []))"

definition token_revoked :: "js_error + json option \<Rightarrow> token_page \<Rightarrow> token_page \<times> effect list" where
  "token_revoked r p =
     (if tk_revoke p \<noteq> Create_Posting then (p, [])
      else case r of
          Inl _ \<Rightarrow> (p\<lparr>tk_revoke := Create_Idle\<rparr>, [plain_toast Toast_Error ''toast.operationFailed'' []])
        | Inr _ \<Rightarrow>
            (p\<lparr>tk_revokeTarget := None, tk_revoke := Create_Invalidating\<rparr>,
             [plain_toast Toast_Success ''toast.tokenRevoked'' [], Invalidate_Queries [''api-tokens'']]))"

text \<open>The secret is copied from the answer that is shown.\<close>

definition token_copy :: "token_page \<Rightarrow> effect list" where
  "token_copy p = (case tk_created p of None \<Rightarrow> [] | Some t \<Rightarrow> [Write_Clipboard (token_secret t)])"

definition token_copied :: "bool \<Rightarrow> effect list" where
  "token_copied ok =
     [if ok then plain_toast Toast_Success ''toast.tokenCopied'' [] else plain_toast Toast_Error ''toast.copyFailed'' []]"

datatype token_field = Token_Name string | Token_Scope api_token_scope | Token_Date string | Token_Hour string | Token_Minute string

text \<open>The fields of the form; hour and minute are disabled without a date.\<close>

fun token_form :: "token_page \<Rightarrow> token_field \<Rightarrow> token_page" where
  "token_form p (Token_Name s) = p\<lparr>tk_name := s\<rparr>"
| "token_form p (Token_Scope s) = (if s \<in> set availableScopes then toggleScope s p else p)"
| "token_form p (Token_Date s) = p\<lparr>tk_expiresDate := s\<rparr>"
| "token_form p (Token_Hour s) = (if tk_expiresDate p = [] \<or> s \<notin> set hour_options then p else p\<lparr>tk_expiresHour := s\<rparr>)"
| "token_form p (Token_Minute s) = (if tk_expiresDate p = [] \<or> s \<notin> set minute_options then p else p\<lparr>tk_expiresMinute := s\<rparr>)"

datatype token_event =
    Token_Field token_field
  | Token_Submit
  | Token_Created "js_error + created_api_token"
  | Token_Create_Invalidated
  | Token_Revoke_Button api_token
  | Token_Dialog bool
  | Token_Revoked "js_error + json option"
  | Token_Revoke_Invalidated
  | Token_Copy
  | Token_Copied bool
  | Token_Load

fun token_step :: "clock \<Rightarrow> token_page \<Rightarrow> token_event \<Rightarrow> token_page \<times> effect list" where
  "token_step c p (Token_Field f) = (token_form p f, [])"
| "token_step c p Token_Submit = token_submit c p"
| "token_step c p (Token_Created r) = token_created r p"
| "token_step c p Token_Create_Invalidated = token_create_invalidated p"
| "token_step c p (Token_Revoke_Button t) = (token_revoke_button t p, [])"
| "token_step c p (Token_Dialog confirmed) = token_dialog confirmed p"
| "token_step c p (Token_Revoked r) = token_revoked r p"
| "token_step c p Token_Revoke_Invalidated =
     (if tk_revoke p = Create_Invalidating then p\<lparr>tk_revoke := Create_Idle\<rparr> else p, [])"
| "token_step c p Token_Copy = (p, token_copy p)"
| "token_step c p (Token_Copied ok) = (p, token_copied ok)"
| "token_step c p Token_Load = (p, [token_list_request])"

section \<open>Lemmas\<close>

lemma digits_nonneg_number: "list_all is_digit s \<Longrightarrow> s \<noteq> [] \<Longrightarrow> length s \<le> 4 \<Longrightarrow> date_component s = Some (int (digits_value s))"
proof -
  assume s: "list_all is_digit s" "s \<noteq> []" "length s \<le> 4"
  have "digits_value s < 10 ^ length s" by (rule digits_value_less [OF s(1)])
  also have "(10 :: nat) ^ length s \<le> 10 ^ 4" using s(3) by (intro power_increasing) simp_all
  finally have "digits_value s \<le> 2 ^ 53" by simp
  then have "js_Number s = Fin (of_nat (digits_value s))" using s by (simp add: js_Number_digits dbl_of_nat)
  then show ?thesis by (simp add: date_component_def)
qed

lemma split_date:
  assumes "match_date raw = Some (ys, ms, ds)"
  shows "split_on CHR ''-'' raw = [ys, ms, ds]"
proof -
  have p: "raw = ys @ ''-'' @ ms @ ''-'' @ ds" "list_all is_digit ys" "list_all is_digit ms" "list_all is_digit ds"
    using assms unfolding match_date_iff by auto
  have "CHR ''-'' \<notin> set x" if "list_all is_digit x" for x using that by (auto simp: list_all_iff is_digit_def)
  then show ?thesis using p by (simp add: split_on_append_sep split_on_absent)
qed

lemma two_digit_component:
  assumes "h < 100"
  shows "date_component (pad_start 2 CHR ''0'' (decimal h)) = Some (int h)"
proof -
  have "length (decimal h) \<le> 2" using length_decimal [of h 2] assms by simp
  then have l: "length (pad_start 2 CHR ''0'' (decimal h)) = 2" by (rule length_pad_start)
  have z: "CHR ''0'' = digit_char 0" by code_simp
  have d: "pad_start 2 CHR ''0'' (decimal h) = replicate (2 - length (decimal h)) (digit_char 0) @ decimal h"
    unfolding z by (simp add: pad_start_def)
  have "list_all is_digit (pad_start 2 CHR ''0'' (decimal h))"
    unfolding d using decimal_digits [of h] by (auto simp: list_all_iff is_digit_def digit_char_def)
  from digits_nonneg_number [OF this] l
  have "date_component (pad_start 2 CHR ''0'' (decimal h)) = Some (int (digits_value (pad_start 2 CHR ''0'' (decimal h))))"
    by fastforce
  then show ?thesis unfolding d digits_value_replicate0 by simp
qed



end
