(* ===== verification/Alias_Page.thy ===== *)
theory Alias_Page
  imports Effects Url
begin

text \<open>
  The page of the aliases, \<open>web/src/features/aliases/alias-page.tsx\<close>: an alias is created by importing a
  file with its path, looked up by its path, copied as a link of this server, and deleted.

  The upload of the import is that of \<open>uploadForm\<close> (theory \<open>Api_Client\<close>); its progress and its
  settled promise arrive as events.
\<close>

record selected_file =
  sf_name :: string
  sf_size :: nat

text \<open>The state and, of each mutation, whether it is pending and whether it failed when it last ended.\<close>

record alias_page =
  al_resolved :: "image_alias option"
  al_created :: "image_alias option"
  al_selectedFile :: "selected_file option"
  al_uploadProgress :: jsnum
  al_deleteTarget :: "image_alias option"
  al_creating :: bool
  al_resolving :: bool
  al_removing :: bool
  al_createFailed :: bool
  al_resolveFailed :: bool
  al_removeFailed :: bool

definition alias_init :: alias_page where
  "alias_init = \<lparr>al_resolved = None, al_created = None, al_selectedFile = None, al_uploadProgress = Fin 0,
     al_deleteTarget = None, al_creating = False, al_resolving = False, al_removing = False,
     al_createFailed = False, al_resolveFailed = False, al_removeFailed = False\<rparr>"

definition alias_page_request :: "string \<Rightarrow> effect" where
  "alias_page_request pageParam =
     Request (''/api/v1/aliases?limit=100'' @ (if pageParam \<noteq> [] then ''&cursor='' @ encodeURIComponent pageParam else [])) no_init"

definition alias_next_page :: "image_alias_list \<Rightarrow> string option" where
  "alias_next_page pg = (case alias_nextCursor pg of Some c \<Rightarrow> if c = [] then None else Some c | None \<Rightarrow> None)"

definition alias_list :: "image_alias_list list \<Rightarrow> image_alias list" where
  "alias_list pages = concat (map alias_items pages)"

text \<open>The form of an import; the file is named in it.\<close>

definition import_request :: "selected_file \<Rightarrow> string \<Rightarrow> effect" where
  "import_request f path = Upload_Form ''/api/v1/imports'' [(''file'', sf_name f), (''alias'', path)]"

definition createAlias :: "string \<Rightarrow> alias_page \<Rightarrow> alias_page \<times> effect list" where
  "createAlias path p =
     (if al_creating p \<or> al_selectedFile p = None then (p, [])
      else case al_selectedFile p of
          None \<Rightarrow> (p, [])
        | Some f \<Rightarrow>
            if sf_size f = 0 then (p\<lparr>al_created := None\<rparr>, [plain_toast Toast_Error ''aliases.createFailed'' []])
            else (p\<lparr>al_created := None, al_creating := True, al_createFailed := False, al_uploadProgress := Fin 0\<rparr>,
                  [toast_of Toast_Loading ''aliases.saving'' ''alias-create'' [], import_request f path]))"

definition alias_created :: "js_error + import_result \<Rightarrow> alias_page \<Rightarrow> alias_page \<times> effect list" where
  "alias_created r p =
     (if \<not> al_creating p then (p, [])
      else case r of
          Inl _ \<Rightarrow> (p\<lparr>al_creating := False, al_createFailed := True, al_uploadProgress := Fin 0\<rparr>,
                    [toast_of Toast_Error ''aliases.createFailed'' ''alias-create'' []])
        | Inr v \<Rightarrow>
            (p\<lparr>al_creating := False, al_created := Some (imp_alias v), al_uploadProgress := Fin 0, al_selectedFile := None\<rparr>,
             [Reset_Form, Invalidate_Queries [''aliases''], Invalidate_Queries [''images''], Invalidate_Queries [''overview''],
              toast_of Toast_Success ''toast.aliasCreated'' ''alias-create'' []]))"

definition resolve_request :: "string \<Rightarrow> effect" where
  "resolve_request path = Request (''/api/v1/aliases/resolve?path='' @ encodeURIComponent path) no_init"

definition resolveAlias :: "string \<Rightarrow> alias_page \<Rightarrow> alias_page \<times> effect list" where
  "resolveAlias path p =
     (if al_resolving p then (p, []) else (p\<lparr>al_resolved := None, al_resolving := True, al_resolveFailed := False\<rparr>, [resolve_request path]))"

definition alias_resolved :: "js_error + image_alias \<Rightarrow> alias_page \<Rightarrow> alias_page \<times> effect list" where
  "alias_resolved r p =
     (if \<not> al_resolving p then (p, [])
      else case r of
          Inl _ \<Rightarrow> (p\<lparr>al_resolving := False, al_resolveFailed := True\<rparr>, [plain_toast Toast_Error ''aliases.notFound'' []])
        | Inr a \<Rightarrow> (p\<lparr>al_resolving := False, al_resolved := Some a\<rparr>, []))"

definition alias_delete_request :: "string \<Rightarrow> effect" where
  "alias_delete_request i = Request (''/api/v1/aliases/'' @ i) (method_init ''DELETE'')"

definition alias_dialog :: "bool \<Rightarrow> alias_page \<Rightarrow> alias_page \<times> effect list" where
  "alias_dialog confirmed p =
     (case al_deleteTarget p of None \<Rightarrow> (p, [])
      | Some a \<Rightarrow>
          if al_removing p then (p, [])
          else if confirmed then (p\<lparr>al_removing := True, al_removeFailed := False\<rparr>, [alias_delete_request (alias_id a)])
          else (p\<lparr>al_deleteTarget := None\<rparr>, []))"

definition alias_removed :: "js_error + json option \<Rightarrow> alias_page \<Rightarrow> alias_page \<times> effect list" where
  "alias_removed r p =
     (if \<not> al_removing p then (p, [])
      else case r of
          Inl _ \<Rightarrow> (p\<lparr>al_removing := False, al_removeFailed := True\<rparr>, [plain_toast Toast_Error ''aliases.deleteFailed'' []])
        | Inr _ \<Rightarrow>
            (p\<lparr>al_removing := False, al_deleteTarget := None\<rparr>,
             [Invalidate_Queries [''aliases''], Invalidate_Queries [''overview''], plain_toast Toast_Success ''toast.aliasDeleted'' []]))"

text \<open>
  The buttons of a row. The link is the path of the alias on this server; a path that is not one of
  this server (\<open>None\<close>) is left to the browser and not modelled.
\<close>

datatype alias_button = Copy_Alias image_alias | Delete_Alias image_alias

definition alias_link :: "string \<Rightarrow> image_alias \<Rightarrow> string option" where
  "alias_link origin a = map_option url_href (parse_url origin (alias_path a))"

definition alias_row :: "string \<Rightarrow> alias_page \<Rightarrow> alias_button \<Rightarrow> alias_page \<times> effect list" where
  "alias_row origin p b =
     (case b of
        Copy_Alias a \<Rightarrow> (p, case alias_link origin a of None \<Rightarrow> [] | Some l \<Rightarrow> [Write_Clipboard l])
      | Delete_Alias a \<Rightarrow> (if al_removing p then p else p\<lparr>al_deleteTarget := Some a\<rparr>, []))"

definition alias_copied :: "bool \<Rightarrow> effect" where
  "alias_copied ok =
     (if ok then plain_toast Toast_Success ''toast.linkCopiedSimple'' [] else plain_toast Toast_Error ''toast.copyFailed'' [])"

datatype alias_event =
    Alias_File "selected_file option"
  | Alias_Create string
  | Alias_Progress jsnum
  | Alias_Created "js_error + import_result"
  | Alias_Resolve string
  | Alias_Resolved "js_error + image_alias"
  | Alias_Row alias_button
  | Alias_Copied bool
  | Alias_Dialog bool
  | Alias_Removed "js_error + json option"
  | Alias_Load_Page string

fun alias_step :: "string \<Rightarrow> alias_page \<Rightarrow> alias_event \<Rightarrow> alias_page \<times> effect list" where
  "alias_step origin p (Alias_File f) = (p\<lparr>al_selectedFile := f\<rparr>, [])"
| "alias_step origin p (Alias_Create path) = createAlias path p"
| "alias_step origin p (Alias_Progress v) = (if al_creating p then p\<lparr>al_uploadProgress := v\<rparr> else p, [])"
| "alias_step origin p (Alias_Created r) = alias_created r p"
| "alias_step origin p (Alias_Resolve path) = resolveAlias path p"
| "alias_step origin p (Alias_Resolved r) = alias_resolved r p"
| "alias_step origin p (Alias_Row b) = alias_row origin p b"
| "alias_step origin p (Alias_Copied ok) = (p, [alias_copied ok])"
| "alias_step origin p (Alias_Dialog confirmed) = alias_dialog confirmed p"
| "alias_step origin p (Alias_Removed r) = alias_removed r p"
| "alias_step origin p (Alias_Load_Page cursor) = (p, [alias_page_request cursor])"

end
