(* ===== verification/Detail_Page.thy ===== *)
theory Detail_Page
  imports Effects
begin

text \<open>
  The page of one image, \<open>web/src/features/images/image-detail-page.tsx\<close>: its mutations and dialogs, the
  way back to the list, and the check that a deletion which is answered late does not navigate
  somebody who has left meanwhile.

  The identifier of the image, the key and the state of the location are the router's. A page is in
  front while \<open>dp_currentEntry\<close> is the key of its location; a \<open>popstate\<close> or leaving the page clears it.
\<close>

record detail_location =
  dl_key :: string
  dl_fromImageList :: bool
  dl_returnTo :: "string option"

text \<open>
  A mutation waits for its request, then for the queries it refreshes. The handler of a deletion holds
  the location of the render that was the last one when the answer came.
\<close>

datatype detail_phase = Detail_Idle | Detail_Posting | Detail_Invalidating nat | Detail_Returning detail_location

record detail_page =
  dp_imageId :: string
  dp_location :: detail_location
  dp_currentEntry :: "string option"
  dp_deleteOpen :: bool
  dp_convertOpen :: bool
  dp_aliasPath :: string
  dp_visibility :: detail_phase
  dp_deletion :: detail_phase
  dp_conversion :: detail_phase
  dp_aliasCreation :: detail_phase

definition detail_init :: "string \<Rightarrow> detail_location \<Rightarrow> detail_page" where
  "detail_init i loc =
     \<lparr>dp_imageId = i, dp_location = loc, dp_currentEntry = Some (dl_key loc), dp_deleteOpen = False,
      dp_convertOpen = False, dp_aliasPath = [], dp_visibility = Detail_Idle, dp_deletion = Detail_Idle,
      dp_conversion = Detail_Idle, dp_aliasCreation = Detail_Idle\<rparr>"

definition detail_request :: "string \<Rightarrow> effect list" where
  "detail_request i = (if i \<noteq> [] then [Request (''/api/v1/images/'' @ i) no_init] else [])"

text \<open>The list to return to: the address remembered, or the library.\<close>

definition return_path :: "detail_location \<Rightarrow> string" where
  "return_path loc =
     (case dl_returnTo loc of None \<Rightarrow> ''/admin/images'' | Some s \<Rightarrow> if s = [] then ''/admin/images'' else s)"

definition returnToList :: "detail_page \<Rightarrow> effect list" where
  "returnToList p =
     (if dl_fromImageList (dp_location p) then [Navigate_Back] else [Navigate (return_path (dp_location p)) False])"

section \<open>Mutations\<close>

definition detail_visibility_request :: "string \<Rightarrow> visibility \<Rightarrow> effect" where
  "detail_visibility_request i v =
     Request (''/api/v1/images/'' @ i @ ''/visibility'')
       (json_init ''PATCH'' (JObj [(''visibility'', JStr (visibility_text v))]))"

definition detail_visibility_settled :: "visibility \<Rightarrow> js_error + json option \<Rightarrow> detail_page \<Rightarrow> detail_page \<times> effect list" where
  "detail_visibility_settled v r p =
     (if dp_visibility p \<noteq> Detail_Posting then (p, [])
      else (p\<lparr>dp_visibility := Detail_Idle\<rparr>,
        case r of Inl _ \<Rightarrow> [toast_of Toast_Error ''toast.operationFailed'' ''detail-visibility'' []]
        | Inr _ \<Rightarrow> [toast_of Toast_Success (if v = Public then ''toast.imagePublic'' else ''toast.imagePrivate'') ''detail-visibility'' [],
                   Invalidate_Queries [''image'', dp_imageId p], Invalidate_Queries [''images'']]))"

definition detail_delete_request :: "string \<Rightarrow> effect" where
  "detail_delete_request i = Request (''/api/v1/images/'' @ i) (method_init ''DELETE'')"

definition deletion_settled :: "js_error + delete_image_result \<Rightarrow> detail_page \<Rightarrow> detail_page \<times> effect list" where
  "deletion_settled r p =
     (if dp_deletion p \<noteq> Detail_Posting then (p, [])
      else case r of
          Inl _ \<Rightarrow> (p\<lparr>dp_deletion := Detail_Idle\<rparr>, [toast_of Toast_Error ''toast.operationFailed'' ''detail-delete'' []])
        | Inr d \<Rightarrow>
            (p\<lparr>dp_deletion := Detail_Returning (dp_location p)\<rparr>,
             [toast_of Toast_Success (if di_cleanupPending d then ''toast.imageDeletedCleanup'' else ''toast.imageDeleted'') ''detail-delete'' [],
              Invalidate_Queries [''images'']]))"

text \<open>After the lists are refreshed: nothing more happens to somebody who is elsewhere.\<close>

definition deletion_invalidated :: "detail_page \<Rightarrow> detail_page \<times> effect list" where
  "deletion_invalidated p =
     (case dp_deletion p of
        Detail_Returning loc \<Rightarrow>
          (p\<lparr>dp_deletion := Detail_Idle\<rparr>,
           Invalidate_Queries [''overview''] #
           (if dp_currentEntry p \<noteq> Some (dl_key loc) then []
            else if dl_fromImageList loc then [Navigate_Back]
            else [Navigate (return_path loc) True]))
      | _ \<Rightarrow> (p, []))"

definition conversion_request :: "string \<Rightarrow> effect" where
  "conversion_request i = Request (''/api/v1/images/'' @ i @ ''/convert-webp'') (method_init ''POST'')"

definition conversion_settled :: "js_error + webp_conversion_result \<Rightarrow> detail_page \<Rightarrow> detail_page \<times> effect list" where
  "conversion_settled r p =
     (if dp_conversion p \<noteq> Detail_Posting then (p, [])
      else case r of
          Inl _ \<Rightarrow> (p\<lparr>dp_conversion := Detail_Idle\<rparr>, [toast_of Toast_Error ''toast.webpFailed'' ''detail-conversion'' []])
        | Inr c \<Rightarrow>
            (p\<lparr>dp_conversion := Detail_Idle, dp_convertOpen := False\<rparr>,
             [toast_of Toast_Success (if wc_cleanupPending c then ''toast.webpConvertedCleanup'' else ''toast.webpConverted'') ''detail-conversion'' [],
              Invalidate_Queries [''image'', dp_imageId p], Invalidate_Queries [''images''], Invalidate_Queries [''overview'']]))"

definition alias_create_request :: "string \<Rightarrow> string \<Rightarrow> effect" where
  "alias_create_request i path =
     Request ''/api/v1/aliases''
       (json_init ''POST'' (JObj [(''path'', JStr path), (''imageId'', JStr i), (''source'', JStr ''admin'')]))"

definition detail_createAlias :: "detail_page \<Rightarrow> detail_page \<times> effect list" where
  "detail_createAlias p =
     (if trim (dp_aliasPath p) = [] \<or> dp_aliasCreation p \<noteq> Detail_Idle then (p, [])
      else (p\<lparr>dp_aliasCreation := Detail_Posting\<rparr>,
            [toast_of Toast_Loading ''images.aliasSaving'' ''detail-alias'' [],
             alias_create_request (dp_imageId p) (trim (dp_aliasPath p))]))"

definition alias_creation_settled :: "js_error + image_alias \<Rightarrow> detail_page \<Rightarrow> detail_page \<times> effect list" where
  "alias_creation_settled r p =
     (if dp_aliasCreation p \<noteq> Detail_Posting then (p, [])
      else case r of
          Inl _ \<Rightarrow> (p\<lparr>dp_aliasCreation := Detail_Idle\<rparr>, [toast_of Toast_Error ''images.aliasCreateFailed'' ''detail-alias'' []])
        | Inr _ \<Rightarrow> (p\<lparr>dp_aliasPath := [], dp_aliasCreation := Detail_Invalidating 0\<rparr>,
                    [Invalidate_Queries [''image'', dp_imageId p]]))"

definition alias_creation_invalidated :: "detail_page \<Rightarrow> detail_page \<times> effect list" where
  "alias_creation_invalidated p =
     (if dp_aliasCreation p = Detail_Invalidating 0
        then (p\<lparr>dp_aliasCreation := Detail_Invalidating 1\<rparr>, [Invalidate_Queries [''aliases'']])
      else if dp_aliasCreation p = Detail_Invalidating 1
        then (p\<lparr>dp_aliasCreation := Detail_Idle\<rparr>, [toast_of Toast_Success ''toast.aliasCreated'' ''detail-alias'' []])
      else (p, []))"

section \<open>Events\<close>

definition canConvert :: "image \<Rightarrow> bool" where
  "canConvert im \<longleftrightarrow> mimeType im = ''image/jpeg'' \<or> mimeType im = ''image/png''"

text \<open>
  The history moved, the page was left, or the router shows it at another location, perhaps for
  another image; a new image is shown from its top.
\<close>

datatype entry_event = Popstate | Unmounted | New_Location string detail_location

definition detail_scroll :: "string option \<Rightarrow> string \<Rightarrow> effect list" where
  "detail_scroll before i = (if before = Some i then [] else [Scroll_To (Fin 0)])"

fun entry_step :: "detail_page \<Rightarrow> entry_event \<Rightarrow> detail_page \<times> effect list" where
  "entry_step p Popstate = (p\<lparr>dp_currentEntry := None\<rparr>, [])"
| "entry_step p Unmounted = (p\<lparr>dp_currentEntry := None\<rparr>, [])"
| "entry_step p (New_Location i loc) =
     (p\<lparr>dp_imageId := i, dp_location := loc,
        dp_currentEntry := (if dl_key loc = dl_key (dp_location p) then dp_currentEntry p else Some (dl_key loc))\<rparr>,
      detail_scroll (Some (dp_imageId p)) i)"

text \<open>The dialogs: the buttons that open them and what they report, unless their mutation is pending.\<close>

datatype detail_button = Convert_Button image | Delete_Image_Button | Delete_Dialog bool | Convert_Dialog bool

fun detail_dialogs :: "detail_page \<Rightarrow> detail_button \<Rightarrow> detail_page \<times> effect list" where
  "detail_dialogs p (Convert_Button im) =
     (if canConvert im \<and> dp_conversion p = Detail_Idle then p\<lparr>dp_convertOpen := True\<rparr> else p, [])"
| "detail_dialogs p Delete_Image_Button =
     (if dp_deletion p = Detail_Idle then p\<lparr>dp_deleteOpen := True\<rparr> else p, [])"
| "detail_dialogs p (Delete_Dialog confirmed) =
     (if \<not> dp_deleteOpen p \<or> dp_deletion p \<noteq> Detail_Idle then (p, [])
      else if confirmed
        then (p\<lparr>dp_deletion := Detail_Posting\<rparr>,
              [toast_of Toast_Loading ''common.working'' ''detail-delete'' [], detail_delete_request (dp_imageId p)])
      else (p\<lparr>dp_deleteOpen := False\<rparr>, []))"
| "detail_dialogs p (Convert_Dialog confirmed) =
     (if \<not> dp_convertOpen p \<or> dp_conversion p \<noteq> Detail_Idle then (p, [])
      else if confirmed
        then (p\<lparr>dp_conversion := Detail_Posting\<rparr>,
              [toast_of Toast_Loading ''common.working'' ''detail-conversion'' [], conversion_request (dp_imageId p)])
      else (p\<lparr>dp_convertOpen := False\<rparr>, []))"

definition detail_visibility_button :: "visibility \<Rightarrow> detail_page \<Rightarrow> detail_page \<times> effect list" where
  "detail_visibility_button current p =
     (if dp_visibility p \<noteq> Detail_Idle then (p, [])
      else (p\<lparr>dp_visibility := Detail_Posting\<rparr>,
            [toast_of Toast_Loading ''common.working'' ''detail-visibility'' [],
             detail_visibility_request (dp_imageId p) (if current = Public then Private else Public)]))"

datatype detail_event =
    Entry entry_event
  | Back_Button
  | Detail_Button detail_button
  | Visibility_Button visibility
  | Detail_Visibility_Settled visibility "js_error + json option"
  | Deletion_Settled "js_error + delete_image_result"
  | Deletion_Invalidated
  | Conversion_Settled "js_error + webp_conversion_result"
  | Alias_Path_Input string
  | Alias_Submit
  | Alias_Creation_Settled "js_error + image_alias"
  | Alias_Creation_Invalidated
  | Load_Detail

fun detail_step :: "detail_page \<Rightarrow> detail_event \<Rightarrow> detail_page \<times> effect list" where
  "detail_step p (Entry e) = entry_step p e"
| "detail_step p Back_Button = (p, returnToList p)"
| "detail_step p (Detail_Button b) = detail_dialogs p b"
| "detail_step p (Visibility_Button v) = detail_visibility_button v p"
| "detail_step p (Detail_Visibility_Settled v r) = detail_visibility_settled v r p"
| "detail_step p (Deletion_Settled r) = deletion_settled r p"
| "detail_step p Deletion_Invalidated = deletion_invalidated p"
| "detail_step p (Conversion_Settled r) = conversion_settled r p"
| "detail_step p (Alias_Path_Input s) = (p\<lparr>dp_aliasPath := s\<rparr>, [])"
| "detail_step p Alias_Submit = detail_createAlias p"
| "detail_step p (Alias_Creation_Settled r) = alias_creation_settled r p"
| "detail_step p Alias_Creation_Invalidated = alias_creation_invalidated p"
| "detail_step p Load_Detail = (p, detail_request (dp_imageId p))"

section \<open>Properties\<close>

text \<open>An effect that moves the user to another location.\<close>

fun navigates :: "effect \<Rightarrow> bool" where
  "navigates (Navigate _ _) = True"
| "navigates Navigate_Back = True"
| "navigates _ = False"

text \<open>
  Events of somebody who has left the location with key \<open>k\<close>: anything but a return to it, the back
  button of the page and the answer to another deletion.
\<close>

fun elsewhere_event :: "string \<Rightarrow> detail_event \<Rightarrow> bool" where
  "elsewhere_event k (Entry (New_Location _ loc)) = (dl_key loc \<noteq> k)"
| "elsewhere_event k Back_Button = False"
| "elsewhere_event k (Deletion_Settled _) = False"
| "elsewhere_event k _ = True"

definition gone :: "string \<Rightarrow> detail_page \<Rightarrow> bool" where
  "gone k p \<longleftrightarrow> dp_currentEntry p \<noteq> Some k \<and> (case dp_deletion p of Detail_Returning loc \<Rightarrow> dl_key loc = k | _ \<Rightarrow> True)"

lemma toast_stays [simp]: "\<not> navigates (toast_of k key i cs)"
  by (simp add: toast_of_def)

lemma gone_step:
  assumes "gone k p" "elsewhere_event k e"
  shows "gone k (fst (detail_step p e)) \<and> list_all (\<lambda>x. \<not> navigates x) (snd (detail_step p e))"
proof (cases e)
  case (Entry x)
  then show ?thesis using assms by (cases x) (simp_all add: gone_def detail_scroll_def)
next
  case (Detail_Button b)
  then show ?thesis using assms by (cases b) (simp_all add: gone_def detail_delete_request_def conversion_request_def)
next
  case Deletion_Invalidated
  then show ?thesis using assms by (auto simp: gone_def deletion_invalidated_def split: detail_phase.splits)
qed (use assms in \<open>simp_all add: gone_def detail_visibility_button_def detail_visibility_request_def detail_visibility_settled_def
    conversion_settled_def detail_createAlias_def alias_create_request_def
    alias_creation_settled_def alias_creation_invalidated_def detail_request_def split: sum.split\<close>)

text \<open>
  The handler of a mutation is that of the last render, so the check does not hold for a deletion that
  is still unanswered when the page is shown for another image: its answer moves the user from there.
\<close>

lemma late_answer_moves_other_image:
  assumes "dp_deletion p = Detail_Posting" "dl_key other \<noteq> dl_key (dp_location p)"
  shows "filter navigates (snd (run_steps detail_step p
      [Entry (New_Location i other), Deletion_Settled (Inr d), Deletion_Invalidated])) =
    (if dl_fromImageList other then [Navigate_Back] else [Navigate (return_path other) True])"
  using assms by (simp add: deletion_settled_def deletion_invalidated_def detail_scroll_def)



end
