(* ===== verification/System_Page.thy ===== *)
theory System_Page
  imports Effects
begin

text \<open>
  The maintenance of the server, \<open>web/src/features/system/system-overview-panel.tsx\<close>: the inspection and
  the rebuild of the indexes behind its confirmation. What the overview shows is in theory \<open>Admin_View\<close>.
\<close>

datatype maintenance_phase = Maintenance_Idle | Maintenance_Posting | Maintenance_Invalidating

record system_page =
  sy_rebuildOpen :: bool
  sy_inspection :: maintenance_phase
  sy_rebuild :: maintenance_phase

definition system_init :: system_page where
  "system_init = \<lparr>sy_rebuildOpen = False, sy_inspection = Maintenance_Idle, sy_rebuild = Maintenance_Idle\<rparr>"

definition overview_request :: effect where
  "overview_request = Request ''/api/v1/overview'' no_init"

definition inspect_request :: effect where
  "inspect_request = Request ''/api/v1/maintenance/inspect'' (method_init ''POST'')"

definition rebuild_request :: effect where
  "rebuild_request = Request ''/api/v1/maintenance/rebuild'' (method_init ''POST'')"

definition inspection_start :: "system_page \<Rightarrow> system_page \<times> effect list" where
  "inspection_start p =
     (if sy_inspection p \<noteq> Maintenance_Idle then (p, [])
      else (p\<lparr>sy_inspection := Maintenance_Posting\<rparr>,
            [toast_of Toast_Loading ''toast.inspectionRunning'' ''system-inspection'' [], inspect_request]))"

definition inspection_settled :: "js_error + json option \<Rightarrow> system_page \<Rightarrow> system_page \<times> effect list" where
  "inspection_settled r p =
     (if sy_inspection p \<noteq> Maintenance_Posting then (p, [])
      else case r of
          Inl _ \<Rightarrow> (p\<lparr>sy_inspection := Maintenance_Idle\<rparr>,
                    [toast_of Toast_Error ''settings.maintenanceFailed'' ''system-inspection'' []])
        | Inr _ \<Rightarrow> (p\<lparr>sy_inspection := Maintenance_Invalidating\<rparr>,
                    [toast_of Toast_Success ''toast.inspectionComplete'' ''system-inspection'' [], Invalidate_Queries [''overview'']]))"

definition rebuild_dialog :: "bool \<Rightarrow> system_page \<Rightarrow> system_page \<times> effect list" where
  "rebuild_dialog confirmed p =
     (if \<not> sy_rebuildOpen p \<or> sy_rebuild p \<noteq> Maintenance_Idle then (p, [])
      else if confirmed
        then (p\<lparr>sy_rebuild := Maintenance_Posting\<rparr>,
              [toast_of Toast_Loading ''toast.rebuildRunning'' ''system-rebuild'' [], rebuild_request])
      else (p\<lparr>sy_rebuildOpen := False\<rparr>, []))"

definition rebuild_settled :: "js_error + json option \<Rightarrow> system_page \<Rightarrow> system_page \<times> effect list" where
  "rebuild_settled r p =
     (if sy_rebuild p \<noteq> Maintenance_Posting then (p, [])
      else case r of
          Inl _ \<Rightarrow> (p\<lparr>sy_rebuild := Maintenance_Idle\<rparr>,
                    [toast_of Toast_Error ''settings.maintenanceFailed'' ''system-rebuild'' []])
        | Inr _ \<Rightarrow> (p\<lparr>sy_rebuild := Maintenance_Invalidating, sy_rebuildOpen := False\<rparr>,
                    [toast_of Toast_Success ''toast.rebuildComplete'' ''system-rebuild'' [], Invalidate_Queries [''overview'']]))"

datatype system_event =
    Inspect_Button
  | Inspection_Settled "js_error + json option"
  | Inspection_Invalidated
  | Rebuild_Button
  | Rebuild_Dialog bool
  | Rebuild_Settled "js_error + json option"
  | Rebuild_Invalidated
  | Load_Overview

fun system_step :: "system_page \<Rightarrow> system_event \<Rightarrow> system_page \<times> effect list" where
  "system_step p Inspect_Button = inspection_start p"
| "system_step p (Inspection_Settled r) = inspection_settled r p"
| "system_step p Inspection_Invalidated =
     (if sy_inspection p = Maintenance_Invalidating then p\<lparr>sy_inspection := Maintenance_Idle\<rparr> else p, [])"
| "system_step p Rebuild_Button = (if sy_rebuild p = Maintenance_Idle then p\<lparr>sy_rebuildOpen := True\<rparr> else p, [])"
| "system_step p (Rebuild_Dialog confirmed) = rebuild_dialog confirmed p"
| "system_step p (Rebuild_Settled r) = rebuild_settled r p"
| "system_step p Rebuild_Invalidated =
     (if sy_rebuild p = Maintenance_Invalidating then p\<lparr>sy_rebuild := Maintenance_Idle\<rparr> else p, [])"
| "system_step p Load_Overview = (p, [overview_request])"

end
