(* ===== verification/Api_Operations.thy ===== *)
theory Api_Operations
  imports Effects
begin

text \<open>
  The operations of the server, after the \<open>operations\<close> of \<open>web/src/generated/openapi.d.ts\<close>: method and
  path, parameters of the query, whether the CSRF header is asked for, and the type of the body. A
  request of the interface conforms when an operation takes its method and path, its query has only
  parameters of the operation and all required ones, and its body has the operation's type.
\<close>

section \<open>Types of bodies\<close>

datatype json_type = J_String | J_Bool | J_Number | J_Enum "string list" | J_Array json_type | J_Nullable json_type

primrec json_has_type :: "json_type \<Rightarrow> json \<Rightarrow> bool" where
  "json_has_type J_String v = (case v of JStr _ \<Rightarrow> True | _ \<Rightarrow> False)"
| "json_has_type J_Bool v = (case v of JBool _ \<Rightarrow> True | _ \<Rightarrow> False)"
| "json_has_type J_Number v = (case v of JNum _ \<Rightarrow> True | _ \<Rightarrow> False)"
| "json_has_type (J_Enum ss) v = (case v of JStr s \<Rightarrow> s \<in> set ss | _ \<Rightarrow> False)"
| "json_has_type (J_Array t) v = (case v of JArr xs \<Rightarrow> list_all (json_has_type t) xs | _ \<Rightarrow> False)"
| "json_has_type (J_Nullable t) v = (v = JNull \<or> json_has_type t v)"

text \<open>The properties of an object: name, whether it must be there, type.\<close>

type_synonym object_schema = "(string \<times> bool \<times> json_type) list"

definition object_conforms :: "object_schema \<Rightarrow> json \<Rightarrow> bool" where
  "object_conforms S v =
     (case v of
        JObj fs \<Rightarrow>
          distinct (map fst fs) \<and>
          list_all (\<lambda>(k, x). case map_of S k of None \<Rightarrow> False | Some (_, t) \<Rightarrow> json_has_type t x) fs \<and>
          list_all (\<lambda>(k, required, _). \<not> required \<or> k \<in> set (map fst fs)) S
      | _ \<Rightarrow> False)"

definition visibility_type :: json_type where
  "visibility_type = J_Enum [''public'', ''private'']"

definition scope_type :: json_type where
  "scope_type = J_Enum [''images:upload'', ''images:read_private'', ''images:delete'', ''aliases:write'']"

definition login_request_schema :: object_schema where
  "login_request_schema = [(''email'', True, J_String), (''password'', True, J_String)]"

definition processing_schema :: object_schema where
  "processing_schema =
    [(''compressionEnabled'', True, J_Bool), (''jpegQuality'', True, J_Number), (''webpQuality'', True, J_Number),
     (''pngCompressionLevel'', True, J_Number), (''conversionEnabled'', True, J_Bool),
     (''conversionWebpQuality'', True, J_Number), (''conversionWebpLossless'', True, J_Bool)]"

definition setup_request_schema :: object_schema where
  "setup_request_schema =
    [(''bootstrapToken'', True, J_String), (''displayName'', True, J_String), (''email'', True, J_String),
     (''password'', True, J_String), (''defaultVisibility'', True, visibility_type),
     (''compressionEnabled'', True, J_Bool), (''jpegQuality'', True, J_Number), (''webpQuality'', True, J_Number),
     (''pngCompressionLevel'', True, J_Number), (''conversionEnabled'', True, J_Bool),
     (''conversionWebpQuality'', True, J_Number), (''conversionWebpLossless'', True, J_Bool)]"

definition change_password_schema :: object_schema where
  "change_password_schema = [(''currentPassword'', True, J_String), (''newPassword'', True, J_String)]"

definition update_profile_schema :: object_schema where
  "update_profile_schema = [(''displayName'', True, J_String), (''email'', True, J_String)]"

definition batch_migration_schema :: object_schema where
  "batch_migration_schema = [(''paths'', True, J_Array J_String)]"

definition batch_image_schema :: object_schema where
  "batch_image_schema = [(''imageIds'', True, J_Array J_String)]"

definition batch_visibility_schema :: object_schema where
  "batch_visibility_schema = batch_image_schema @ [(''visibility'', True, visibility_type)]"

definition update_visibility_schema :: object_schema where
  "update_visibility_schema = [(''visibility'', True, visibility_type)]"

definition create_token_schema :: object_schema where
  "create_token_schema =
    [(''name'', True, J_String), (''scopes'', True, J_Array scope_type), (''expiresAt'', False, J_Nullable J_String)]"

definition default_visibility_schema :: object_schema where
  "default_visibility_schema = [(''defaultVisibility'', True, visibility_type)]"

definition create_alias_schema :: object_schema where
  "create_alias_schema = [(''path'', True, J_String), (''imageId'', True, J_String), (''source'', True, J_String)]"

text \<open>A form is a body of texts; the content of a file is not modelled, only its name.\<close>

definition upload_form_schema :: object_schema where
  "upload_form_schema = [(''file'', True, J_String), (''visibility'', False, visibility_type)]"

definition import_form_schema :: object_schema where
  "import_form_schema = [(''file'', True, J_String), (''alias'', True, J_String), (''visibility'', False, visibility_type)]"

section \<open>The table\<close>

datatype csrf_token = No_Token | Session_Token | Required_Token

datatype request_body = No_Body | Json_Body object_schema | Form_Body object_schema

datatype operation =
  Operation (op_name: string) (op_method: string) (op_path: "segment list") (op_query: "(string \<times> bool) list")
    (op_token: csrf_token) (op_body: request_body)

definition migration_query :: "(string \<times> bool) list" where
  "migration_query =
    [(''limit'', False), (''cursor'', False), (''q'', False), (''format'', False), (''minBytes'', False), (''maxBytes'', False)]"

definition image_query :: "(string \<times> bool) list" where
  "image_query =
    [(''limit'', False), (''cursor'', False), (''q'', False), (''visibility'', False), (''format'', False),
     (''uploadedVia'', False), (''createdFrom'', False), (''createdTo'', False), (''minBytes'', False),
     (''maxBytes'', False), (''minWidth'', False), (''maxWidth'', False), (''minHeight'', False), (''maxHeight'', False)]"

definition alias_query :: "(string \<times> bool) list" where
  "alias_query = [(''limit'', False), (''cursor'', False)]"

definition resolve_query :: "(string \<times> bool) list" where
  "resolve_query = [(''path'', True)]"

definition operations_auth :: "operation list" where
  "operations_auth =
    [Operation ''getLiveness'' ''GET'' [Fixed ''healthz''] [] No_Token No_Body,
     Operation ''getReadiness'' ''GET'' [Fixed ''readyz''] [] No_Token No_Body,
     Operation ''getSetupStatus'' ''GET'' (v1 [Fixed ''setup'', Fixed ''status'']) [] No_Token No_Body,
     Operation ''initializeImageSilo'' ''POST'' (v1 [Fixed ''setup'']) [] No_Token (Json_Body setup_request_schema),
     Operation ''login'' ''POST'' (v1 [Fixed ''auth'', Fixed ''login'']) [] No_Token (Json_Body login_request_schema),
     Operation ''getCurrentSession'' ''GET'' (v1 [Fixed ''auth'', Fixed ''session'']) [] No_Token No_Body,
     Operation ''logout'' ''POST'' (v1 [Fixed ''auth'', Fixed ''logout'']) [] Required_Token No_Body,
     Operation ''changePassword'' ''POST'' (v1 [Fixed ''auth'', Fixed ''password'']) [] Required_Token (Json_Body change_password_schema),
     Operation ''updateAdministratorProfile'' ''PATCH'' (v1 [Fixed ''auth'', Fixed ''profile'']) [] Required_Token (Json_Body update_profile_schema)]"

definition operations_images :: "operation list" where
  "operations_images =
    [Operation ''listMigrationImages'' ''GET'' (v1 [Fixed ''migration-images'']) migration_query No_Token No_Body,
     Operation ''batchDeleteMigrationImages'' ''POST'' (v1 [Fixed ''migration-images'', Fixed ''batch-delete'']) [] Required_Token (Json_Body batch_migration_schema),
     Operation ''refreshMigrationImages'' ''POST'' (v1 [Fixed ''migration-images'', Fixed ''refresh'']) [] Required_Token No_Body,
     Operation ''listImages'' ''GET'' (v1 [Fixed ''images'']) image_query No_Token No_Body,
     Operation ''uploadImage'' ''POST'' (v1 [Fixed ''images'']) [] Session_Token (Form_Body upload_form_schema),
     Operation ''batchDeleteImages'' ''POST'' (v1 [Fixed ''images'', Fixed ''batch-delete'']) [] Session_Token (Json_Body batch_image_schema),
     Operation ''batchUpdateImageVisibility'' ''PATCH'' (v1 [Fixed ''images'', Fixed ''batch-visibility'']) [] Required_Token (Json_Body batch_visibility_schema),
     Operation ''getImageDetail'' ''GET'' (v1 [Fixed ''images'', Param]) [] No_Token No_Body,
     Operation ''deleteImage'' ''DELETE'' (v1 [Fixed ''images'', Param]) [] Session_Token No_Body,
     Operation ''updateImageVisibility'' ''PATCH'' (v1 [Fixed ''images'', Param, Fixed ''visibility'']) [] Required_Token (Json_Body update_visibility_schema),
     Operation ''convertImageToWebP'' ''POST'' (v1 [Fixed ''images'', Param, Fixed ''convert-webp'']) [] Required_Token No_Body,
     Operation ''getImageThumbnail'' ''GET'' (v1 [Fixed ''images'', Param, Fixed ''thumbnail'']) [] No_Token No_Body,
     Operation ''deliverImage'' ''GET'' [Fixed ''image'', Param] [] No_Token No_Body]"

definition operations_admin :: "operation list" where
  "operations_admin =
    [Operation ''listApiTokens'' ''GET'' (v1 [Fixed ''api-tokens'']) [] No_Token No_Body,
     Operation ''createApiToken'' ''POST'' (v1 [Fixed ''api-tokens'']) [] Required_Token (Json_Body create_token_schema),
     Operation ''revokeApiToken'' ''DELETE'' (v1 [Fixed ''api-tokens'', Param]) [] Required_Token No_Body,
     Operation ''getSettings'' ''GET'' (v1 [Fixed ''settings'']) [] No_Token No_Body,
     Operation ''updateDefaultVisibility'' ''PATCH'' (v1 [Fixed ''settings'', Fixed ''default-visibility'']) [] Required_Token (Json_Body default_visibility_schema),
     Operation ''updateProcessingSettings'' ''PATCH'' (v1 [Fixed ''settings'', Fixed ''processing'']) [] Required_Token (Json_Body processing_schema),
     Operation ''getSystemInfo'' ''GET'' (v1 [Fixed ''system'']) [] No_Token No_Body,
     Operation ''getSystemOverview'' ''GET'' (v1 [Fixed ''overview'']) [] No_Token No_Body,
     Operation ''rebuildIndexes'' ''POST'' (v1 [Fixed ''maintenance'', Fixed ''rebuild'']) [] Required_Token No_Body,
     Operation ''inspectConsistency'' ''POST'' (v1 [Fixed ''maintenance'', Fixed ''inspect'']) [] Required_Token No_Body,
     Operation ''importImage'' ''POST'' (v1 [Fixed ''imports'']) [] Session_Token (Form_Body import_form_schema),
     Operation ''listAliases'' ''GET'' (v1 [Fixed ''aliases'']) alias_query No_Token No_Body,
     Operation ''createAlias'' ''POST'' (v1 [Fixed ''aliases'']) [] Session_Token (Json_Body create_alias_schema),
     Operation ''resolveAlias'' ''GET'' (v1 [Fixed ''aliases'', Fixed ''resolve'']) resolve_query No_Token No_Body,
     Operation ''deleteAlias'' ''DELETE'' (v1 [Fixed ''aliases'', Param]) [] Session_Token No_Body]"

definition operations :: "operation list" where
  "operations = operations_auth @ operations_images @ operations_admin"

section \<open>Requests that conform\<close>

text \<open>The parameters in the query of a request's path.\<close>

definition request_query :: "string \<Rightarrow> params" where
  "request_query p = params_parse (tl (dropWhile (\<lambda>c. c \<noteq> CHR ''?'') p))"

definition query_conforms :: "(string \<times> bool) list \<Rightarrow> params \<Rightarrow> bool" where
  "query_conforms qs ps \<longleftrightarrow>
     list_all (\<lambda>(k, _). k \<in> set (map fst qs)) ps \<and>
     list_all (\<lambda>(k, required). \<not> required \<or> k \<in> set (map fst ps)) qs"

text \<open>A body of JSON is announced as such and nothing else is announced: the CSRF header is left to the client.\<close>

definition init_conforms :: "request_body \<Rightarrow> api_init \<Rightarrow> bool" where
  "init_conforms b i =
     (case b of
        No_Body \<Rightarrow> init_body i = None \<and> init_headers i = []
      | Json_Body S \<Rightarrow>
          init_headers i = [(''Content-Type'', ''application/json'')] \<and>
          (case init_body i of None \<Rightarrow> False | Some v \<Rightarrow> object_conforms S v)
      | Form_Body _ \<Rightarrow> False)"

definition form_conforms :: "request_body \<Rightarrow> (string \<times> string) list \<Rightarrow> bool" where
  "form_conforms b form =
     (case b of Form_Body S \<Rightarrow> object_conforms S (JObj (map (\<lambda>(k, v). (k, JStr v)) form)) | _ \<Rightarrow> False)"

definition takes_request :: "string \<Rightarrow> api_init \<Rightarrow> operation \<Rightarrow> bool" where
  "takes_request p i op \<longleftrightarrow>
     op_method op = request_method i \<and> segments_match (op_path op) (request_segments p) \<and>
     query_conforms (op_query op) (request_query p) \<and> init_conforms (op_body op) i"

definition takes_form :: "string \<Rightarrow> (string \<times> string) list \<Rightarrow> operation \<Rightarrow> bool" where
  "takes_form p form op \<longleftrightarrow>
     op_method op = ''POST'' \<and> segments_match (op_path op) (request_segments p) \<and>
     query_conforms (op_query op) (request_query p) \<and> form_conforms (op_body op) form"

fun conforming :: "effect \<Rightarrow> bool" where
  "conforming (Request p i) = list_ex (takes_request p i) operations"
| "conforming (Upload_Form p form) = list_ex (takes_form p form) operations"
| "conforming _ = True"

section \<open>Lemmas\<close>

lemmas operations_table =
  operations_def operations_auth_def operations_images_def operations_admin_def v1_def

text \<open>The operations are those of the paths, in the same order.\<close>

lemma operations_paths:
  "map (\<lambda>op. (op_method op, op_path op)) operations = concat (map (\<lambda>(t, ms). map (\<lambda>m. (m, t)) ms) api_paths)"
  by (simp add: operations_table api_paths_def api_paths_auth_def api_paths_images_def api_paths_admin_def)

lemma api_operation_iff:
  "api_operation m segs \<longleftrightarrow> list_ex (\<lambda>op. op_method op = m \<and> segments_match (op_path op) segs) operations"
proof -
  have "list_ex (\<lambda>op. op_method op = m \<and> segments_match (op_path op) segs) operations \<longleftrightarrow>
      (\<exists>(x, t) \<in> set (map (\<lambda>op. (op_method op, op_path op)) operations). x = m \<and> segments_match t segs)"
    by (auto simp: list_ex_iff)
  also have "\<dots> \<longleftrightarrow> api_operation m segs"
    unfolding operations_paths api_operation_def list_ex_iff by fastforce
  finally show ?thesis by simp
qed

lemma conforming_known: "conforming x \<Longrightarrow> known_request x"
  by (cases x) (auto simp: api_operation_iff list_ex_iff takes_request_def takes_form_def)

lemma query_conforms_none [simp]: "query_conforms [] []"
  by (simp add: query_conforms_def)

text \<open>The operation at a method and a path, and the requests of the interface that conform to it.\<close>

definition find_operation :: "string \<Rightarrow> string list \<Rightarrow> operation option" where
  "find_operation m segs = find (\<lambda>op. op_method op = m \<and> segments_match (op_path op) segs) operations"

lemma find_operation_sound:
  "find_operation m segs = Some op \<Longrightarrow> op \<in> set operations \<and> op_method op = m \<and> segments_match (op_path op) segs"
  by (auto simp: find_operation_def find_Some_iff)

lemma conformingI:
  "(case find_operation (request_method i) (request_segments p) of None \<Rightarrow> False
    | Some op \<Rightarrow> query_conforms (op_query op) (request_query p) \<and> init_conforms (op_body op) i) \<Longrightarrow> conforming (Request p i)"
  by (auto simp: list_ex_iff takes_request_def dest: find_operation_sound split: option.splits)

lemma conforming_formI:
  "(case find_operation ''POST'' (request_segments p) of None \<Rightarrow> False
    | Some op \<Rightarrow> query_conforms (op_query op) (request_query p) \<and> form_conforms (op_body op) form) \<Longrightarrow>
   conforming (Upload_Form p form)"
  by (auto simp: list_ex_iff takes_form_def dest: find_operation_sound split: option.splits)

lemma found_operations:
  "find_operation ''GET'' [''api'', ''v1'', ''setup'', ''status''] =
     Some (Operation ''getSetupStatus'' ''GET'' (v1 [Fixed ''setup'', Fixed ''status'']) [] No_Token No_Body)"
  "find_operation ''POST'' [''api'', ''v1'', ''setup''] =
     Some (Operation ''initializeImageSilo'' ''POST'' (v1 [Fixed ''setup'']) [] No_Token (Json_Body setup_request_schema))"
  "find_operation ''POST'' [''api'', ''v1'', ''auth'', ''login''] =
     Some (Operation ''login'' ''POST'' (v1 [Fixed ''auth'', Fixed ''login'']) [] No_Token (Json_Body login_request_schema))"
  "find_operation ''GET'' [''api'', ''v1'', ''auth'', ''session''] =
     Some (Operation ''getCurrentSession'' ''GET'' (v1 [Fixed ''auth'', Fixed ''session'']) [] No_Token No_Body)"
  "find_operation ''POST'' [''api'', ''v1'', ''auth'', ''logout''] =
     Some (Operation ''logout'' ''POST'' (v1 [Fixed ''auth'', Fixed ''logout'']) [] Required_Token No_Body)"
  "find_operation ''POST'' [''api'', ''v1'', ''auth'', ''password''] =
     Some (Operation ''changePassword'' ''POST'' (v1 [Fixed ''auth'', Fixed ''password'']) [] Required_Token (Json_Body change_password_schema))"
  "find_operation ''PATCH'' [''api'', ''v1'', ''auth'', ''profile''] =
     Some (Operation ''updateAdministratorProfile'' ''PATCH'' (v1 [Fixed ''auth'', Fixed ''profile'']) [] Required_Token (Json_Body update_profile_schema))"
  "find_operation ''GET'' [''api'', ''v1'', ''migration-images''] =
     Some (Operation ''listMigrationImages'' ''GET'' (v1 [Fixed ''migration-images'']) migration_query No_Token No_Body)"
  "find_operation ''POST'' [''api'', ''v1'', ''migration-images'', ''batch-delete''] =
     Some (Operation ''batchDeleteMigrationImages'' ''POST'' (v1 [Fixed ''migration-images'', Fixed ''batch-delete'']) [] Required_Token (Json_Body batch_migration_schema))"
  "find_operation ''POST'' [''api'', ''v1'', ''migration-images'', ''refresh''] =
     Some (Operation ''refreshMigrationImages'' ''POST'' (v1 [Fixed ''migration-images'', Fixed ''refresh'']) [] Required_Token No_Body)"
  "find_operation ''GET'' [''api'', ''v1'', ''images''] =
     Some (Operation ''listImages'' ''GET'' (v1 [Fixed ''images'']) image_query No_Token No_Body)"
  "find_operation ''POST'' [''api'', ''v1'', ''images'', ''batch-delete''] =
     Some (Operation ''batchDeleteImages'' ''POST'' (v1 [Fixed ''images'', Fixed ''batch-delete'']) [] Session_Token (Json_Body batch_image_schema))"
  "find_operation ''PATCH'' [''api'', ''v1'', ''images'', ''batch-visibility''] =
     Some (Operation ''batchUpdateImageVisibility'' ''PATCH'' (v1 [Fixed ''images'', Fixed ''batch-visibility'']) [] Required_Token (Json_Body batch_visibility_schema))"
  "i \<noteq> [] \<Longrightarrow> find_operation ''GET'' [''api'', ''v1'', ''images'', i] =
     Some (Operation ''getImageDetail'' ''GET'' (v1 [Fixed ''images'', Param]) [] No_Token No_Body)"
  "i \<noteq> [] \<Longrightarrow> find_operation ''DELETE'' [''api'', ''v1'', ''images'', i] =
     Some (Operation ''deleteImage'' ''DELETE'' (v1 [Fixed ''images'', Param]) [] Session_Token No_Body)"
  "i \<noteq> [] \<Longrightarrow> find_operation ''PATCH'' [''api'', ''v1'', ''images'', i, ''visibility''] =
     Some (Operation ''updateImageVisibility'' ''PATCH'' (v1 [Fixed ''images'', Param, Fixed ''visibility'']) [] Required_Token (Json_Body update_visibility_schema))"
  "i \<noteq> [] \<Longrightarrow> find_operation ''POST'' [''api'', ''v1'', ''images'', i, ''convert-webp''] =
     Some (Operation ''convertImageToWebP'' ''POST'' (v1 [Fixed ''images'', Param, Fixed ''convert-webp'']) [] Required_Token No_Body)"
  "find_operation ''GET'' [''api'', ''v1'', ''api-tokens''] =
     Some (Operation ''listApiTokens'' ''GET'' (v1 [Fixed ''api-tokens'']) [] No_Token No_Body)"
  "find_operation ''POST'' [''api'', ''v1'', ''api-tokens''] =
     Some (Operation ''createApiToken'' ''POST'' (v1 [Fixed ''api-tokens'']) [] Required_Token (Json_Body create_token_schema))"
  "i \<noteq> [] \<Longrightarrow> find_operation ''DELETE'' [''api'', ''v1'', ''api-tokens'', i] =
     Some (Operation ''revokeApiToken'' ''DELETE'' (v1 [Fixed ''api-tokens'', Param]) [] Required_Token No_Body)"
  "find_operation ''GET'' [''api'', ''v1'', ''settings''] =
     Some (Operation ''getSettings'' ''GET'' (v1 [Fixed ''settings'']) [] No_Token No_Body)"
  "find_operation ''PATCH'' [''api'', ''v1'', ''settings'', ''default-visibility''] =
     Some (Operation ''updateDefaultVisibility'' ''PATCH'' (v1 [Fixed ''settings'', Fixed ''default-visibility'']) [] Required_Token (Json_Body default_visibility_schema))"
  "find_operation ''PATCH'' [''api'', ''v1'', ''settings'', ''processing''] =
     Some (Operation ''updateProcessingSettings'' ''PATCH'' (v1 [Fixed ''settings'', Fixed ''processing'']) [] Required_Token (Json_Body processing_schema))"
  "find_operation ''GET'' [''api'', ''v1'', ''overview''] =
     Some (Operation ''getSystemOverview'' ''GET'' (v1 [Fixed ''overview'']) [] No_Token No_Body)"
  "find_operation ''POST'' [''api'', ''v1'', ''maintenance'', ''rebuild''] =
     Some (Operation ''rebuildIndexes'' ''POST'' (v1 [Fixed ''maintenance'', Fixed ''rebuild'']) [] Required_Token No_Body)"
  "find_operation ''POST'' [''api'', ''v1'', ''maintenance'', ''inspect''] =
     Some (Operation ''inspectConsistency'' ''POST'' (v1 [Fixed ''maintenance'', Fixed ''inspect'']) [] Required_Token No_Body)"
  "find_operation ''POST'' [''api'', ''v1'', ''imports''] =
     Some (Operation ''importImage'' ''POST'' (v1 [Fixed ''imports'']) [] Session_Token (Form_Body import_form_schema))"
  "find_operation ''GET'' [''api'', ''v1'', ''aliases''] =
     Some (Operation ''listAliases'' ''GET'' (v1 [Fixed ''aliases'']) alias_query No_Token No_Body)"
  "find_operation ''POST'' [''api'', ''v1'', ''aliases''] =
     Some (Operation ''createAlias'' ''POST'' (v1 [Fixed ''aliases'']) [] Session_Token (Json_Body create_alias_schema))"
  "find_operation ''GET'' [''api'', ''v1'', ''aliases'', ''resolve''] =
     Some (Operation ''resolveAlias'' ''GET'' (v1 [Fixed ''aliases'', Fixed ''resolve'']) resolve_query No_Token No_Body)"
  "i \<noteq> [] \<Longrightarrow> find_operation ''DELETE'' [''api'', ''v1'', ''aliases'', i] =
     Some (Operation ''deleteAlias'' ''DELETE'' (v1 [Fixed ''aliases'', Param]) [] Session_Token No_Body)"
  "find_operation ''POST'' [''api'', ''v1'', ''images''] =
     Some (Operation ''uploadImage'' ''POST'' (v1 [Fixed ''images'']) [] Session_Token (Form_Body upload_form_schema))"
  "find_operation ''GET'' [''api'', ''v1'', ''system''] =
     Some (Operation ''getSystemInfo'' ''GET'' (v1 [Fixed ''system'']) [] No_Token No_Body)"
  by (simp_all add: find_operation_def operations_table)

declare conforming.simps(1,2) [simp del]

section \<open>The CSRF token\<close>

lemma token_unsafe: "list_all (\<lambda>op. op_token op = No_Token \<or> \<not> isSafeMethod (Some (op_method op))) operations"
  by (simp add: operations_table isSafeMethod_def Let_def) code_simp

lemma request_method_safe: "isSafeMethod (Some (request_method i)) = isSafeMethod (init_method i)"
  by (simp add: request_method_def isSafeMethod_def split: option.split)

lemma init_conforms_no_csrf: "init_conforms b i \<Longrightarrow> \<not> header_has csrf_header (header_set ''Accept'' ''application/json'' (headers_of (init_headers i)))"
proof -
  have "to_lower csrf_header = ''x-csrf-token''" "to_lower ''Accept'' = ''accept''" "to_lower ''Content-Type'' = ''content-type''"
    by code_simp+
  then show "init_conforms b i \<Longrightarrow> ?thesis"
    by (cases b) (simp_all add: init_conforms_def header_has_def headers_of_def)
qed

text \<open>
  C28: The token against forged requests travels where the server asks for it and nowhere else. With a
  readable cookie that has a token, a request an operation takes carries the token in its header if the
  operation has the header, required or for sessions only, and so does an upload; a request with a safe
  method does not carry it.
\<close>

theorem csrf_token_sent:
  assumes "readCookie document_cookie ''imagesilo_csrf'' = Some token" "token \<noteq> []" "op \<in> set operations"
  shows "(op_token op \<noteq> No_Token \<and> takes_request p i op \<longrightarrow>
      (\<exists>hs. api_headers document_cookie i = Inr hs \<and> map_of hs ''x-csrf-token'' = Some token)) \<and>
    (takes_form p form op \<longrightarrow>
      (\<exists>hs. upload_headers document_cookie = Inr hs \<and> map_of hs ''x-csrf-token'' = Some token)) \<and>
    (takes_request p i op \<and> isSafeMethod (init_method i) \<longrightarrow>
      (\<exists>hs. api_headers document_cookie i = Inr hs \<and> map_of hs ''x-csrf-token'' = None))"
proof -
  have low: "to_lower csrf_header = ''x-csrf-token''" by code_simp
  have no_header: "\<not> header_has csrf_header (header_set ''Accept'' ''application/json'' (headers_of (init_headers i)))"
    if "takes_request p i op"
    using that init_conforms_no_csrf by (auto simp: takes_request_def)
  have unsafe: "\<not> isSafeMethod (init_method i)" if "takes_request p i op" "op_token op \<noteq> No_Token"
    using that assms(3) token_unsafe request_method_safe [of i] by (auto simp: takes_request_def list_all_iff)
  show ?thesis
    using assms(1,2) no_header unsafe
    by (auto simp: api_headers_def upload_headers_def Let_def low header_has_def)
qed

lemma csrf_token_sent_witness:
  "\<exists>hs. api_headers ''imagesilo_csrf=abc'' (method_init ''POST'') = Inr hs \<and> map_of hs ''x-csrf-token'' = Some ''abc''"
proof -
  have "readCookie ''imagesilo_csrf=abc'' ''imagesilo_csrf'' = Some ''abc''" by code_simp
  moreover have "Operation ''logout'' ''POST'' (v1 [Fixed ''auth'', Fixed ''logout'']) [] Required_Token No_Body \<in> set operations"
    by (simp add: operations_def operations_auth_def)
  ultimately show ?thesis
    using csrf_token_sent [of "''imagesilo_csrf=abc''" "''abc''"
        "Operation ''logout'' ''POST'' (v1 [Fixed ''auth'', Fixed ''logout'']) [] Required_Token No_Body"
        "''/api/v1/auth/logout''" "method_init ''POST''" "[]"]
    by (simp add: takes_request_def request_method_def method_init_def v1_def request_segments_def request_query_def
        params_parse_def init_conforms_def)
qed

end
