(* ===== verification/Requests.thy ===== *)
theory Requests
  imports Migration Settings Token_Page Alias_Page Detail_Page System_Page Upload Api_Operations
begin

text \<open>
  What the pages ask of the server, held against the description of the server: every request of every
  page conforms to an operation of \<open>openapi.d.ts\<close> (\<open>conforming\<close> of theory \<open>Api_Operations\<close>), so its method
  and path, its query and its body are what the server documents. Identifiers that become a segment of
  a path come from the server, which makes them of plain characters.
\<close>

section \<open>Paths\<close>

definition plain_id :: "string \<Rightarrow> bool" where
  "plain_id i \<longleftrightarrow> i \<noteq> [] \<and> CHR ''/'' \<notin> set i \<and> CHR ''?'' \<notin> set i"

lemma takeWhile_plain: "CHR ''?'' \<notin> set i \<Longrightarrow> takeWhile (\<lambda>c. c \<noteq> CHR ''?'') i = i"
  by (induction i) auto

lemma takeWhile_query: "CHR ''?'' \<notin> set a \<Longrightarrow> takeWhile (\<lambda>c. c \<noteq> CHR ''?'') (a @ CHR ''?'' # b) = a"
  by (induction a) auto

lemma plain_split: "plain_id i \<Longrightarrow> split_on CHR ''/'' i = [i]"
  by (simp add: plain_id_def split_on_absent)

lemma plain_takeWhile: "plain_id i \<Longrightarrow> takeWhile (\<lambda>c. c \<noteq> CHR ''?'') i = i"
  by (simp add: plain_id_def takeWhile_plain)

lemma plain_split_more: "plain_id i \<Longrightarrow> split_on CHR ''/'' (i @ CHR ''/'' # r) = i # split_on CHR ''/'' r"
  by (simp add: plain_id_def split_on_append_sep)

lemma plain_takeWhile_more:
  "plain_id i \<Longrightarrow> takeWhile (\<lambda>c. c \<noteq> CHR ''?'') (i @ r) = i @ takeWhile (\<lambda>c. c \<noteq> CHR ''?'') r"
  by (simp add: plain_id_def takeWhile_append)

lemma plain_nonempty: "plain_id i \<Longrightarrow> i \<noteq> []"
  by (simp add: plain_id_def)

lemma dropWhile_plain: "CHR ''?'' \<notin> set i \<Longrightarrow> dropWhile (\<lambda>c. c \<noteq> CHR ''?'') i = []"
  by (induction i) auto

lemma plain_dropWhile: "plain_id i \<Longrightarrow> dropWhile (\<lambda>c. c \<noteq> CHR ''?'') i = []"
  by (simp add: plain_id_def dropWhile_plain)

lemma plain_dropWhile_more: "plain_id i \<Longrightarrow> dropWhile (\<lambda>c. c \<noteq> CHR ''?'') (i @ r) = dropWhile (\<lambda>c. c \<noteq> CHR ''?'') r"
  by (auto simp: plain_id_def intro: dropWhile_append2)

lemma params_parse_empty [simp]: "params_parse [] = []"
  by (simp add: params_parse_def)

text \<open>The segments and the query of the paths the pages use.\<close>

lemmas plain_path =
  request_segments_def request_query_def plain_split plain_takeWhile plain_split_more plain_takeWhile_more takeWhile_plain
  plain_dropWhile plain_dropWhile_more

lemmas request_simps = request_method_def json_init_def method_init_def no_init_def init_conforms_def form_conforms_def

lemmas body_schemas =
  object_conforms_def visibility_type_def scope_type_def login_request_schema_def processing_schema_def
  setup_request_schema_def change_password_schema_def update_profile_schema_def batch_migration_schema_def
  batch_image_schema_def batch_visibility_schema_def update_visibility_schema_def create_token_schema_def
  default_visibility_schema_def create_alias_schema_def import_form_schema_def

lemmas request_conforms = found_operations request_simps body_schemas plain_path plain_nonempty

lemma toast_conforms [simp]: "conforming (toast_of k key i cs)" "conforming (plain_toast k key cs)"
  by (simp_all add: toast_of_def plain_toast_def)

lemma visibility_text_cases: "visibility_text v = ''public'' \<or> visibility_text v = ''private''"
  by (cases v) simp_all

lemma ids_json_typed: "json_has_type (J_Array J_String) (ids_json ids)"
  by (simp add: ids_json_def list_all_iff)

lemma scopes_typed: "list_all (json_has_type (J_Enum [''images:upload'', ''images:read_private'', ''images:delete'', ''aliases:write'']))
    (map (\<lambda>s. JStr (scope_text s)) ss)"
proof -
  have "json_has_type (J_Enum [''images:upload'', ''images:read_private'', ''images:delete'', ''aliases:write''])
      (JStr (scope_text s))" for s
    by (cases s) simp_all
  then show ?thesis by (simp add: list_all_iff)
qed

subsection \<open>Queries\<close>

lemma params_set_names: "set (map fst (params_set k v ps)) \<subseteq> insert k (set (map fst ps))"
  by (induction ps) auto

lemma query_conforms_iff:
  assumes "list_all (\<lambda>(k, required). \<not> required) qs"
  shows "query_conforms qs ps \<longleftrightarrow> set (map fst ps) \<subseteq> set (map fst qs)"
proof -
  have "list_all (\<lambda>(k, required). \<not> required \<or> k \<in> set (map fst ps)) qs"
    using assms by (auto simp: list_all_iff)
  moreover have "list_all (\<lambda>(k, _). k \<in> set (map fst qs)) ps \<longleftrightarrow> set (map fst ps) \<subseteq> set (map fst qs)"
    by (simp add: list_all_iff subset_eq split_beta)
  ultimately show ?thesis by (simp add: query_conforms_def)
qed

lemma query_conforms_set:
  assumes "list_all (\<lambda>(k, required). \<not> required) qs" "query_conforms qs ps" "k \<in> set (map fst qs)"
  shows "query_conforms qs (params_set k v ps)"
  using params_set_names [of k v ps] assms(2,3) unfolding query_conforms_iff [OF assms(1)] by blast

lemma query_conforms_normalized:
  assumes "normalized_by names ps = limit_params @ map (\<lambda>n. (n, param_text ps n)) (filter (\<lambda>n. param_text ps n \<noteq> []) names)"
    and "list_all (\<lambda>(k, required). \<not> required) qs" "set (''limit'' # names) \<subseteq> set (map fst qs)"
  shows "query_conforms qs (normalized_by names ps)"
  using assms(2,3) unfolding assms(1) query_conforms_def limit_params_def by (auto simp: list_all_iff)

lemma image_query_conforms:
  "query_conforms image_query (normalized_params ps)"
  "query_conforms image_query (params_set ''cursor'' v (normalized_params ps))"
proof -
  show q: "query_conforms image_query (normalized_params ps)"
    unfolding normalized_params_def
    by (rule query_conforms_normalized [OF library.normalized_eq]) (simp_all add: image_query_def imageFilterNames_def)
  show "query_conforms image_query (params_set ''cursor'' v (normalized_params ps))"
    by (rule query_conforms_set [OF _ q]) (simp_all add: image_query_def)
qed

lemma migration_query_conforms:
  "query_conforms migration_query (normalized_by migrationFilterNames ps)"
  "query_conforms migration_query (params_set ''cursor'' v (normalized_by migrationFilterNames ps))"
proof -
  show q: "query_conforms migration_query (normalized_by migrationFilterNames ps)"
    by (rule query_conforms_normalized [OF migration_filters.normalized_eq]) (simp_all add: migration_query_def migrationFilterNames_def)
  show "query_conforms migration_query (params_set ''cursor'' v (normalized_by migrationFilterNames ps))"
    by (rule query_conforms_set [OF _ q]) (simp_all add: migration_query_def)
qed

lemma uri_component_clean: "CHR ''&'' \<notin> set (encodeURIComponent s)" "CHR ''='' \<notin> set (encodeURIComponent s)"
proof -
  have "CHR ''&'' \<notin> set (pct c)" "CHR ''='' \<notin> set (pct c)" for c
  proof -
    have "alnum (hex_digit (byte c div 16))" "alnum (hex_digit (byte c mod 16))"
      using byte_less [of c] by (intro hex_digit_alnum; linarith)+
    from this [THEN alnum_clean] show "CHR ''&'' \<notin> set (pct c)" "CHR ''='' \<notin> set (pct c)" by (auto simp: pct_def)
  qed
  then show "CHR ''&'' \<notin> set (encodeURIComponent s)" "CHR ''='' \<notin> set (encodeURIComponent s)"
    by (auto simp: encodeURIComponent_def uri_unreserved_def alnum_def is_digit_def)
qed

lemma alias_query_conforms:
  "query_conforms alias_query (params_parse ''limit=100'')"
  "query_conforms alias_query (params_parse (''limit=100&cursor='' @ encodeURIComponent c))"
  "query_conforms resolve_query (params_parse (''path='' @ encodeURIComponent c))"
  using uri_component_clean(1) [of c]
  by (simp_all add: params_parse_def parse_pair_def query_conforms_def alias_query_def resolve_query_def split_on_append_sep
      split_on_absent)

lemma path_query:
  "request_segments (''/api/v1/images?'' @ q) = [''api'', ''v1'', ''images'']"
  "request_query (''/api/v1/images?'' @ q) = params_parse q"
  "request_segments (''/api/v1/migration-images?'' @ q) = [''api'', ''v1'', ''migration-images'']"
  "request_query (''/api/v1/migration-images?'' @ q) = params_parse q"
  "request_segments (''/api/v1/aliases?'' @ q) = [''api'', ''v1'', ''aliases'']"
  "request_query (''/api/v1/aliases?'' @ q) = params_parse q"
  "request_segments (''/api/v1/aliases/resolve?'' @ q) = [''api'', ''v1'', ''aliases'', ''resolve'']"
  "request_query (''/api/v1/aliases/resolve?'' @ q) = params_parse q"
  by (simp_all add: request_segments_def request_query_def)

text \<open>A request with a query, from the query it carries.\<close>

lemma query_request_conforms:
  "query_conforms image_query (params_parse q) \<Longrightarrow> conforming (Request (''/api/v1/images?'' @ q) no_init)"
  "query_conforms migration_query (params_parse q) \<Longrightarrow> conforming (Request (''/api/v1/migration-images?'' @ q) no_init)"
  "query_conforms alias_query (params_parse q) \<Longrightarrow> conforming (Request (''/api/v1/aliases?'' @ q) no_init)"
  "query_conforms resolve_query (params_parse q) \<Longrightarrow> conforming (Request (''/api/v1/aliases/resolve?'' @ q) no_init)"
  by (rule conformingI, simp only: path_query, simp add: found_operations request_simps)+

section \<open>The pages\<close>

lemma image_page_conforms: "conforming (image_page_request ps cursor)"
  unfolding image_page_request_def Let_def
  by (rule query_request_conforms(1)) (simp add: params_parse_string normalizedFilterQuery_def image_query_conforms)

lemma image_requests_known:
  "plain_id i \<Longrightarrow> conforming (visibility_request i v)" "conforming (batch_visibility_request v ids)"
  "conforming (batch_delete_request ids)"
  unfolding visibility_request_def batch_visibility_request_def batch_delete_request_def
  by (rule conformingI, insert visibility_text_cases [of v] ids_json_typed [of ids], simp add: request_conforms)+

lemma image_effects_known [simp]:
  "conforming (setSearchParams ps)" "conforming (showBatchToast rs t)" "conforming (sync_cancel i)"
  by (simp_all add: setSearchParams_def showBatchToast_def sync_cancel_def)

fun plain_image_list :: "image_list_event \<Rightarrow> bool" where
  "plain_image_list (Card_Visibility i _) = plain_id i"
| "plain_image_list _ = True"

lemma sync_known: "list_all conforming (sync_apply v i)" "list_all conforming (map (sync_cancel \<circ> f) xs)"
  by (induction xs) (simp_all add: sync_apply_def sync_cancel_def)

lemma image_list_known:
  assumes "plain_image_list e"
  shows "list_all conforming (snd (image_list_step c p e))"
proof -
  have "list_all conforming (snd (image_list_handle c p e))"
  proof (cases e)
    case (Card_Visibility i v)
    then show ?thesis using assms by (simp add: card_visibility_def Let_def image_requests_known)
  next
    case (Toolbar b)
    then show ?thesis by (cases b) (simp_all add: toolbar_step_def image_requests_known)
  next
    case (Visibility_Settled r)
    then show ?thesis by (simp add: visibility_settled_def image_requests_known split: option.split sum.split)
  next
    case (Batch_Visibility_Settled r)
    then show ?thesis by (simp add: batch_visibility_settled_def batch_visibility_done_def Let_def sync_known image_requests_known split: sum.split)
  next
    case (Batch_Visibility_Synced i)
    then show ?thesis
      by (simp add: batch_visibility_synced_def batch_visibility_done_def sync_known image_requests_known split: option.split)
  next
    case Visibility_Synced
    then show ?thesis by (simp add: visibility_synced_def sync_known split: option.split)
  next
    case (Batch_Delete_Settled r)
    then show ?thesis by (simp add: batch_delete_settled_def image_requests_known split: option.split sum.split)
  qed (simp_all add: params_effects_def setVisibilityFilter_def applyFilters_def resetFilters_def toggleSelected_def
      delete_dialog_def image_requests_known image_page_conforms)
  then show ?thesis by (simp add: image_list_step_def split_def Let_def persist_def)
qed

lemma migration_known: "list_all conforming (snd (migration_step p e))"
proof -
  have r: "conforming refresh_request" "conforming (migration_delete_request paths)" for paths
    unfolding refresh_request_def migration_delete_request_def
    by (rule conformingI, insert ids_json_typed [of paths], simp add: request_conforms)+
  have q: "conforming (migration_page_request ps cursor)" for ps cursor
    unfolding migration_page_request_def Let_def migration_filter_query_def
    by (rule query_request_conforms(2)) (simp add: params_parse_string migration_query_conforms)
  have t: "conforming (migration_toast rs)" for rs by (simp add: migration_toast_def)
  have "list_all conforming (snd (migration_handle p e))"
  proof (cases e)
    case (Mg_Refresh_Settled r)
    then show ?thesis by (cases r) (simp_all add: refresh_settled_def)
  next
    case (Mg_Delete_Settled x)
    then show ?thesis by (cases x) (simp_all add: migration_delete_settled_def t split: option.split)
  qed (simp_all add: r q migration_params_effects_def refresh_invalidated_def migration_applyFilters_def migration_resetFilters_def
      migration_toolbar_buttons_def migration_dialog_def MigrationImageCard_def migration_toggleSelected_def image_requests_known)
  then show ?thesis by (simp add: migration_step_def split_def Let_def migration_persist_def)
qed

lemma settings_known: "list_all conforming (snd (settings_step p e))"
proof -
  have r: "conforming (profile_request n m)" "conforming (default_visibility_request v)"
    "conforming (password_request a b)" "conforming (processing_request d w x y z)" for n m v a b d w x y z
    unfolding profile_request_def default_visibility_request_def password_request_def processing_request_def
    by (rule conformingI, insert visibility_text_cases [of v], simp add: request_conforms)+
  show ?thesis
    by (cases e) (simp_all add: r settings_data_def updateProfile_def Let_def profile_settled_def profile_refreshed_def
        profile_failed_def refresh_def default_visibility_select_def default_visibility_settled_def changePassword_def
        password_settled_def updateProcessing_def processing_settled_def split: option.split sum.split)
qed

fun plain_token :: "token_event \<Rightarrow> bool" where
  "plain_token (Token_Revoke_Button t) = plain_id (token_id t)"
| "plain_token _ = True"

definition plain_token_page :: "token_page \<Rightarrow> bool" where
  "plain_token_page p \<longleftrightarrow> (case tk_revokeTarget p of None \<Rightarrow> True | Some (i, _) \<Rightarrow> plain_id i)"

lemma token_known:
  assumes "plain_token_page p" "plain_token e"
  shows "plain_token_page (fst (token_step c p e)) \<and> list_all conforming (snd (token_step c p e))"
proof -
  have r: "conforming token_list_request" "conforming (token_create_request n s x)" for n s x
    unfolding token_list_request_def token_create_request_def
    by (rule conformingI, insert scopes_typed [of s], simp add: request_conforms split: option.split)+
  have d: "conforming (token_revoke_request i)" if "plain_id i" for i
    unfolding token_revoke_request_def by (rule conformingI) (use that in \<open>simp add: request_conforms\<close>)
  show ?thesis
  proof (cases e)
    case (Token_Field f)
    then show ?thesis using assms by (cases f) (simp_all add: plain_token_page_def toggleScope_def)
  next
    case (Token_Dialog b)
    then show ?thesis using assms d by (auto simp: plain_token_page_def token_dialog_def split: option.splits)
  qed (use assms in \<open>auto simp: r plain_token_page_def token_submit_def token_created_def token_create_invalidated_def
      token_revoke_button_def token_revoked_def token_copy_def token_copied_def split: option.splits sum.splits\<close>)
qed

fun plain_alias :: "alias_event \<Rightarrow> bool" where
  "plain_alias (Alias_Row (Delete_Alias a)) = plain_id (alias_id a)"
| "plain_alias _ = True"

definition plain_alias_page :: "alias_page \<Rightarrow> bool" where
  "plain_alias_page p \<longleftrightarrow> (case al_deleteTarget p of None \<Rightarrow> True | Some a \<Rightarrow> plain_id (alias_id a))"

lemma alias_known:
  assumes "plain_alias_page p" "plain_alias e"
  shows "plain_alias_page (fst (alias_step origin p e)) \<and> list_all conforming (snd (alias_step origin p e))"
proof -
  have q: "conforming (alias_page_request cursor)" "conforming (resolve_request path)" for cursor path
  proof -
    show "conforming (alias_page_request cursor)"
      using query_request_conforms(3) [OF alias_query_conforms(1)] query_request_conforms(3) [OF alias_query_conforms(2)]
      by (simp add: alias_page_request_def)
    show "conforming (resolve_request path)"
      using query_request_conforms(4) [OF alias_query_conforms(3)] by (simp add: resolve_request_def)
  qed
  have r: "conforming (import_request f path)" "conforming (alias_copied ok)" for f path ok
    unfolding import_request_def alias_copied_def by (rule conforming_formI, simp add: request_conforms) simp
  have d: "conforming (alias_delete_request i)" if "plain_id i" for i
    unfolding alias_delete_request_def by (rule conformingI) (use that in \<open>simp add: request_conforms\<close>)
  show ?thesis
  proof (cases e)
    case (Alias_Row b)
    then show ?thesis using assms by (cases b) (simp_all add: plain_alias_page_def alias_row_def split: option.split)
  next
    case (Alias_Dialog b)
    then show ?thesis using assms d by (auto simp: plain_alias_page_def alias_dialog_def split: option.splits)
  qed (use assms in \<open>auto simp: q r plain_alias_page_def createAlias_def alias_created_def resolveAlias_def alias_resolved_def
      alias_removed_def split: option.splits sum.splits\<close>)
qed

fun plain_detail :: "detail_event \<Rightarrow> bool" where
  "plain_detail (Entry (New_Location i _)) = plain_id i"
| "plain_detail _ = True"

lemma detail_known:
  assumes "plain_id (dp_imageId p)" "plain_detail e"
  shows "plain_id (dp_imageId (fst (detail_step p e))) \<and> list_all conforming (snd (detail_step p e))"
proof -
  have r: "conforming (detail_visibility_request (dp_imageId p) v)" "conforming (detail_delete_request (dp_imageId p))"
    "conforming (conversion_request (dp_imageId p))" "conforming (alias_create_request i path)" for v i path
    unfolding detail_visibility_request_def detail_delete_request_def conversion_request_def alias_create_request_def
    by (rule conformingI, insert assms(1) visibility_text_cases [of v], simp add: request_conforms)+
  have "conforming (Request (''/api/v1/images/'' @ dp_imageId p) no_init)"
    by (rule conformingI) (use assms(1) in \<open>simp add: request_conforms\<close>)
  then have l: "list_all conforming (detail_request (dp_imageId p))" by (simp add: detail_request_def)
  show ?thesis
  proof (cases e)
    case (Entry x)
    then show ?thesis using assms by (cases x) (simp_all add: detail_scroll_def)
  next
    case (Detail_Button b)
    then show ?thesis using assms by (cases b) (simp_all add: r)
  qed (use assms in \<open>simp_all add: r l returnToList_def detail_visibility_button_def detail_visibility_settled_def
      deletion_settled_def deletion_invalidated_def conversion_settled_def detail_createAlias_def alias_creation_settled_def
      alias_creation_invalidated_def split: sum.split detail_phase.split\<close>)
qed

lemma system_known: "list_all conforming (snd (system_step p e))"
proof -
  have r: "conforming overview_request" "conforming inspect_request" "conforming rebuild_request"
    unfolding overview_request_def inspect_request_def rebuild_request_def
    by (rule conformingI, simp add: request_conforms)+
  show ?thesis
    by (cases e) (simp_all add: r inspection_start_def inspection_settled_def rebuild_dialog_def rebuild_settled_def
        split: sum.split)
qed

lemma sign_in_conforms:
  "conforming (Request ''/api/v1/auth/login'' (json_init ''POST'' (JObj [(''email'', JStr em), (''password'', JStr pw)])))"
  "conforming (Request ''/api/v1/setup'' (json_init ''POST'' (setup_json r)))"
  "conforming logout_request"
  unfolding setup_json_def logout_request_def
  by (rule conformingI, insert visibility_text_cases [of "sr_defaultVisibility r"], simp add: request_conforms)+

lemma login_known: "list_all conforming (snd (login_step d p e))"
  by (cases e) (simp_all add: refresh_def sign_in_conforms split: sum.split form_phase.split)

lemma setup_known: "list_all conforming (snd (setup_step p e))"
  by (cases e) (simp_all add: refresh_def refreshSetup_def setup_refreshed_def sign_in_conforms
      split: sum.split form_phase.split)

lemma layout_known: "list_all conforming (snd (layout_step l e))"
proof (cases e)
  case (Account a)
  then show ?thesis by (cases a) (simp_all add: sign_in_conforms)
next
  case (Search a)
  then show ?thesis by (cases a) (simp_all add: searchImages_def)
next
  case (Sheet a)
  then show ?thesis by (cases a) simp_all
qed (simp_all add: location_effects_def signOut_def split: sum.split)

lemma query_and_upload_conform: "list_all conforming [session_request, setup_status_request, system_request, upload_request f v]"
proof -
  have "conforming (upload_request f v)"
    unfolding upload_request_def
    by (rule conforming_formI, cases v; insert visibility_text_cases [of "the v"]; simp add: request_conforms upload_form_schema_def)
  moreover have "conforming session_request" "conforming setup_status_request" "conforming system_request"
    unfolding session_request_def setup_status_request_def system_request_def
    by (rule conformingI, simp add: request_conforms)+
  ultimately show ?thesis by simp
qed

section \<open>Properties\<close>

lemma run_known: "(\<And>s e. list_all conforming (snd (step s e))) \<Longrightarrow> list_all conforming (snd (run_steps step s es))"
  by (induction es arbitrary: s) simp_all



end
