(* ===== verification/Answer_Types.thy ===== *)
theory Answer_Types
  imports Api_Operations
begin

text \<open>
  What the server answers, after the schemas and the \<open>responses\<close> of the operations of
  \<open>web/src/generated/openapi.d.ts\<close>: for each operation the statuses with the type of their content. All
  named failures (\<open>BadRequest\<close> to \<open>ServiceUnavailable\<close>) have the content \<open>Error\<close>.
\<close>

section \<open>Types of answers\<close>

text \<open>
  A value without properties, an object with its properties (name, whether it must be there, type), a list,
  a type or \<open>null\<close>, and an object whose properties are all texts. An object may have more properties than its type.
\<close>

datatype answer_type =
    A_Value json_type
  | A_Object "(string \<times> bool \<times> answer_type) list"
  | A_List answer_type
  | A_Or_Null answer_type
  | A_Texts

fun typed :: "answer_type \<Rightarrow> json \<Rightarrow> bool" where
  "typed (A_Value t) v = json_has_type t v"
| "typed (A_Object ps) v =
     (case v of
        JObj fs \<Rightarrow> list_all (\<lambda>(k, required, t). case map_of fs k of None \<Rightarrow> \<not> required | Some x \<Rightarrow> typed t x) ps
      | _ \<Rightarrow> False)"
| "typed (A_List t) v = (case v of JArr xs \<Rightarrow> list_all (typed t) xs | _ \<Rightarrow> False)"
| "typed (A_Or_Null t) v = (v = JNull \<or> typed t v)"
| "typed A_Texts v = (case v of JObj fs \<Rightarrow> list_all (\<lambda>(_, x). json_has_type J_String x) fs | _ \<Rightarrow> False)"

text \<open>The intersection of an object type with further properties.\<close>

definition extended :: "answer_type \<Rightarrow> (string \<times> bool \<times> answer_type) list \<Rightarrow> answer_type" where
  "extended t ps = (case t of A_Object qs \<Rightarrow> A_Object (qs @ ps) | _ \<Rightarrow> t)"

section \<open>Schemas\<close>

definition health_response_type :: answer_type where
  "health_response_type = A_Object
    [(''status'', True, A_Value J_String)]"

definition setup_status_type :: answer_type where
  "setup_status_type = A_Object
    [(''initialized'', True, A_Value J_Bool)]"

definition admin_session_type :: answer_type where
  "admin_session_type = A_Object
    [(''adminId'', True, A_Value J_String), (''displayName'', True, A_Value J_String),
     (''email'', True, A_Value J_String), (''csrfToken'', True, A_Value J_String),
     (''expiresAt'', True, A_Value J_String)]"

definition processing_summary_type :: answer_type where
  "processing_summary_type = A_Object
    [(''action'', True, A_Value (J_Enum [''preserve'', ''compress'', ''convert''])),
     (''sourceFormat'', True, A_Value (J_Enum [''jpeg'', ''png'', ''webp'', ''gif''])),
     (''storedFormat'', True, A_Value (J_Enum [''jpeg'', ''png'', ''webp'', ''gif''])),
     (''preserved'', True, A_Value J_Bool), (''compressionEnabled'', True, A_Value J_Bool),
     (''conversionEnabled'', True, A_Value J_Bool), (''compressionRejected'', False, A_Value J_Bool)]"

definition image_type :: answer_type where
  "image_type = A_Object
    [(''id'', True, A_Value J_String), (''originalName'', True, A_Value J_String),
     (''mimeType'', True, A_Value (J_Enum [''image/jpeg'', ''image/png'', ''image/webp'', ''image/gif''])),
     (''extension'', True, A_Value (J_Enum [''.jpg'', ''.png'', ''.webp'', ''.gif''])),
     (''width'', True, A_Value J_Number), (''height'', True, A_Value J_Number),
     (''sourceSize'', True, A_Value J_Number), (''storedSize'', True, A_Value J_Number),
     (''sourceSha256'', True, A_Value J_String), (''storedSha256'', True, A_Value J_String),
     (''processingSummary'', True, processing_summary_type), (''visibility'', True, A_Value visibility_type),
     (''uploadedVia'', True, A_Value (J_Enum [''admin'', ''api_token'', ''import''])),
     (''standardUrl'', True, A_Value J_String), (''thumbnailUrl'', True, A_Value J_String),
     (''createdAt'', True, A_Value J_String)]"

definition image_list_type :: answer_type where
  "image_list_type = A_Object
    [(''items'', True, A_List image_type), (''nextCursor'', False, A_Value J_String)]"

definition migration_image_type :: answer_type where
  "migration_image_type = A_Object
    [(''path'', True, A_Value J_String), (''originalName'', True, A_Value J_String),
     (''mimeType'', True, A_Value (J_Enum [''image/jpeg'', ''image/png'', ''image/webp'', ''image/gif''])),
     (''extension'', True, A_Value (J_Enum [''.jpg'', ''.jpeg'', ''.png'', ''.webp'', ''.gif''])),
     (''storedSize'', True, A_Value J_Number), (''standardUrl'', True, A_Value J_String),
     (''modifiedAt'', True, A_Value J_String)]"

definition migration_image_list_type :: answer_type where
  "migration_image_list_type = A_Object
    [(''items'', True, A_List migration_image_type), (''nextCursor'', False, A_Value J_String),
     (''skippedFiles'', True, A_Value J_Number), (''mutationsEnabled'', True, A_Value J_Bool)]"

definition migration_image_operation_item_type :: answer_type where
  "migration_image_operation_item_type = A_Object
    [(''path'', True, A_Value J_String),
     (''status'', True, A_Value (J_Enum [''deleted'', ''cleanup_pending'', ''not_found'', ''error''])),
     (''removedDirectories'', False, A_Value J_Number), (''directoryCleanupPending'', False, A_Value J_Bool),
     (''errorCode'', False, A_Value J_String)]"

definition migration_image_batch_result_type :: answer_type where
  "migration_image_batch_result_type = A_Object
    [(''items'', True, A_List migration_image_operation_item_type)]"

definition image_alias_type :: answer_type where
  "image_alias_type = A_Object
    [(''id'', True, A_Value J_String), (''path'', True, A_Value J_String), (''imageId'', True, A_Value J_String),
     (''source'', True, A_Value J_String), (''createdAt'', True, A_Value J_String)]"

definition image_detail_type :: answer_type where
  "image_detail_type = extended image_type
    [(''aliases'', True, A_List image_alias_type)]"

definition delete_image_result_type :: answer_type where
  "delete_image_result_type = A_Object
    [(''imageId'', True, A_Value J_String), (''imageFileDeleted'', True, A_Value J_Bool),
     (''thumbnailDeleted'', True, A_Value J_Bool), (''cleanupPending'', True, A_Value J_Bool)]"

definition webp_conversion_type :: answer_type where
  "webp_conversion_type = A_Object
    [(''image'', True, image_type), (''originalFileDeleted'', True, A_Value J_Bool),
     (''thumbnailUpdated'', True, A_Value J_Bool), (''cleanupPending'', True, A_Value J_Bool)]"

definition batch_operation_item_type :: answer_type where
  "batch_operation_item_type = A_Object
    [(''imageId'', True, A_Value J_String),
     (''status'', True, A_Value (J_Enum [''deleted'', ''cleanup_pending'', ''updated'', ''not_found'', ''error''])),
     (''cleanupPending'', False, A_Value J_Bool), (''errorCode'', False, A_Value J_String)]"

definition batch_operation_result_type :: answer_type where
  "batch_operation_result_type = A_Object
    [(''items'', True, A_List batch_operation_item_type)]"

definition created_api_token_type :: answer_type where
  "created_api_token_type = A_Object
    [(''id'', True, A_Value J_String), (''name'', True, A_Value J_String), (''token'', True, A_Value J_String),
     (''tokenPrefix'', True, A_Value J_String), (''scopes'', True, A_Value (J_Array scope_type)),
     (''expiresAt'', True, A_Or_Null (A_Value J_String)), (''status'', True, A_Value (J_Enum [''active''])),
     (''createdAt'', True, A_Value J_String)]"

definition api_token_type :: answer_type where
  "api_token_type = A_Object
    [(''id'', True, A_Value J_String), (''name'', True, A_Value J_String), (''tokenPrefix'', True, A_Value J_String),
     (''scopes'', True, A_Value (J_Array scope_type)), (''expiresAt'', True, A_Or_Null (A_Value J_String)),
     (''status'', True, A_Value (J_Enum [''active'', ''expired'', ''revoked''])),
     (''createdAt'', True, A_Value J_String)]"

definition api_token_list_type :: answer_type where
  "api_token_list_type = A_Object
    [(''items'', True, A_List api_token_type)]"

definition app_settings_type :: answer_type where
  "app_settings_type = A_Object
    [(''defaultVisibility'', True, A_Value visibility_type), (''compressionEnabled'', True, A_Value J_Bool),
     (''jpegQuality'', True, A_Value J_Number), (''webpQuality'', True, A_Value J_Number),
     (''pngCompressionLevel'', True, A_Value J_Number), (''conversionEnabled'', True, A_Value J_Bool),
     (''conversionWebpQuality'', True, A_Value J_Number), (''conversionWebpLossless'', True, A_Value J_Bool)]"

definition system_info_type :: answer_type where
  "system_info_type = A_Object
    [(''processingConcurrency'', True, A_Value J_Number), (''deliveryConcurrency'', True, A_Value J_Number),
     (''maxBatchCount'', True, A_Value J_Number), (''maxUploadBytes'', True, A_Value J_Number),
     (''maxTotalPixels'', True, A_Value J_Number),
     (''supportedFormats'', True, A_Value (J_Array (J_Enum [''image/jpeg'', ''image/png'', ''image/webp'', ''image/gif'']))),
     (''vipsVersion'', True, A_Value J_String)]"

definition index_stats_type :: answer_type where
  "index_stats_type = A_Object
    [(''images'', True, A_Value J_Number), (''aliases'', True, A_Value J_Number),
     (''sessions'', True, A_Value J_Number), (''tokens'', True, A_Value J_Number)]"

definition inspection_result_type :: answer_type where
  "inspection_result_type = A_Object
    [(''checkedAt'', True, A_Value J_String), (''databaseImages'', True, A_Value J_Number),
     (''imageFiles'', True, A_Value J_Number), (''thumbnailFiles'', True, A_Value J_Number),
     (''temporaryFiles'', True, A_Value J_Number), (''missingImageCount'', True, A_Value J_Number),
     (''missingImageIds'', True, A_Value (J_Array J_String)), (''orphanImageCount'', True, A_Value J_Number),
     (''orphanThumbnailCount'', True, A_Value J_Number)]"

definition rebuild_result_type :: answer_type where
  "rebuild_result_type = A_Object
    [(''completedAt'', True, A_Value J_String), (''images'', True, A_Value J_Number),
     (''aliases'', True, A_Value J_Number), (''sessions'', True, A_Value J_Number),
     (''tokens'', True, A_Value J_Number), (''missingImageCount'', True, A_Value J_Number),
     (''missingImageIds'', True, A_Value (J_Array J_String))]"

definition daily_maintenance_result_type :: answer_type where
  "daily_maintenance_result_type = A_Object
    [(''completedAt'', True, A_Value J_String), (''inspection'', True, inspection_result_type),
     (''removedTemporaryFiles'', True, A_Value J_Number), (''removedOrphanImages'', True, A_Value J_Number),
     (''removedOrphanThumbnails'', True, A_Value J_Number), (''cleanupFailures'', True, A_Value J_Number),
     (''indexConsistent'', True, A_Value J_Bool)]"

definition system_overview_type :: answer_type where
  "system_overview_type = A_Object
    [(''imageCount'', True, A_Value J_Number), (''storedBytes'', True, A_Value J_Number),
     (''migrationStoredBytes'', True, A_Value J_Number), (''aliasCount'', True, A_Value J_Number),
     (''heapAllocBytes'', True, A_Value J_Number), (''heapSysBytes'', True, A_Value J_Number),
     (''rssBytes'', True, A_Value J_Number), (''goroutines'', True, A_Value J_Number),
     (''indexes'', True, index_stats_type), (''indexConsistent'', True, A_Value J_Bool),
     (''missingImageCount'', True, A_Value J_Number), (''missingImageIds'', True, A_Value (J_Array J_String)),
     (''lastInspection'', True, A_Or_Null (inspection_result_type)),
     (''lastRebuild'', True, A_Or_Null (rebuild_result_type)),
     (''lastDaily'', True, A_Or_Null (daily_maintenance_result_type))]"

definition image_alias_list_type :: answer_type where
  "image_alias_list_type = A_Object
    [(''items'', True, A_List image_alias_type), (''nextCursor'', False, A_Value J_String)]"

definition import_result_type :: answer_type where
  "import_result_type = A_Object
    [(''imageId'', True, A_Value J_String), (''standardUrl'', True, A_Value J_String),
     (''sha256'', True, A_Value J_String), (''alias'', True, image_alias_type)]"

definition error_type :: answer_type where
  "error_type = A_Object
    [(''code'', True, A_Value J_String), (''message'', True, A_Value J_String),
     (''requestId'', True, A_Value J_String), (''fields'', False, A_Texts)]"

section \<open>Answers of the operations\<close>

datatype documented = Content answer_type | No_Content | Media "string list"

definition failures :: "nat list \<Rightarrow> (nat \<times> documented) list" where
  "failures statuses = map (\<lambda>status. (status, Content error_type)) statuses"

definition answers_auth :: "(string \<times> (nat \<times> documented) list) list" where
  "answers_auth =
    [(''getLiveness'', [(200, Content health_response_type)]),
     (''getReadiness'', [(200, Content health_response_type)] @ failures [503]),
     (''getSetupStatus'', [(200, Content setup_status_type)]),
     (''initializeImageSilo'', [(201, Content admin_session_type)] @ failures [400, 403, 409]),
     (''login'', [(200, Content admin_session_type)] @ failures [401, 429]),
     (''getCurrentSession'', [(200, Content admin_session_type)] @ failures [401]),
     (''logout'', [(204, No_Content)] @ failures [401, 403]),
     (''changePassword'', [(204, No_Content)] @ failures [400, 401, 403]),
     (''updateAdministratorProfile'', [(200, Content admin_session_type)] @ failures [400, 401, 403, 409])]"

definition answers_images :: "(string \<times> (nat \<times> documented) list) list" where
  "answers_images =
    [(''listMigrationImages'', [(200, Content migration_image_list_type)] @ failures [400, 401]),
     (''batchDeleteMigrationImages'', [(200, Content migration_image_batch_result_type)] @ failures [400, 401, 403]),
     (''refreshMigrationImages'', [(204, No_Content)] @ failures [401, 403, 500]),
     (''listImages'', [(200, Content image_list_type)] @ failures [400, 401]),
     (''uploadImage'', [(201, Content image_type)] @ failures [400, 401, 403, 503]),
     (''batchDeleteImages'', [(200, Content batch_operation_result_type)] @ failures [400, 401, 403]),
     (''batchUpdateImageVisibility'', [(200, Content batch_operation_result_type)] @ failures [400, 401, 403]),
     (''getImageDetail'', [(200, Content image_detail_type)] @ failures [401, 404]),
     (''deleteImage'', [(200, Content delete_image_result_type)] @ failures [401, 403, 404]),
     (''updateImageVisibility'', [(204, No_Content)] @ failures [400, 401, 403, 404]),
     (''convertImageToWebP'', [(200, Content webp_conversion_type)] @ failures [401, 403, 404, 409, 503]),
     (''getImageThumbnail'', [(200, Media [''image/jpeg''])] @ failures [401, 404, 503]),
     (''deliverImage'', [(200, Media [''image/jpeg'', ''image/png'', ''image/webp'', ''image/gif'']), (206, No_Content)] @ failures [401, 403, 404, 503])]"

definition answers_admin :: "(string \<times> (nat \<times> documented) list) list" where
  "answers_admin =
    [(''listApiTokens'', [(200, Content api_token_list_type)] @ failures [401]),
     (''createApiToken'', [(201, Content created_api_token_type)] @ failures [400, 401, 403]),
     (''revokeApiToken'', [(204, No_Content)] @ failures [401, 403, 404]),
     (''getSettings'', [(200, Content app_settings_type)] @ failures [401]),
     (''updateDefaultVisibility'', [(200, Content app_settings_type)] @ failures [400, 401, 403]),
     (''updateProcessingSettings'', [(200, Content app_settings_type)] @ failures [400, 401, 403]),
     (''getSystemInfo'', [(200, Content system_info_type)] @ failures [401]),
     (''getSystemOverview'', [(200, Content system_overview_type)] @ failures [401]),
     (''rebuildIndexes'', [(200, Content rebuild_result_type)] @ failures [401, 403]),
     (''inspectConsistency'', [(200, Content inspection_result_type)] @ failures [401, 403]),
     (''importImage'', [(201, Content import_result_type)] @ failures [400, 401, 403, 409, 503]),
     (''listAliases'', [(200, Content image_alias_list_type)] @ failures [401, 403]),
     (''createAlias'', [(201, Content image_alias_type)] @ failures [400, 401, 403, 404, 409]),
     (''resolveAlias'', [(200, Content image_alias_type)] @ failures [400, 401, 403, 404]),
     (''deleteAlias'', [(204, No_Content)] @ failures [401, 403, 404])]"

definition answers_table :: "(string \<times> (nat \<times> documented) list) list" where
  "answers_table = answers_auth @ answers_images @ answers_admin"

definition op_answers :: "operation \<Rightarrow> (nat \<times> documented) list" where
  "op_answers op = (case map_of answers_table (op_name op) of None \<Rightarrow> [] | Some rs \<Rightarrow> rs)"

text \<open>A response with the content documented.\<close>

definition has_content :: "documented \<Rightarrow> http_response \<Rightarrow> bool" where
  "has_content d r \<longleftrightarrow>
     (case d of
        Content t \<Rightarrow> json_content (content_type r) \<and> (case resp_json r of None \<Rightarrow> False | Some v \<Rightarrow> typed t v)
      | No_Content \<Rightarrow> content_type r = None \<and> resp_json r = None
      | Media ts \<Rightarrow> (case content_type r of None \<Rightarrow> False | Some t \<Rightarrow> t \<in> set ts))"

section \<open>Lemmas\<close>

lemmas answers_table_simps = answers_table_def answers_auth_def answers_images_def answers_admin_def

text \<open>The tables name the same operations, in the same order.\<close>

lemma answers_names: "map fst answers_table = map op_name operations"
  by (simp add: answers_table_simps operations_table)

lemma failures_typed:
  "list_all (\<lambda>(_, rs). list_all (\<lambda>(status, d). ok_status status \<or> d = Content error_type) rs) answers_table"
  by (simp add: answers_table_simps failures_def ok_status_def)

lemma op_answers_failure:
  assumes "(status, d) \<in> set (op_answers op)" "\<not> ok_status status"
  shows "d = Content error_type"
proof -
  obtain rs where "map_of answers_table (op_name op) = Some rs" "(status, d) \<in> set rs"
    using assms(1) by (cases "map_of answers_table (op_name op)") (auto simp: op_answers_def)
  then show ?thesis using map_of_SomeD [of answers_table] failures_typed assms(2) by (fastforce simp: list_all_iff)
qed

text \<open>The content of a failure has a message and a code.\<close>

lemma typed_error:
  assumes "typed error_type v"
  obtains msg code where "string_field (Some v) ''message'' = Some msg" "string_field (Some v) ''code'' = Some code"
  using assms by (cases v) (auto simp: error_type_def string_field_def json_field_def split: option.splits json.splits)

end
