(* ===== verification/Answers.thy ===== *)
theory Answers
  imports Answer_Types Requests
begin

text \<open>
  What the pages get to read: the two ways in which \<open>web/src/lib/api-client.ts\<close> takes a response agree, and with
  any response the server documents for a request, the page gets a value of the type it reads, or an error
  with the message and the code of the server.
\<close>

section \<open>Requests and uploads\<close>



section \<open>Calls and their types\<close>

text \<open>The type arguments of the calls of \<open>apiRequest\<close> and \<open>uploadForm\<close>, \<open>void\<close> as no content.\<close>

inductive reads_as :: "effect \<Rightarrow> documented \<Rightarrow> bool" where
  Reads_Session: "reads_as session_request (Content admin_session_type)"
| Reads_Setup_Status: "reads_as setup_status_request (Content setup_status_type)"
| Reads_Login: "reads_as (Request ''/api/v1/auth/login'' (json_init ''POST'' b)) (Content admin_session_type)"
| Reads_Setup: "reads_as (Request ''/api/v1/setup'' (json_init ''POST'' b)) (Content admin_session_type)"
| Reads_Logout: "reads_as logout_request No_Content"
| Reads_Profile: "reads_as (profile_request n m) (Content admin_session_type)"
| Reads_Password: "reads_as (password_request a b) No_Content"
| Reads_Settings: "reads_as settings_request (Content app_settings_type)"
| Reads_Default_Visibility: "reads_as (default_visibility_request v) (Content app_settings_type)"
| Reads_Processing: "reads_as (processing_request d j k l m) (Content app_settings_type)"
| Reads_Tokens: "reads_as token_list_request (Content api_token_list_type)"
| Reads_Created_Token: "reads_as (token_create_request n ss x) (Content created_api_token_type)"
| Reads_Revoke: "plain_id i \<Longrightarrow> reads_as (token_revoke_request i) No_Content"
| Reads_Overview: "reads_as overview_request (Content system_overview_type)"
| Reads_Inspection: "reads_as inspect_request (Content inspection_result_type)"
| Reads_Rebuild: "reads_as rebuild_request (Content rebuild_result_type)"
| Reads_Aliases: "reads_as (alias_page_request c) (Content image_alias_list_type)"
| Reads_Import: "reads_as (import_request f p) (Content import_result_type)"
| Reads_Resolve: "reads_as (resolve_request p) (Content image_alias_type)"
| Reads_Delete_Alias: "plain_id i \<Longrightarrow> reads_as (alias_delete_request i) No_Content"
| Reads_Detail: "plain_id i \<Longrightarrow> x \<in> set (detail_request i) \<Longrightarrow> reads_as x (Content image_detail_type)"
| Reads_Detail_Visibility: "plain_id i \<Longrightarrow> reads_as (detail_visibility_request i v) No_Content"
| Reads_Detail_Delete: "plain_id i \<Longrightarrow> reads_as (detail_delete_request i) (Content delete_image_result_type)"
| Reads_Conversion: "plain_id i \<Longrightarrow> reads_as (conversion_request i) (Content webp_conversion_type)"
| Reads_Created_Alias: "reads_as (alias_create_request i p) (Content image_alias_type)"
| Reads_Images: "reads_as (image_page_request ps c) (Content image_list_type)"
| Reads_Visibility: "plain_id i \<Longrightarrow> reads_as (visibility_request i v) No_Content"
| Reads_Batch_Visibility: "reads_as (batch_visibility_request v ids) (Content batch_operation_result_type)"
| Reads_Batch_Delete: "reads_as (batch_delete_request ids) (Content batch_operation_result_type)"
| Reads_Migration: "reads_as (migration_page_request ps c) (Content migration_image_list_type)"
| Reads_Refresh: "reads_as refresh_request No_Content"
| Reads_Migration_Delete: "reads_as (migration_delete_request paths) (Content migration_image_batch_result_type)"
| Reads_System: "reads_as system_request (Content system_info_type)"
| Reads_Upload: "reads_as (upload_request f' v') (Content image_type)"

text \<open>
  The names under which \<open>web/src/lib/api-types.ts\<close> exports the schemas to the pages (but \<open>SetupRequest\<close>, a type
  of a request). Every type a page takes an answer for is one of them.
\<close>

definition api_types :: "(string \<times> answer_type) list" where
  "api_types =
    [(''AdminSession'', admin_session_type), (''SetupStatus'', setup_status_type), (''Image'', image_type),
     (''ImageList'', image_list_type), (''ImageDetail'', image_detail_type),
     (''DeleteImageResult'', delete_image_result_type), (''WebPConversionResult'', webp_conversion_type),
     (''BatchOperationResult'', batch_operation_result_type), (''MigrationImage'', migration_image_type),
     (''MigrationImageList'', migration_image_list_type),
     (''MigrationImageBatchResult'', migration_image_batch_result_type), (''Visibility'', A_Value visibility_type),
     (''ApiTokenScope'', A_Value scope_type), (''ApiToken'', api_token_type),
     (''ApiTokenList'', api_token_list_type), (''CreatedApiToken'', created_api_token_type),
     (''AppSettings'', app_settings_type), (''SystemInfo'', system_info_type),
     (''SystemOverview'', system_overview_type), (''InspectionResult'', inspection_result_type),
     (''RebuildResult'', rebuild_result_type), (''DailyMaintenanceResult'', daily_maintenance_result_type),
     (''ImageAlias'', image_alias_type), (''ImageAliasList'', image_alias_list_type),
     (''ImportResult'', import_result_type)]"

lemma read_types_exported: "reads_as x d \<Longrightarrow> d = Content t \<Longrightarrow> t \<in> snd ` set api_types"
  by (induction rule: reads_as.induct) (simp_all add: api_types_def)

fun operation_of :: "effect \<Rightarrow> operation option" where
  "operation_of (Request p i) = find_operation (request_method i) (request_segments p)"
| "operation_of (Upload_Form p form) = find_operation ''POST'' (request_segments p)"
| "operation_of _ = None"

definition documented_for :: "effect \<Rightarrow> http_response \<Rightarrow> bool" where
  "documented_for x r \<longleftrightarrow>
     (case operation_of x of None \<Rightarrow> False
      | Some op \<Rightarrow> list_ex (\<lambda>(st, d). resp_status r = st \<and> has_content d r) (op_answers op))"

definition answered_as :: "effect \<Rightarrow> documented \<Rightarrow> bool" where
  "answered_as x d \<longleftrightarrow>
     (case operation_of x of None \<Rightarrow> False
      | Some op \<Rightarrow>
          (case filter (ok_status \<circ> fst) (op_answers op) of
             [(st, d')] \<Rightarrow> d' = d \<and> (d = No_Content \<longleftrightarrow> st = 204)
           | _ \<Rightarrow> False))"

lemma answered_success:
  assumes "answered_as x d" "operation_of x = Some op"
  obtains st where "filter (ok_status \<circ> fst) (op_answers op) = [(st, d)]" "d = No_Content \<longleftrightarrow> st = 204"
  using assms that
  by (cases "filter (ok_status \<circ> fst) (op_answers op)"; cases "tl (filter (ok_status \<circ> fst) (op_answers op))")
    (auto simp: answered_as_def)

lemmas answered_simps = answered_as_def request_conforms op_answers_def answers_table_simps failures_def ok_status_def

lemma query_calls_answered:
  "answered_as (image_page_request ps c) (Content image_list_type)"
  "answered_as (migration_page_request ps c) (Content migration_image_list_type)"
  "answered_as (alias_page_request c) (Content image_alias_list_type)"
  "answered_as (resolve_request p) (Content image_alias_type)"
proof -
  have "alias_page_request c = Request (''/api/v1/aliases?'' @ ''limit=100'' @ (if c \<noteq> [] then ''&cursor='' @ encodeURIComponent c else [])) no_init"
    "resolve_request p = Request (''/api/v1/aliases/resolve?'' @ ''path='' @ encodeURIComponent p) no_init"
    by (simp_all add: alias_page_request_def resolve_request_def)
  then show "answered_as (image_page_request ps c) (Content image_list_type)"
    "answered_as (migration_page_request ps c) (Content migration_image_list_type)"
    "answered_as (alias_page_request c) (Content image_alias_list_type)"
    "answered_as (resolve_request p) (Content image_alias_type)"
    by (simp_all only: image_page_request_def migration_page_request_def Let_def answered_as_def operation_of.simps path_query)
      (simp_all add: answered_simps)
qed

lemma id_calls_answered:
  assumes "plain_id i"
  shows "answered_as (token_revoke_request i) No_Content" "answered_as (alias_delete_request i) No_Content"
    "x \<in> set (detail_request i) \<Longrightarrow> answered_as x (Content image_detail_type)"
    "answered_as (detail_visibility_request i v) No_Content" "answered_as (detail_delete_request i) (Content delete_image_result_type)"
    "answered_as (conversion_request i) (Content webp_conversion_type)" "answered_as (visibility_request i v) No_Content"
  using assms
  by (simp_all add: token_revoke_request_def alias_delete_request_def detail_request_def detail_visibility_request_def
      detail_delete_request_def conversion_request_def visibility_request_def answered_simps split: if_splits)

lemma reads_as_answered: "reads_as x d \<Longrightarrow> answered_as x d"
  by (induction rule: reads_as.induct)
    (simp_all add: query_calls_answered id_calls_answered, simp_all add: session_request_def setup_status_request_def
      logout_request_def profile_request_def password_request_def settings_request_def default_visibility_request_def
      processing_request_def token_list_request_def token_create_request_def overview_request_def inspect_request_def
      rebuild_request_def import_request_def alias_create_request_def batch_visibility_request_def batch_delete_request_def
      refresh_request_def migration_delete_request_def system_request_def upload_request_def answered_simps)



end
