(* ===== verification/Messages.thy ===== *)
theory Messages
  imports Migration Detail_Page Settings System_Page Token_Page Alias_Page
begin

text \<open>
  The messages that say that something is being worked on (\<open>toast.loading\<close>). A message of the toaster stays until
  one with its id replaces it, and one that is loading never goes by itself: each mutation that shows one has to
  show what became of it under the same id. The locale \<open>loading_messages\<close> states this of a page and derives
  it for every run; it is interpreted on all pages that show messages by mutation.
\<close>

section \<open>Messages that are loading\<close>

text \<open>The ids of the messages left loading; one without an id could not be replaced.\<close>

fun message_step :: "effect \<Rightarrow> string option set \<Rightarrow> string option set" where
  "message_step (Show_Toast t) L =
     (if toast_kind t = Toast_Loading then insert (toast_id t) L
      else if toast_id t = None then L else L - {toast_id t})"
| "message_step _ L = L"

definition loading_after :: "effect list \<Rightarrow> string option set \<Rightarrow> string option set" where
  "loading_after out L = fold message_step out L"

lemma loading_after_simps [simp]:
  "loading_after [] L = L" "loading_after (x # xs) L = loading_after xs (message_step x L)"
  "loading_after (xs @ ys) L = loading_after ys (loading_after xs L)"
  by (simp_all add: loading_after_def)

lemma message_step_toast [simp]:
  "message_step (toast_of k key i ns) L = (if k = Toast_Loading then insert (Some i) L else L - {Some i})"
  "message_step (plain_toast k key ns) L = (if k = Toast_Loading then insert None L else L)"
  by (simp_all add: toast_of_def plain_toast_def)

definition waiting :: "bool \<Rightarrow> string \<Rightarrow> string option set" where
  "waiting b i = (if b then {Some i} else {})"

lemma waiting_simps [simp]: "waiting True i = {Some i}" "waiting False i = {}"
  by (simp_all add: waiting_def)

lemma in_waiting [simp]: "x \<in> waiting b i \<longleftrightarrow> b \<and> x = Some i"
  by (simp add: waiting_def)

locale loading_messages =
  fixes step :: "'s \<Rightarrow> 'e \<Rightarrow> 's \<times> effect list"
    and pending :: "'s \<Rightarrow> string option set"
  assumes step_messages: "loading_after (snd (step s e)) (pending s) = pending (fst (step s e))"
begin

lemma run_messages: "loading_after (snd (run_steps step s es)) (pending s) = pending (fst (run_steps step s es))"
  by (induction es arbitrary: s) (simp_all add: step_messages split_def Let_def)

end

section \<open>The pages\<close>

text \<open>The ids of the mutations that are pending, as far as they have shown a message.\<close>

definition system_pending :: "system_page \<Rightarrow> string option set" where
  "system_pending p = waiting (sy_inspection p = Maintenance_Posting) ''system-inspection'' \<union>
     waiting (sy_rebuild p = Maintenance_Posting) ''system-rebuild''"

definition settings_pending :: "settings_page \<Rightarrow> string option set" where
  "settings_pending p = waiting (sp_profile p \<noteq> Profile_Idle) ''settings-profile'' \<union>
     waiting (sp_visibility_pending p) ''settings-visibility'' \<union> waiting (sp_password_pending p) ''settings-password'' \<union>
     waiting (sp_processing_pending p) ''settings-processing''"

definition alias_pending :: "alias_page \<Rightarrow> string option set" where
  "alias_pending p = waiting (al_creating p) ''alias-create''"

definition detail_pending :: "detail_page \<Rightarrow> string option set" where
  "detail_pending p = waiting (dp_visibility p = Detail_Posting) ''detail-visibility'' \<union>
     waiting (dp_deletion p = Detail_Posting) ''detail-delete'' \<union> waiting (dp_conversion p = Detail_Posting) ''detail-conversion'' \<union>
     waiting (dp_aliasCreation p \<noteq> Detail_Idle) ''detail-alias''"

definition image_list_pending :: "image_list_page \<Rightarrow> string option set" where
  "image_list_pending p =
     (case visibilityMutation p of None \<Rightarrow> {} | Some (i, _) \<Rightarrow> {Some (visibility_toast_id i)}) \<union>
     waiting (batchVisibility p \<noteq> None) ''batch-visibility'' \<union> waiting (batchDelete p \<noteq> None) ''batch-delete''"

definition migration_pending :: "migration_page \<Rightarrow> string option set" where
  "migration_pending p = waiting (mg_batchDelete p \<noteq> None) ''migration-batch-delete''"

interpretation system_messages: loading_messages system_step system_pending
proof
  fix p e
  show "loading_after (snd (system_step p e)) (system_pending p) = system_pending (fst (system_step p e))"
    by (cases e) (auto simp: system_pending_def inspection_start_def inspection_settled_def rebuild_dialog_def
        rebuild_settled_def overview_request_def inspect_request_def rebuild_request_def split: sum.split)
qed

interpretation alias_messages: loading_messages "alias_step origin" alias_pending
proof
  fix p e
  show "loading_after (snd (alias_step origin p e)) (alias_pending p) = alias_pending (fst (alias_step origin p e))"
    by (cases e) (auto simp: alias_pending_def createAlias_def import_request_def alias_created_def resolveAlias_def resolve_request_def
        alias_resolved_def alias_row_def alias_copied_def alias_dialog_def alias_removed_def alias_delete_request_def
        alias_page_request_def split: sum.split option.split alias_button.split)
qed

interpretation settings_messages: loading_messages settings_step settings_pending
proof
  fix p e
  show "loading_after (snd (settings_step p e)) (settings_pending p) = settings_pending (fst (settings_step p e))"
    by (cases e) (auto simp: settings_pending_def settings_data_def updateProfile_def profile_request_def Let_def profile_settled_def
        profile_failed_def refresh_def session_request_def profile_refreshed_def default_visibility_select_def default_visibility_request_def
        default_visibility_settled_def changePassword_def password_request_def password_settled_def updateProcessing_def
        processing_request_def processing_settled_def split: sum.split option.split)
qed

interpretation detail_messages: loading_messages detail_step detail_pending
proof
  fix p e
  have entry: "loading_after (snd (entry_step p x)) L = L" "detail_pending (fst (entry_step p x)) = detail_pending p" for x L
    by (cases x; simp add: detail_pending_def detail_scroll_def)+
  have dialogs: "loading_after (snd (detail_dialogs p x)) (detail_pending p) = detail_pending (fst (detail_dialogs p x))" for x
    by (cases x) (auto simp: detail_pending_def detail_delete_request_def conversion_request_def)
  have deletion: "loading_after (snd (deletion_invalidated p)) (detail_pending p) = detail_pending (fst (deletion_invalidated p))"
    by (cases "dp_deletion p") (simp_all add: deletion_invalidated_def detail_pending_def)
  have created: "loading_after (snd (alias_creation_invalidated p)) (detail_pending p) = detail_pending (fst (alias_creation_invalidated p))"
    by (auto simp: alias_creation_invalidated_def detail_pending_def)
  have settled: "loading_after (snd (deletion_settled r p)) (detail_pending p) = detail_pending (fst (deletion_settled r p))" for r
    by (cases r) (auto simp: deletion_settled_def detail_pending_def)
  have converted: "loading_after (snd (conversion_settled r p)) (detail_pending p) = detail_pending (fst (conversion_settled r p))" for r
    by (cases r) (auto simp: conversion_settled_def detail_pending_def)
  have mapped: "loading_after (snd (alias_creation_settled r p)) (detail_pending p) = detail_pending (fst (alias_creation_settled r p))" for r
    by (cases r) (auto simp: alias_creation_settled_def detail_pending_def)
  have shown: "loading_after (snd (detail_visibility_settled v r p)) (detail_pending p) = detail_pending (fst (detail_visibility_settled v r p))" for v r
    by (cases r) (auto simp: detail_visibility_settled_def detail_pending_def)
  have started: "loading_after (snd (detail_visibility_button v p)) (detail_pending p) = detail_pending (fst (detail_visibility_button v p))"
    "loading_after (snd (detail_createAlias p)) (detail_pending p) = detail_pending (fst (detail_createAlias p))" for v
    by (auto simp: detail_visibility_button_def detail_visibility_request_def detail_createAlias_def alias_create_request_def detail_pending_def)
  have returns: "loading_after (returnToList p) L = L" for L
    by (simp add: returnToList_def)
  show "loading_after (snd (detail_step p e)) (detail_pending p) = detail_pending (fst (detail_step p e))"
    by (cases e) (simp_all add: entry dialogs deletion created settled converted mapped shown started returns detail_request_def, simp add: detail_pending_def)
qed

interpretation migration_messages: loading_messages migration_step migration_pending
proof
  fix p e
  have persist: "loading_after (migration_persist p p') L = L" for p' L
    by (simp add: migration_persist_def)
  have "loading_after (snd (migration_handle p e)) (migration_pending p) = migration_pending (fst (migration_handle p e))"
    by (cases e) (auto simp: migration_pending_def migration_params_effects_def migration_page_request_def refresh_settled_def
        refresh_invalidated_def migration_applyFilters_def migration_resetFilters_def setSearchParams_def migration_toolbar_def
        confirmDelete_def migration_dialog_def migration_delete_request_def migration_delete_settled_def migration_toast_def
        MigrationImageCard_def migration_toggleSelected_def migration_toolbar_buttons_def refresh_request_def Let_def
        split: sum.split option.split)
  then show "loading_after (snd (migration_step p e)) (migration_pending p) = migration_pending (fst (migration_step p e))"
    by (simp add: migration_step_def split_def Let_def persist)
qed

lemma visibility_toast_id_differs [simp]:
  "visibility_toast_id i \<noteq> ''batch-visibility''" "visibility_toast_id i \<noteq> ''batch-delete''"
  "''batch-visibility'' \<noteq> visibility_toast_id i" "''batch-delete'' \<noteq> visibility_toast_id i"
  by (simp_all add: visibility_toast_id_def)

interpretation library_messages: loading_messages "image_list_step c" image_list_pending
proof
  fix p e
  have persist: "loading_after (persist p p') L = L" for p' L
    by (simp add: persist_def)
  have sync: "loading_after (sync_apply v i) L = L" "loading_after (map (sync_cancel \<circ> f) xs) L = L" for v i xs L and f :: "batch_operation_item \<Rightarrow> string"
    by (simp add: sync_apply_def) (induction xs, simp_all add: sync_cancel_def)
  have batch: "message_step (showBatchToast rs i) L = L - {Some i}" for rs i L
    by (simp add: showBatchToast_def)
  have "loading_after (snd (image_list_handle c p e)) (image_list_pending p) = image_list_pending (fst (image_list_handle c p e))"
    by (cases e) (auto simp: image_list_pending_def sync batch params_effects_def setVisibilityFilter_def setSearchParams_def applyFilters_def
        resetFilters_def toggleSelected_def card_visibility_def visibility_request_def toolbar_step_def batch_visibility_request_def
        delete_dialog_def batch_delete_request_def visibility_settled_def visibility_synced_def sync_cancel_def batch_visibility_settled_def
        batch_visibility_done_def batch_visibility_synced_def batch_delete_settled_def image_page_request_def il_busy_def Let_def
        split: sum.split option.split batch_event.split)
  then show "loading_after (snd (image_list_step c p e)) (image_list_pending p) = image_list_pending (fst (image_list_step c p e))"
    by (simp add: image_list_step_def split_def Let_def persist)
qed

interpretation token_messages: loading_messages "token_step c" "\<lambda>_. {}"
proof
  fix p e
  show "loading_after (snd (token_step c p e)) {} = {}"
    by (cases e) (auto simp: token_submit_def token_created_def token_copy_def token_dialog_def token_revoked_def token_create_invalidated_def token_copied_def token_list_request_def
        token_create_request_def token_revoke_request_def Let_def split: sum.split option.split)
qed

section \<open>Properties\<close>


end
