(* ===== verification/Stored_Preferences.thy ===== *)
theory Stored_Preferences
  imports Image_List Migration
begin

text \<open>
  The preferences of the two libraries in the local storage: both pages write the ones they have when
  they are mounted and the ones that change, under keys of their own, and read them when they are
  mounted again. The locale \<open>stored_preferences\<close> states what a page does for this; both pages provide it.
\<close>

section \<open>The storage\<close>

text \<open>A storage that works, after the writes of a list of effects.\<close>

fun store_effect :: "effect \<Rightarrow> (string \<rightharpoonup> string) \<Rightarrow> (string \<rightharpoonup> string)" where
  "store_effect (Store_Item k v) m = m(k \<mapsto> v)"
| "store_effect _ m = m"

definition store_effects :: "effect list \<Rightarrow> (string \<rightharpoonup> string) \<Rightarrow> (string \<rightharpoonup> string)" where
  "store_effects xs m = fold store_effect xs m"

lemma store_effects_simps [simp]:
  "store_effects [] m = m" "store_effects (x # xs) m = store_effects xs (store_effect x m)"
  "store_effects (xs @ ys) m = store_effects ys (store_effects xs m)"
  by (simp_all add: store_effects_def)

text \<open>A write is what \<open>writeLocalStorage\<close> leaves in a storage that works.\<close>

lemma store_effect_write:
  "fst (writeLocalStorage (Some (m, False)) k v) = Some (store_effect (Store_Item k v) m, False)"
  by (simp add: writeLocalStorage_def)

definition holds_preferences :: "(string \<times> string) list \<Rightarrow> (string \<rightharpoonup> string) \<Rightarrow> bool" where
  "holds_preferences ps m \<longleftrightarrow> list_all (\<lambda>(k, v). m k = Some v) ps"

locale stored_preferences =
  fixes step :: "'s \<Rightarrow> 'e \<Rightarrow> 's \<times> effect list"
    and prefs :: "'s \<Rightarrow> (string \<times> string) list"
  assumes step_stores: "holds_preferences (prefs s) m \<Longrightarrow>
      holds_preferences (prefs (fst (step s e))) (store_effects (snd (step s e)) m)"
    and step_keys: "k \<notin> fst ` set (prefs s) \<Longrightarrow> store_effects (snd (step s e)) m k = m k"
    and same_keys: "map fst (prefs s) = map fst (prefs t)"
begin

lemma run_stores:
  "holds_preferences (prefs s) m \<Longrightarrow>
   holds_preferences (prefs (fst (run_steps step s es))) (store_effects (snd (run_steps step s es)) m)"
  by (induction es arbitrary: s m) (simp_all add: step_stores)

lemma key_sets: "fst ` set (prefs s) = fst ` set (prefs t)"
  using same_keys [of s t] by (metis image_set)

lemma run_keys: "k \<notin> fst ` set (prefs s) \<Longrightarrow> store_effects (snd (run_steps step s es)) m k = m k"
proof (induction es arbitrary: s m)
  case (Cons e es)
  then have "k \<notin> fst ` set (prefs (fst (step s e)))" using key_sets [of s "fst (step s e)"] by simp
  then show ?case using Cons step_keys by simp
qed simp

end

section \<open>The libraries\<close>

definition image_list_prefs :: "image_list_page \<Rightarrow> (string \<times> string) list" where
  "image_list_prefs p =
     [(filtersOpenStorageKey, bool_text (filtersOpen p)), (advancedFiltersOpenStorageKey, bool_text (advancedOpen p)),
      (viewModeStorageKey, view_mode_text (viewMode p))]"

definition migration_prefs :: "migration_page \<Rightarrow> (string \<times> string) list" where
  "migration_prefs p =
     [(migration_filtersOpenStorageKey, bool_text (mg_filtersOpen p)),
      (migration_viewModeStorageKey, view_mode_text (mg_viewMode p))]"

lemmas storage_keys =
  filtersOpenStorageKey_def advancedFiltersOpenStorageKey_def viewModeStorageKey_def
  migration_filtersOpenStorageKey_def migration_viewModeStorageKey_def

text \<open>No handler stores anything itself.\<close>

lemma no_stores: "list_all (\<lambda>x. \<forall>k v. x \<noteq> Store_Item k v) xs \<Longrightarrow> store_effects xs m = m"
proof (induction xs)
  case (Cons x xs)
  then show ?case by (cases x) simp_all
qed simp

lemma toast_no_store [simp]: "store_effect (toast_of t key i cs) m = m" "store_effect (plain_toast t key cs) m = m"
  "store_effect (setSearchParams ps) m = m" "store_effect (visibility_request i v) m = m"
  "store_effect (batch_visibility_request v ids) m = m" "store_effect (batch_delete_request ids) m = m"
  "store_effect (image_page_request ps c) m = m" "store_effect (sync_cancel i) m = m"
  "store_effect (showBatchToast rs i) m = m" "store_effects (sync_apply v i) m = m"
  "store_effect (migration_toast ms) m = m" "store_effect (migration_delete_request ids) m = m"
  "store_effect (migration_page_request ps c) m = m" "store_effect refresh_request m = m"
  by (simp_all add: toast_of_def plain_toast_def setSearchParams_def visibility_request_def batch_visibility_request_def
      batch_delete_request_def image_page_request_def sync_cancel_def showBatchToast_def sync_apply_def migration_toast_def
      migration_delete_request_def migration_page_request_def refresh_request_def Let_def)

lemma sync_cancels_no_store [simp]: "store_effects (map (sync_cancel \<circ> f) xs) m = m" "store_effects (map sync_cancel ys) m = m"
  by (induction xs, simp_all) (induction ys, simp_all)

lemma image_list_handle_stores: "store_effects (snd (image_list_handle c p e)) m = m"
proof (cases e)
  case (Toolbar b)
  then show ?thesis by (cases b) (simp_all add: toolbar_step_def)
qed (simp_all add: params_effects_def setVisibilityFilter_def applyFilters_def resetFilters_def toggleSelected_def
    delete_dialog_def card_visibility_def Let_def visibility_settled_def visibility_synced_def batch_visibility_settled_def
    batch_visibility_synced_def batch_visibility_done_def batch_delete_settled_def split: option.split sum.split)

lemma migration_handle_stores: "store_effects (snd (migration_handle p e)) m = m"
  by (cases e) (simp_all add: migration_params_effects_def migration_applyFilters_def migration_resetFilters_def
      migration_toggleSelected_def migration_dialog_def refresh_settled_def refresh_invalidated_def
      migration_delete_settled_def migration_toolbar_buttons_def MigrationImageCard_def split: option.split sum.split)

interpretation image_preferences: stored_preferences "image_list_step c" image_list_prefs for c
proof unfold_locales
  fix s m e and k :: string
  show "holds_preferences (image_list_prefs s) m \<Longrightarrow>
      holds_preferences (image_list_prefs (fst (image_list_step c s e))) (store_effects (snd (image_list_step c s e)) m)"
    by (simp add: image_list_step_def split_def Let_def image_list_handle_stores persist_def holds_preferences_def
        image_list_prefs_def storage_keys)
  show "k \<notin> fst ` set (image_list_prefs s) \<Longrightarrow> store_effects (snd (image_list_step c s e)) m k = m k"
    by (simp add: image_list_step_def split_def Let_def image_list_handle_stores persist_def image_list_prefs_def)
qed (simp add: image_list_prefs_def)

interpretation migration_preferences: stored_preferences migration_step migration_prefs
proof unfold_locales
  fix s m e and k :: string
  show "holds_preferences (migration_prefs s) m \<Longrightarrow>
      holds_preferences (migration_prefs (fst (migration_step s e))) (store_effects (snd (migration_step s e)) m)"
    by (simp add: migration_step_def split_def Let_def migration_handle_stores migration_persist_def holds_preferences_def
        migration_prefs_def storage_keys)
  show "k \<notin> fst ` set (migration_prefs s) \<Longrightarrow> store_effects (snd (migration_step s e)) m k = m k"
    by (simp add: migration_step_def split_def Let_def migration_handle_stores migration_persist_def migration_prefs_def)
qed (simp add: migration_prefs_def)

lemma mounts_store:
  "holds_preferences (image_list_prefs (image_list_init c w ps)) (store_effects (snd (image_list_mount c w ps)) m)"
  "holds_preferences (migration_prefs (migration_init w ps)) (store_effects (snd (migration_mount w ps)) m)"
  by (simp_all add: image_list_mount_def migration_mount_def Let_def holds_preferences_def image_list_prefs_def
      migration_prefs_def storage_keys)

lemma text_back [simp]: "bool_text b = ''true'' \<longleftrightarrow> b" "view_mode_text v = ''list'' \<longleftrightarrow> v = List_View"
  by (simp add: bool_text_def) (cases v; simp)

lemma view_mode_back: "(if v = List_View then List_View else Grid) = v"
  by (cases v) simp_all


end
