(* ===== verification/Journey.thy ===== *)
theory Journey
  imports Image_List Detail_Page
begin

text \<open>
  From the library to an image and back: a card of \<open>image-list-page.tsx\<close> remembers the scroll position
  and opens the page of the image with a state that says where it was opened from;
  \<open>image-detail-page.tsx\<close> goes back in the history, and the library restores the position. What lies
  between the two pages is the history of the browser, a list of entries with the current one first.
\<close>

section \<open>The card\<close>

text \<open>The link of a card: the path of the image and the state of the location, whose key the router gives.\<close>

definition card_path :: "image \<Rightarrow> string" where
  "card_path im = ''/admin/images/'' @ image_id im"

definition card_location :: "string \<Rightarrow> string \<Rightarrow> string \<Rightarrow> detail_location" where
  "card_location pathname search key =
     \<lparr>dl_key = key, dl_fromImageList = True, dl_returnTo = Some (pathname @ search)\<rparr>"

text \<open>Opening it remembers the position under the key of the library's entry.\<close>

definition card_open :: "string \<Rightarrow> jsnum \<Rightarrow> image list \<Rightarrow> scroll_positions \<Rightarrow> scroll_positions" where
  "card_open key scrollY images m = rememberScroll key scrollY (length images) m"

section \<open>The history\<close>

type_synonym history = "(string \<times> string) list"

definition visit :: "string \<Rightarrow> string \<Rightarrow> history \<Rightarrow> history" where
  "visit key path h = (key, path) # h"

fun go_back :: "history \<Rightarrow> history" where
  "go_back (e # e' # h) = e' # h"
| "go_back h = h"

text \<open>The entries after the navigations of a list of effects; \<open>key\<close> is the key of a new entry.\<close>

fun navigate_effect :: "string \<Rightarrow> effect \<Rightarrow> history \<Rightarrow> history" where
  "navigate_effect key Navigate_Back h = go_back h"
| "navigate_effect key (Navigate path replace) h = (key, path) # (if replace then tl h else h)"
| "navigate_effect key _ h = h"

definition history_after :: "string \<Rightarrow> effect list \<Rightarrow> history \<Rightarrow> history" where
  "history_after key xs h = fold (navigate_effect key) xs h"

lemma navigate_effect_none: "\<not> navigates x \<Longrightarrow> navigate_effect key x h = h"
  by (cases x) simp_all

lemma history_after_filter: "history_after key xs h = history_after key (filter navigates xs) h"
  by (induction xs arbitrary: h) (simp_all add: history_after_def navigate_effect_none)

section \<open>On the page of the image\<close>

text \<open>Whatever is done there short of leaving: anything but the history, the way back and the end of a deletion.\<close>

fun stays :: "detail_event \<Rightarrow> bool" where
  "stays (Entry _) = False"
| "stays Back_Button = False"
| "stays (Deletion_Settled _) = False"
| "stays Deletion_Invalidated = False"
| "stays _ = True"

definition in_front :: "detail_location \<Rightarrow> detail_page \<Rightarrow> bool" where
  "in_front loc p \<longleftrightarrow> dp_location p = loc \<and> dp_currentEntry p = Some (dl_key loc)"

lemma stays_step:
  assumes "in_front loc p" "stays e"
  shows "in_front loc (fst (detail_step p e)) \<and> list_all (\<lambda>x. \<not> navigates x) (snd (detail_step p e))"
proof (cases e)
  case (Detail_Button b)
  then show ?thesis using assms by (cases b) (simp_all add: in_front_def detail_delete_request_def conversion_request_def)
qed (use assms in \<open>simp_all add: in_front_def detail_visibility_button_def detail_visibility_request_def detail_visibility_settled_def
    conversion_settled_def detail_createAlias_def alias_create_request_def
    alias_creation_settled_def alias_creation_invalidated_def detail_request_def split: sum.split\<close>)

lemma stays_run:
  assumes "list_all stays es"
  shows "in_front loc (fst (run_steps detail_step (detail_init i loc) es)) \<and>
    list_all (\<lambda>x. \<not> navigates x) (snd (run_steps detail_step (detail_init i loc) es))"
  using run_steps_guarded [of "in_front loc" stays detail_step "\<lambda>x. \<not> navigates x", OF stays_step _ assms]
  by (simp add: in_front_def detail_init_def)

text \<open>
  C30: Opening an image from the library and deleting it, or pressing its back button, ends where the
  user was: whatever else was done on the page of the image, the lists are refreshed before the page
  goes back one entry of the history, that is to the library, which scrolls to the position it was left
  at as soon as the images that were loaded, or all there are, are loaded again.
\<close>

theorem deletion_returns_to_library:
  fixes im pathname search key key' k es images y m0 rest r q
  assumes "list_all stays es" "lq_isSuccess q" "length images \<le> lq_count q \<or> \<not> lq_hasNextPage q"
  defines "p \<equiv> fst (run_steps detail_step (detail_init (image_id im) (card_location pathname search key')) es)"
    and "out \<equiv> snd (run_steps detail_step (detail_init (image_id im) (card_location pathname search key')) es)"
    and "m \<equiv> card_open key y images m0"
    and "h \<equiv> visit key' (card_path im) ((key, pathname @ search) # rest)"
  assumes "dp_deletion p = Detail_Posting"
  shows "snd (run_steps detail_step p [Deletion_Settled (Inr r), Deletion_Invalidated]) =
      [toast_of Toast_Success (if di_cleanupPending r then ''toast.imageDeletedCleanup'' else ''toast.imageDeleted'') ''detail-delete'' [],
       Invalidate_Queries [''images''], Invalidate_Queries [''overview''], Navigate_Back] \<and>
    history_after k (out @ snd (run_steps detail_step p [Deletion_Settled (Inr r), Deletion_Invalidated])) h = (key, pathname @ search) # rest \<and>
    history_after k (out @ snd (detail_step p Back_Button)) h = (key, pathname @ search) # rest \<and>
    snd (restoreScroll q key m) = [Scroll_To y]"
proof -
  have front: "in_front (card_location pathname search key') p" and out: "filter navigates out = []"
    unfolding p_def out_def using stays_run [OF assms(1)] by (simp_all add: filter_empty_conv list_all_iff)
  have deleted: "snd (run_steps detail_step p [Deletion_Settled (Inr r), Deletion_Invalidated]) =
      [toast_of Toast_Success (if di_cleanupPending r then ''toast.imageDeletedCleanup'' else ''toast.imageDeleted'') ''detail-delete'' [],
       Invalidate_Queries [''images''], Invalidate_Queries [''overview''], Navigate_Back]"
    using front assms(8) by (simp add: deletion_settled_def deletion_invalidated_def in_front_def card_location_def)
  have goes_back: "snd (detail_step p Back_Button) = [Navigate_Back]"
    using front by (simp add: returnToList_def in_front_def card_location_def)
  have "history_after k (out @ xs) h = (key, pathname @ search) # rest" if "filter navigates xs = [Navigate_Back]" for xs
    using that by (subst history_after_filter) (simp add: out history_after_def h_def visit_def)
  moreover have "map_of m key = Some (y, length images)"
    unfolding m_def card_open_def by (rule kept_lookup [OF remember_new])
  ultimately show ?thesis
    using assms(2,3) unfolding deleted goes_back by (auto simp: restoreScroll_def)
qed

definition opened_image :: image where
  "opened_image = \<lparr>image_id = ''7'', originalName = ''cat.png'', mimeType = ''image/png'', extension = ''png'',
     width = 1, height = 1, sourceSize = 70, storedSize = 70, sourceSha256 = ''0'', storedSha256 = ''0'',
     processingSummary = \<lparr>action = ''keep'', sourceFormat = ''png'', storedFormat = ''png'', preserved = True,
       ps_compressionEnabled = False, ps_conversionEnabled = False, compressionRejected = None\<rparr>, image_visibility = Public, uploadedVia = ''admin'',
     standardUrl = ''/image/7.png'', thumbnailUrl = ''/thumbnail/7.png'', image_createdAt = ''2024-05-01T00:00:00Z''\<rparr>"

lemma deletion_returns_to_library_witness:
  "snd (restoreScroll \<lparr>lq_isSuccess = True, lq_hasNextPage = False, lq_isFetchingNextPage = False,
       lq_isFetchNextPageError = False, lq_count = 23\<rparr> ''k1''
     (card_open ''k1'' (Fin 900) [opened_image] [])) = [Scroll_To (Fin 900)]"
  using deletion_returns_to_library [where es = "[Detail_Button Delete_Image_Button, Detail_Button (Delete_Dialog True)]"
      and q = "\<lparr>lq_isSuccess = True, lq_hasNextPage = False, lq_isFetchingNextPage = False,
       lq_isFetchNextPageError = False, lq_count = 23\<rparr>" and images = "[opened_image]" and im = opened_image
      and pathname = "''/admin/images''" and search = "''?limit=24''" and key' = "''k2''" and k = "''k''" and key = "''k1''"
      and rest = "[]" and y = "Fin 900" and ?m0.0 = "[]"
      and r = "\<lparr>di_imageId = ''7'', imageFileDeleted = True, thumbnailDeleted = True, di_cleanupPending = False\<rparr>"]
  by (simp add: detail_init_def detail_delete_request_def)

end
