(* ===== verification/View.thy ===== *)
theory View
  imports Image_Links
begin

text \<open>
  What a page shows and offers, as assistive technology sees it: texts, fields and controls in the order
  of the markup, each control with its accessible name, with whether it is disabled, and with the event
  of its page it gives. Styles, icons, animations, placeholders and the attributes with which the browser
  checks a field (\<open>required\<close>, \<open>min\<close>, \<open>maxLength\<close>) are left out. The locale \<open>page_view\<close> relates what
  is shown to what the handlers do.
\<close>

section \<open>Texts\<close>

text \<open>
  A translated text is its key with the values it is given, as \<open>t\<close> takes them, which may be translated
  texts themselves; texts can be put together.
\<close>

datatype caption =
    Raw string
  | Tr string "(string \<times> string) list"
  | Fill string "(string \<times> caption) list"
  | Cat "caption list"

abbreviation say :: "string \<Rightarrow> caption" where
  "say key \<equiv> Tr key []"

definition counted :: "string \<Rightarrow> nat \<Rightarrow> caption" where
  "counted key n = Tr key [(''count'', decimal n)]"

text \<open>The multiplication sign and the middle dot between spaces, in UTF-8.\<close>

definition times_sign :: string where
  "times_sign = [CHR '' '', CHR 0xC3, CHR 0x97, CHR '' '']"

definition middle_dot :: string where
  "middle_dot = [CHR '' '', CHR 0xC2, CHR 0xB7, CHR '' '']"

section \<open>Elements\<close>

datatype role = Plain | Status | Alert

text \<open>A control can be used, is disabled, or is a choice that is already made.\<close>

datatype usage = Enabled | Disabled | Current

text \<open>
  A text with its role, a link, a picture with its text, a field of a form with its name, label and
  content, a day to pick with its minimum, a select with its options; a button, a button that is pressed or not,
  a checkbox, a controlled select whose options give events; the copy control of some images; a part of
  the page that is inert or not; a button of a group that says whether it is the chosen one, and a link
  that gives an event besides leading on.
\<close>

datatype 'e element =
    Note role caption
  | Link caption string
  | Picture caption string
  | Text_Field string caption string
  | Date_Field string caption string string
  | Select_Field string caption string "(string \<times> caption) list"
  | Button caption usage 'e
  | Toggle caption bool 'e
  | Checkbox caption bool usage 'e
  | Select_Box caption string usage "(string \<times> caption \<times> 'e) list"
  | Copy_Links "linkable_image list"
  | Region bool "'e element list"
  | Choice caption bool usage 'e
  | Jump caption string 'e

definition usable :: "bool \<Rightarrow> usage" where
  "usable disabled = (if disabled then Disabled else Enabled)"

lemma usable_simps [simp]:
  "usable True = Disabled" "usable False = Enabled" "usable d = Disabled \<longleftrightarrow> d" "Disabled = usable d \<longleftrightarrow> d"
  "usable d = Enabled \<longleftrightarrow> \<not> d" "Enabled = usable d \<longleftrightarrow> \<not> d" "usable d \<noteq> Current"
  by (auto simp: usable_def)

text \<open>The controls one can reach, with their usage: nothing in an inert part can be reached.\<close>

primrec controls :: "'e element \<Rightarrow> ('e \<times> usage) list" where
  "controls (Note r c) = []"
| "controls (Link c path) = []"
| "controls (Picture c src) = []"
| "controls (Text_Field n l v) = []"
| "controls (Date_Field n l v m) = []"
| "controls (Select_Field n l v os) = []"
| "controls (Button l u e) = [(e, u)]"
| "controls (Toggle l pressed e) = [(e, if pressed then Current else Enabled)]"
| "controls (Checkbox l checked u e) = [(e, u)]"
| "controls (Select_Box l v u os) = map (\<lambda>(w, _, e). (e, if u = Enabled \<and> w = v then Current else u)) os"
| "controls (Copy_Links ims) = []"
| "controls (Region hidden es) = (if hidden then [] else concat (map controls es))"
| "controls (Choice l chosen u e) = [(e, u)]"
| "controls (Jump l path e) = [(e, Enabled)]"

definition offered :: "'e element list \<Rightarrow> ('e \<times> usage) list" where
  "offered es = concat (map controls es)"

lemma offered_simps [simp]:
  "offered [] = []" "offered (x # es) = controls x @ offered es" "offered (es @ fs) = offered es @ offered fs"
  by (simp_all add: offered_def)

lemma controls_Region [simp]: "controls (Region hidden es) = (if hidden then [] else offered es)"
  by (simp add: offered_def)

lemma offered_concat: "set (offered (concat ess)) = (\<Union>es \<in> set ess. set (offered es))"
  by (induction ess) simp_all

declare controls.simps(12) [simp del]

text \<open>The notes one can read, inert parts left out.\<close>

primrec element_notes :: "'e element \<Rightarrow> (role \<times> caption) list" where
  "element_notes (Note r c) = [(r, c)]"
| "element_notes (Link c path) = []"
| "element_notes (Picture c src) = []"
| "element_notes (Text_Field n l v) = []"
| "element_notes (Date_Field n l v m) = []"
| "element_notes (Select_Field n l v os) = []"
| "element_notes (Button l u e) = []"
| "element_notes (Toggle l pressed e) = []"
| "element_notes (Checkbox l checked u e) = []"
| "element_notes (Select_Box l v u os) = []"
| "element_notes (Copy_Links ims) = []"
| "element_notes (Region hidden es) = (if hidden then [] else concat (map element_notes es))"
| "element_notes (Choice l chosen u e) = []"
| "element_notes (Jump l path e) = []"

definition readable :: "'e element list \<Rightarrow> (role \<times> caption) list" where
  "readable es = concat (map element_notes es)"

lemma readable_simps [simp]:
  "readable [] = []" "readable (x # es) = element_notes x @ readable es" "readable (es @ fs) = readable es @ readable fs"
  by (simp_all add: readable_def)

lemma notes_Region [simp]: "element_notes (Region hidden es) = (if hidden then [] else readable es)"
  by (simp add: readable_def)

declare element_notes.simps(12) [simp del]

section \<open>Shared parts\<close>

definition shown_if :: "bool \<Rightarrow> 'e element list \<Rightarrow> 'e element list" where
  "shown_if b es = (if b then es else [])"

lemma shown_if_simps [simp]: "shown_if True es = es" "shown_if False es = []"
  by (simp_all add: shown_if_def)

lemma set_offered_shown [simp]: "set (offered (shown_if b es)) = (if b then set (offered es) else {})"
  by (simp add: shown_if_def)

text \<open>A term with its value.\<close>

definition entry :: "string \<Rightarrow> caption \<Rightarrow> 'e element list" where
  "entry label v = [Note Plain (say label), Note Plain v]"

lemma offered_entry [simp]: "offered (entry label v) = []"
  by (simp add: entry_def)

text \<open>
  \<open>confirm-dialog.tsx\<close>: the cross, which is never disabled, cancels unless the confirmation is pending,
  when both buttons are disabled.
\<close>

definition ConfirmDialog ::
    "bool \<Rightarrow> bool \<Rightarrow> caption \<Rightarrow> caption \<Rightarrow> caption \<Rightarrow> 'e \<Rightarrow> 'e \<Rightarrow> 'e element list" where
  "ConfirmDialog is_open pending title description confirmLabel onCancel onConfirm =
     shown_if is_open
       [Button (say ''common.close'') Enabled onCancel, Note Plain title, Note Plain description,
        Button (say ''common.cancel'') (usable pending) onCancel, Button confirmLabel (usable pending) onConfirm]"

text \<open>A page with its dialog: while the dialog is open, what is behind it is inert (theory \<open>Modal\<close>).\<close>

definition behind :: "bool \<Rightarrow> 'e element list \<Rightarrow> 'e element list \<Rightarrow> 'e element list" where
  "behind is_open page dialog = Region is_open page # dialog"

lemma set_offered_behind [simp]:
  "set (offered (behind is_open page dialog)) = (if is_open then {} else set (offered page)) \<union> set (offered dialog)"
  by (auto simp: behind_def)

lemma set_offered_dialog [simp]:
  "set (offered (ConfirmDialog is_open pending title description confirmLabel onCancel onConfirm)) =
     (if is_open then {(onCancel, Enabled), (onCancel, usable pending), (onConfirm, usable pending)} else {})"
  by (auto simp: ConfirmDialog_def)

text \<open>The result of a query, and that of an infinite one, in which a next page exists as its last page says.\<close>

record 'd query_view =
  qv_loading :: bool
  qv_error :: bool
  qv_data :: "'d option"

record 'p pages_result =
  pr_loading :: bool
  pr_error :: bool
  pr_fetchingNext :: bool
  pr_pages :: "'p list"

definition next_cursor :: "('p \<Rightarrow> string option) \<Rightarrow> 'p pages_result \<Rightarrow> string option" where
  "next_cursor next_of q = (if pr_pages q = [] then None else next_of (last (pr_pages q)))"

definition load_more :: "('p \<Rightarrow> string option) \<Rightarrow> (string \<Rightarrow> 'e) \<Rightarrow> 'p pages_result \<Rightarrow> 'e element list" where
  "load_more next_of load q =
     (case next_cursor next_of q of None \<Rightarrow> []
      | Some c \<Rightarrow> [Button (say (if pr_fetchingNext q then ''common.loading'' else ''images.loadMore''))
                     (usable (pr_fetchingNext q)) (load c)])"

section \<open>Views and handlers\<close>

text \<open>
  The contract between the view of a page and its step function: a disabled control is one whose event
  does nothing, so that a handler needs no guard but the attribute, and an enabled one is answered, by
  a change or an effect. Two kinds of events are set apart: those for the query library (\<open>outside\<close>), whose
  state disables them, and those a page ignores though their control is not disabled (\<open>deaf\<close>).
\<close>

definition answers_event ::
    "('s \<Rightarrow> 'e \<Rightarrow> 's \<times> 'o list) \<Rightarrow> ('e \<Rightarrow> bool) \<Rightarrow> ('s \<Rightarrow> 'e \<Rightarrow> bool) \<Rightarrow> 's \<Rightarrow> 'e \<times> usage \<Rightarrow> bool" where
  "answers_event step outside deaf s eu =
     (case snd eu of
        Disabled \<Rightarrow> outside (fst eu) \<or> step s (fst eu) = (s, [])
      | Enabled \<Rightarrow> deaf s (fst eu) \<or> step s (fst eu) \<noteq> (s, [])
      | Current \<Rightarrow> True)"

definition answers ::
    "('s \<Rightarrow> 'e \<Rightarrow> 's \<times> 'o list) \<Rightarrow> ('e \<Rightarrow> bool) \<Rightarrow> ('s \<Rightarrow> 'e \<Rightarrow> bool) \<Rightarrow> 's \<Rightarrow> 'e element list \<Rightarrow> bool" where
  "answers step outside deaf s es = list_all (answers_event step outside deaf s) (offered es)"

lemma answers_event_simps [simp]:
  "answers_event step outside deaf s (e, Disabled) \<longleftrightarrow> outside e \<or> step s e = (s, [])"
  "answers_event step outside deaf s (e, Enabled) \<longleftrightarrow> deaf s e \<or> step s e \<noteq> (s, [])"
  "answers_event step outside deaf s (e, Current)"
  by (simp_all add: answers_event_def)

lemma answers_simps [simp]:
  "answers step outside deaf s []"
  "answers step outside deaf s (x # es) \<longleftrightarrow>
     list_all (answers_event step outside deaf s) (controls x) \<and> answers step outside deaf s es"
  "answers step outside deaf s (es @ fs) \<longleftrightarrow> answers step outside deaf s es \<and> answers step outside deaf s fs"
  "answers step outside deaf s (shown_if b es) \<longleftrightarrow> (b \<longrightarrow> answers step outside deaf s es)"
  "list_all (answers_event step outside deaf s) (offered es) \<longleftrightarrow> answers step outside deaf s es"
  by (simp_all add: answers_def shown_if_def)

lemma answers_concat_map:
  "(\<And>x. x \<in> set xs \<Longrightarrow> answers step outside deaf s (f x)) \<Longrightarrow> answers step outside deaf s (concat (map f xs))"
  by (induction xs) simp_all

lemma answers_behind:
  "answers step outside deaf s (behind is_open page dialog) \<longleftrightarrow>
     (is_open \<or> answers step outside deaf s page) \<and> answers step outside deaf s dialog"
  by (simp add: behind_def)

lemma answers_entry [simp]: "answers step outside deaf s (entry label v)"
  by (simp add: answers_def)

lemma answers_usable: "answers_event step outside deaf s (e, usable d) \<longleftrightarrow>
    (if d then outside e \<or> step s e = (s, []) else deaf s e \<or> step s e \<noteq> (s, []))"
  by (simp add: usable_def)

lemma answers_select:
  assumes "\<And>w c e. (w, c, e) \<in> set os \<Longrightarrow> disabled \<Longrightarrow> step s e = (s, [])"
    and "\<And>w c e. (w, c, e) \<in> set os \<Longrightarrow> \<not> disabled \<Longrightarrow> w \<noteq> v \<Longrightarrow> step s e \<noteq> (s, [])"
  shows "list_all (answers_event step outside deaf s) (controls (Select_Box l v (usable disabled) os))"
  unfolding list_all_iff
proof
  fix x
  assume "x \<in> set (controls (Select_Box l v (usable disabled) os))"
  then obtain w c e where x: "(w, c, e) \<in> set os" "x = (e, if usable disabled = Enabled \<and> w = v then Current else usable disabled)"
    by auto
  show "answers_event step outside deaf s x" using assms [OF x(1)] by (cases disabled) (auto simp: x(2))
qed

lemma answers_load_more:
  assumes "\<And>c. outside (load c)" "\<And>c. step s (load c) \<noteq> (s, [])"
  shows "answers step outside deaf s (load_more next_of load q)"
  using assms by (simp add: load_more_def answers_usable split: option.split)

locale page_view = reactive step inv
  for step :: "'s \<Rightarrow> 'e \<Rightarrow> 's \<times> 'o list" and inv +
  fixes view :: "'s \<Rightarrow> 'e element list"
    and outside :: "'e \<Rightarrow> bool"
    and deaf :: "'s \<Rightarrow> 'e \<Rightarrow> bool"
  assumes view_answers: "inv s \<Longrightarrow> answers step outside deaf s (view s)"
begin

lemma disabled_idle: "inv s \<Longrightarrow> (e, Disabled) \<in> set (offered (view s)) \<Longrightarrow> \<not> outside e \<Longrightarrow> step s e = (s, [])"
  using view_answers [of s] by (auto simp: answers_def list_all_iff)

lemma reached_answers: "inv s \<Longrightarrow> answers step outside deaf (fst (run_steps step s es)) (view (fst (run_steps step s es)))"
  by (rule view_answers [OF run_inv])

text \<open>The events of a run without those of controls that were disabled when they were used.\<close>

fun heeded :: "'s \<Rightarrow> 'e list \<Rightarrow> 'e list" where
  "heeded s [] = []"
| "heeded s (e # es) =
     (if (e, Disabled) \<in> set (offered (view s)) \<and> \<not> outside e then heeded s es
      else e # heeded (fst (step s e)) es)"

lemma heeded_run: "inv s \<Longrightarrow> run_steps step s (heeded s es) = run_steps step s es"
proof (induction es arbitrary: s)
  case (Cons e es)
  show ?case
  proof (cases "(e, Disabled) \<in> set (offered (view s)) \<and> \<not> outside e")
    case True
    then show ?thesis using Cons disabled_idle [of s e] by (simp add: run_steps.simps(2) split_def)
  next
    case False
    then have "heeded s (e # es) = e # heeded (fst (step s e)) es" by auto
    then show ?thesis using Cons step_inv [of s e] by (simp add: run_steps.simps(2) split_def)
  qed
qed simp

end

end
