(* ===== verification/Library_View.thy ===== *)
theory Library_View
  imports Migration View
begin

text \<open>
  What the two libraries show: the markup of \<open>image-list-page.tsx\<close> and of \<open>migration-image-page.tsx\<close>,
  from the state of the page, the result \<open>q\<close> of its infinite query and the content \<open>f\<close> of its filter
  form. \<open>local\<close> writes a time as the browser does in the language of the page, \<open>narrow\<close> is the match
  of the media query.
\<close>

section \<open>Fields\<close>

definition FilterField :: "string \<Rightarrow> string \<Rightarrow> string \<Rightarrow> 'e element" where
  "FilterField name label value = Text_Field name (say label) value"

definition SelectField :: "string \<Rightarrow> string \<Rightarrow> string \<Rightarrow> (string \<times> caption) list \<Rightarrow> 'e element" where
  "SelectField name label value options = Select_Field name (say label) value options"

text \<open>The directory's page has its own copies of the two fields.\<close>

definition migration_FilterField :: "string \<Rightarrow> string \<Rightarrow> string \<Rightarrow> 'e element" where
  "migration_FilterField name label value = Text_Field name (say label) value"

definition migration_SelectField :: "string \<Rightarrow> string \<Rightarrow> string \<Rightarrow> (string \<times> caption) list \<Rightarrow> 'e element" where
  "migration_SelectField name label value options = Select_Field name (say label) value options"

definition DateFilterField :: "string \<Rightarrow> string \<Rightarrow> string \<Rightarrow> string \<Rightarrow> 'e element" where
  "DateFilterField label name value mn = Date_Field name (say label) value mn"

definition visibility_caption :: "visibility \<Rightarrow> caption" where
  "visibility_caption v = say (''visibility.'' @ visibility_text v)"

definition visibility_options :: "(string \<times> caption) list" where
  "visibility_options =
     [([], say ''common.all''), (''public'', visibility_caption Public), (''private'', visibility_caption Private)]"

definition format_options :: "(string \<times> caption) list" where
  "format_options =
     [([], say ''common.all''), (''jpeg'', Raw ''JPEG''), (''png'', Raw ''PNG''), (''webp'', Raw ''WebP''), (''gif'', Raw ''GIF'')]"

definition migration_format_options :: "(string \<times> caption) list" where
  "migration_format_options =
     [([], say ''common.all''), (''jpeg'', Raw ''JPEG''), (''png'', Raw ''PNG''), (''webp'', Raw ''WebP''), (''gif'', Raw ''GIF'')]"

definition source_options :: "(string \<times> caption) list" where
  "source_options =
     [([], say ''common.all''), (''admin'', say ''images.source.admin''), (''api_token'', say ''images.source.api_token''),
      (''import'', say ''images.source.import'')]"

section \<open>The image library\<close>

definition library_heading :: "image_list_event element list" where
  "library_heading =
     [Note Plain (say ''images.eyebrow''), Note Plain (say ''images.title''), Note Plain (say ''images.description''),
      Button (say ''images.uploadAction'') Enabled Upload_Action]"

text \<open>A button of the visibilities is pressed, but can still be used, when it is the filter in use.\<close>

definition filter_pressed :: "string \<Rightarrow> params \<Rightarrow> bool" where
  "filter_pressed value ps \<longleftrightarrow>
     params_get (params_parse (normalizedFilterQuery ps)) ''visibility'' = (if value = [] then None else Some value)"

definition library_visibility :: "image_list_page \<Rightarrow> image_list_event element list" where
  "library_visibility p =
     map (\<lambda>(value, label). Toggle label (filter_pressed value (il_params p)) (Visibility_Filter value))
       [([], say ''images.allImages''), (''public'', visibility_caption Public), (''private'', visibility_caption Private)]"

definition library_tools :: "image_list_page \<Rightarrow> image_list_event element list" where
  "library_tools p =
     [Button (say (if filtersOpen p then ''images.hideFilters'' else ''images.showFilters'')) Enabled Toggle_Filters] @
     shown_if (0 < activeFilterCount (il_params p))
       [Note Plain (counted ''images.activeFilterCount'' (activeFilterCount (il_params p))),
        Button (say ''images.clearFilters'') Enabled Reset_Filters] @
     [Toggle (say ''images.grid'') (viewMode p = Grid) (Set_View Grid),
      Toggle (say ''images.list'') (viewMode p = List_View) (Set_View List_View)]"

definition advanced_fields :: "filter_form \<Rightarrow> image_list_page \<Rightarrow> image_list_event element list" where
  "advanced_fields f p =
     [DateFilterField ''images.createdFrom'' ''createdFrom'' (createdFrom p) [],
      DateFilterField ''images.createdTo'' ''createdTo'' (createdTo p) (createdFrom p),
      FilterField ''minMiB'' ''images.minSize'' (ff_minMiB f), FilterField ''maxMiB'' ''images.maxSize'' (ff_maxMiB f),
      FilterField ''minWidth'' ''images.minWidth'' (ff_minWidth f), FilterField ''maxWidth'' ''images.maxWidth'' (ff_maxWidth f),
      FilterField ''minHeight'' ''images.minHeight'' (ff_minHeight f), FilterField ''maxHeight'' ''images.maxHeight'' (ff_maxHeight f)]"

definition filter_panel :: "bool \<Rightarrow> filter_form \<Rightarrow> image_list_page \<Rightarrow> image_list_event element" where
  "filter_panel narrow f p =
     Region (\<not> filtersOpen p)
       [Note Plain (say ''images.filters''),
        FilterField ''q'' ''images.search'' (ff_q f),
        SelectField ''visibility'' ''images.visibility'' (ff_visibility f) visibility_options,
        SelectField ''format'' ''images.format'' (ff_format f) format_options,
        SelectField ''uploadedVia'' ''images.uploadedVia'' (ff_uploadedVia f) source_options,
        Button (say ''images.advancedFilters'') Enabled Toggle_Advanced,
        Region (\<not> advancedOpen p) (advanced_fields f p),
        Button (say ''images.applyFilters'') Enabled (Apply_Filters f narrow),
        Button (say ''images.resetFilters'') Enabled Reset_Filters]"

text \<open>
  What stands in for the images; trying again asks for the first page anew, and the way on from an
  empty library is an upload, from empty results the library without filters.
\<close>

definition unfiltered :: "params \<Rightarrow> bool" where
  "unfiltered ps \<longleftrightarrow> normalizedFilterQuery ps = ''limit=24''"

definition loaded_images :: "image_list pages_result \<Rightarrow> image list" where
  "loaded_images q = concat (map image_items (pr_pages q))"

definition library_notice :: "image_list pages_result \<Rightarrow> image_list_page \<Rightarrow> image_list_event element list" where
  "library_notice q p =
     shown_if (pr_loading q) [Note Status (say ''common.loading'')] @
     shown_if (pr_error q)
       [Note Alert (say ''images.failed''), Button (say ''images.retryLoad'') Enabled (Load_Page [])] @
     shown_if (\<not> pr_loading q \<and> \<not> pr_error q \<and> loaded_images q = [])
       [Note Plain (say (if unfiltered (il_params p) then ''images.emptyLibrary'' else ''images.emptyFiltered'')),
        if unfiltered (il_params p) then Button (say ''images.uploadAction'') Enabled Upload_Action
        else Button (say ''images.clearFilters'') Enabled Reset_Filters]"

definition linkable :: "image \<Rightarrow> linkable_image" where
  "linkable im = \<lparr>link_name = originalName im, link_url = standardUrl im\<rparr>"

definition visibility_action :: "visibility \<Rightarrow> caption" where
  "visibility_action v = say (if v = Public then ''images.makePrivate'' else ''images.makePublic'')"

definition card_facts :: "image \<Rightarrow> string" where
  "card_facts im = decimal (width im) @ times_sign @ decimal (height im) @ middle_dot @ extension im @ middle_dot @
     formatBytes (storedSize im)"

definition ImageCard :: "(string \<Rightarrow> string) \<Rightarrow> image_list_page \<Rightarrow> image \<Rightarrow> image_list_event element list" where
  "ImageCard local p im =
     [Link (Raw (originalName im)) (''/admin/images/'' @ image_id im), Picture (Raw (originalName im)) (thumbnailUrl im),
      Checkbox (Tr ''images.selectImage'' [(''name'', originalName im)]) (image_id im \<in> set (selected p)) (usable (il_busy p))
        (Toggle_Selected (image_id im)),
      Link (Raw (originalName im)) (''/admin/images/'' @ image_id im),
      Note Plain (visibility_caption (image_visibility im)), Note Plain (Raw (card_facts im)),
      Note Plain (Raw (local (image_createdAt im))),
      Button (visibility_action (image_visibility im)) (usable (il_busy p)) (Card_Visibility (image_id im) (image_visibility im)),
      Copy_Links [linkable im]]"

definition loaded_count :: "image list \<Rightarrow> 'e element list" where
  "loaded_count ims = shown_if (ims \<noteq> []) [Note Plain (counted ''images.loadedCount'' (length ims))]"

definition floating_toolbar :: "image list \<Rightarrow> image_list_page \<Rightarrow> image_list_event element list" where
  "floating_toolbar ims p =
     shown_if (selected p \<noteq> [])
       [Note Plain (counted ''images.selected'' (length (selected p))), Copy_Links (map linkable (selectedImages ims p)),
        Button (say ''images.makePublic'') (usable (il_busy p)) (Toolbar (Make_Visibility Public)),
        Button (say ''images.makePrivate'') (usable (il_busy p)) (Toolbar (Make_Visibility Private)),
        Button (say ''common.delete'') (usable (il_busy p)) (Toolbar Delete_Button),
        Button (say ''common.clear'') (usable (il_busy p)) (Toolbar Clear_Selection)]"

definition image_list_view ::
    "(string \<Rightarrow> string) \<Rightarrow> bool \<Rightarrow> filter_form \<Rightarrow> image_list pages_result \<Rightarrow> image_list_page \<Rightarrow> image_list_event element list" where
  "image_list_view local narrow f q p =
     behind (deleteConfirmOpen p)
       (library_heading @ library_visibility p @ library_tools p @ [filter_panel narrow f p] @ library_notice q p @
        concat (map (ImageCard local p) (loaded_images q)) @ loaded_count (loaded_images q) @
        load_more image_next_page Load_Page q @ floating_toolbar (loaded_images q) p)
       (ConfirmDialog (deleteConfirmOpen p) (batchDelete p \<noteq> None) (say ''images.deleteSelectionTitle'')
          (counted ''images.confirmBatchDelete'' (length (deleteSnapshot p))) (say ''images.deletePermanently'')
          Dialog_Cancel Dialog_Confirm)"

section \<open>The migration library\<close>

definition migration_heading :: "migration_page \<Rightarrow> migration_event element list" where
  "migration_heading p =
     [Note Plain (say ''migrations.eyebrow''), Note Plain (say ''migrations.title''), Note Plain (say ''migrations.description''),
      Button (say (if mg_filtersOpen p then ''images.hideFilters'' else ''images.showFilters'')) Enabled Mg_Toggle_Filters,
      Button (say ''migrations.refresh'') (usable (mg_refresh p \<noteq> Refresh_Idle)) Mg_Refresh,
      Toggle (say ''images.grid'') (mg_viewMode p = Grid) (Mg_Set_View Grid),
      Toggle (say ''images.list'') (mg_viewMode p = List_View) (Mg_Set_View List_View)]"

text \<open>Whether the directory may be changed, once that is known, and how many files were left out.\<close>

definition migration_mode :: "migration_image_list pages_result \<Rightarrow> migration_page \<Rightarrow> migration_event element list" where
  "migration_mode q p =
     shown_if (\<not> pr_loading q \<and> \<not> pr_error q)
       [Note Status (say (if mg_enabled p then ''migrations.writableTitle'' else ''migrations.readOnlyTitle'')),
        Note Status (say (if mg_enabled p then ''migrations.writableHelp'' else ''migrations.readOnlyHelp''))] @
     shown_if (0 < mg_skippedFiles p) [Note Status (counted ''migrations.skippedFiles'' (mg_skippedFiles p))]"

definition migration_panel :: "bool \<Rightarrow> migration_form \<Rightarrow> migration_page \<Rightarrow> migration_event element" where
  "migration_panel narrow f p =
     Region (\<not> mg_filtersOpen p)
       [Note Plain (say ''images.filters''), migration_FilterField ''q'' ''images.search'' (mf_q f),
        migration_SelectField ''format'' ''images.format'' (mf_format f) migration_format_options,
        migration_FilterField ''minMiB'' ''images.minSize'' (mf_minMiB f),
        migration_FilterField ''maxMiB'' ''images.maxSize'' (mf_maxMiB f),
        Button (say ''images.applyFilters'') Enabled (Mg_Apply f narrow), Button (say ''images.resetFilters'') Enabled Mg_Reset]"

definition migration_notice :: "migration_image_list pages_result \<Rightarrow> migration_page \<Rightarrow> migration_event element list" where
  "migration_notice q p =
     shown_if (pr_loading q) [Note Status (say ''migrations.scanning'')] @
     shown_if (pr_error q) [Note Plain (say ''migrations.failed'')] @
     shown_if (\<not> pr_loading q \<and> \<not> pr_error q \<and> migration_images p = []) [Note Plain (say ''migrations.empty'')]"

text \<open>The extension without its dot, and the time in the list only.\<close>

definition migration_facts :: "migration_image \<Rightarrow> string" where
  "migration_facts im = to_upper (remove1 CHR ''.'' (mi_extension im)) @ middle_dot @ formatBytes (mi_storedSize im)"

definition migration_card :: "(string \<Rightarrow> string) \<Rightarrow> migration_page \<Rightarrow> migration_image \<Rightarrow> migration_event element list" where
  "migration_card local p im =
     (let path = [(''path'', displayPath (mi_path im))]; disabled = (mg_batchDelete p \<noteq> None)
      in [Picture (Raw (mi_originalName im)) (mi_standardUrl im)] @
         shown_if (mg_enabled p)
           [Checkbox (Tr ''migrations.selectImage'' path) (mi_path im \<in> set (mg_selected p)) (usable disabled) (Mg_Toggle (mi_path im))] @
         [Note Plain (Raw (mi_originalName im)), Note Plain (say ''migrations.badge''), Note Plain (Raw (displayPath (mi_path im))),
          Note Plain (Raw (migration_facts im))] @
         shown_if (mg_viewMode p = List_View) [Note Plain (Raw (local (modifiedAt im)))] @
         [Copy_Links [\<lparr>link_name = mi_originalName im, link_url = mi_standardUrl im\<rparr>],
          Link (Tr ''migrations.openImage'' path) (mi_standardUrl im)] @
         shown_if (mg_enabled p) [Button (Tr ''migrations.deleteImage'' path) (usable disabled) (Mg_Card_Delete (mi_path im))])"

definition migration_floating :: "migration_page \<Rightarrow> migration_event element list" where
  "migration_floating p =
     shown_if (mg_selected p \<noteq> [])
       [Note Plain (counted ''images.selected'' (length (mg_selected p))),
        Button (say ''common.delete'') (usable (mg_batchDelete p \<noteq> None)) (Mg_Toolbar True),
        Button (say ''common.clear'') (usable (mg_batchDelete p \<noteq> None)) (Mg_Toolbar False)]"

definition migration_next_page :: "migration_image_list \<Rightarrow> string option" where
  "migration_next_page pg = (case mi_nextCursor pg of Some c \<Rightarrow> if c = [] then None else Some c | None \<Rightarrow> None)"

definition migration_view ::
    "(string \<Rightarrow> string) \<Rightarrow> bool \<Rightarrow> migration_form \<Rightarrow> bool \<Rightarrow> bool \<Rightarrow> bool \<Rightarrow> migration_page \<Rightarrow> migration_event element list" where
  "migration_view local narrow f loading failed fetching p =
     (let q = \<lparr>pr_loading = loading, pr_error = failed, pr_fetchingNext = fetching, pr_pages = mg_pages p\<rparr>;
          one = (length (mg_deleteSnapshot p) = 1)
      in behind (mg_deleteConfirmOpen p)
           (migration_heading p @ migration_mode q p @ [migration_panel narrow f p] @ migration_notice q p @
            concat (map (migration_card local p) (migration_images p)) @ load_more migration_next_page Mg_Load_Page q @
            migration_floating p)
           (ConfirmDialog (mg_deleteConfirmOpen p) (mg_batchDelete p \<noteq> None)
              (say (if one then ''migrations.deleteImageTitle'' else ''migrations.deleteSelectionTitle''))
              (if one then Tr ''migrations.confirmDelete'' [(''path'', displayPath (hd (mg_deleteSnapshot p)))]
               else counted ''migrations.confirmBatchDelete'' (length (mg_deleteSnapshot p)))
              (say ''images.deletePermanently'') (Mg_Dialog False) (Mg_Dialog True)))"

section \<open>The image library answers\<close>

text \<open>While the deletion is pending, the cross of its dialog can be pressed but does nothing.\<close>

definition image_list_deaf :: "image_list_page \<Rightarrow> image_list_event \<Rightarrow> bool" where
  "image_list_deaf p e \<longleftrightarrow> e = Dialog_Cancel \<and> batchDelete p \<noteq> None"

fun loads_page :: "image_list_event \<Rightarrow> bool" where
  "loads_page (Load_Page c) = True"
| "loads_page e = False"

lemma image_list_idle: "image_list_step c p e = (p, []) \<longleftrightarrow> image_list_handle c p e = (p, [])"
  by (cases "image_list_handle c p e") (auto simp: image_list_step_def persist_def)

lemmas field_defs = FilterField_def SelectField_def migration_FilterField_def migration_SelectField_def DateFilterField_def

lemma page_updates:
  "p\<lparr>selected := xs\<rparr> = p \<longleftrightarrow> xs = selected p" "p\<lparr>deleteConfirmOpen := b, deleteSnapshot := ys\<rparr> = p \<longleftrightarrow> b = deleteConfirmOpen p \<and> ys = deleteSnapshot p"
  "p\<lparr>deleteSnapshot := ys, deleteConfirmOpen := b\<rparr> = p \<longleftrightarrow> b = deleteConfirmOpen p \<and> ys = deleteSnapshot p"
  "p\<lparr>filtersOpen := b\<rparr> = p \<longleftrightarrow> b = filtersOpen p" "p\<lparr>advancedOpen := b\<rparr> = p \<longleftrightarrow> b = advancedOpen p"
  "p\<lparr>viewMode := v\<rparr> = p \<longleftrightarrow> v = viewMode p"
  by (cases p; auto)+

lemma jset_changes: "i \<in> set xs \<Longrightarrow> jset_delete i xs \<noteq> xs" "i \<notin> set xs \<Longrightarrow> jset_add i xs \<noteq> xs"
  by (metis Diff_iff insertI1 set_jset_delete) (simp add: jset_add_def)

interpretation library_view: page_view "image_list_step c" "\<lambda>_. True" "image_list_view local narrow f q" loads_page image_list_deaf
proof (unfold_locales, rule TrueI)
  fix p
  have cards: "answers (image_list_step c) loads_page image_list_deaf p (ImageCard local p im)" for im
    by (cases "il_busy p"; cases "image_id im \<in> set (selected p)")
      (auto simp: ImageCard_def answers_usable image_list_idle toggleSelected_def card_visibility_def Let_def page_updates jset_changes)
  have bar: "\<not> deleteConfirmOpen p \<Longrightarrow> answers (image_list_step c) loads_page image_list_deaf p (floating_toolbar ims p)" for ims
    by (simp add: floating_toolbar_def answers_usable image_list_idle toolbar_step_def page_updates)
  have tools: "answers (image_list_step c) loads_page image_list_deaf p (library_visibility p @ library_tools p)"
    by (simp add: library_visibility_def library_tools_def image_list_idle setVisibilityFilter_def resetFilters_def page_updates split: view_mode.split)
  have panel: "answers (image_list_step c) loads_page image_list_deaf p [filter_panel narrow f p]"
    by (simp add: filter_panel_def advanced_fields_def field_defs image_list_idle applyFilters_def resetFilters_def page_updates)
  have notice: "answers (image_list_step c) loads_page image_list_deaf p (library_notice q p)"
    by (simp add: library_notice_def image_list_idle resetFilters_def)
  have dialog: "answers (image_list_step c) loads_page image_list_deaf p
    (ConfirmDialog (deleteConfirmOpen p) (batchDelete p \<noteq> None) t d l Dialog_Cancel Dialog_Confirm)" for t d l
    by (auto simp: ConfirmDialog_def answers_usable image_list_idle delete_dialog_def image_list_deaf_def page_updates)
  show "answers (image_list_step c) loads_page image_list_deaf p (image_list_view local narrow f q p)"
    using tools panel
    by (simp del: not_None_eq add: image_list_view_def answers_behind answers_load_more answers_concat_map image_list_idle
      library_heading_def cards notice dialog loaded_count_def) (use bar in blast)
qed

section \<open>The migration library answers\<close>

text \<open>
  Its deletion button ignores the user in one more case: when the directory has become read-only while
  images are selected, the toolbar for the selection stays, its button enabled, but \<open>confirmDelete\<close>
  returns at once.
\<close>

definition migration_deaf :: "migration_page \<Rightarrow> migration_event \<Rightarrow> bool" where
  "migration_deaf p e \<longleftrightarrow>
     e = Mg_Dialog False \<and> mg_batchDelete p \<noteq> None \<or> e = Mg_Toolbar True \<and> \<not> mg_enabled p"

fun loads_migration_page :: "migration_event \<Rightarrow> bool" where
  "loads_migration_page (Mg_Load_Page c) = True"
| "loads_migration_page e = False"

lemma migration_idle: "migration_step p e = (p, []) \<longleftrightarrow> migration_handle p e = (p, [])"
  by (cases "migration_handle p e") (auto simp: migration_step_def migration_persist_def)

lemma migration_updates:
  "p\<lparr>mg_selected := xs\<rparr> = p \<longleftrightarrow> xs = mg_selected p"
  "p\<lparr>mg_deleteSnapshot := ys, mg_deleteConfirmOpen := b\<rparr> = p \<longleftrightarrow> b = mg_deleteConfirmOpen p \<and> ys = mg_deleteSnapshot p"
  "p\<lparr>mg_deleteConfirmOpen := b, mg_deleteSnapshot := ys\<rparr> = p \<longleftrightarrow> b = mg_deleteConfirmOpen p \<and> ys = mg_deleteSnapshot p"
  "p\<lparr>mg_filtersOpen := b\<rparr> = p \<longleftrightarrow> b = mg_filtersOpen p" "p\<lparr>mg_viewMode := v\<rparr> = p \<longleftrightarrow> v = mg_viewMode p"
  by (cases p; auto)+

interpretation migration_library_view: page_view migration_step "\<lambda>_. True" "migration_view local narrow f loading failed fetching"
  loads_migration_page migration_deaf
proof (unfold_locales, rule TrueI)
  fix p
  have card: "\<not> mg_deleteConfirmOpen p \<Longrightarrow>
      answers migration_step loads_migration_page migration_deaf p (migration_card local p im)" for im
    by (cases "mg_enabled p"; cases "mi_path im \<in> set (mg_selected p)")
      (auto simp: migration_card_def Let_def answers_usable migration_idle MigrationImageCard_def migration_toggleSelected_def
        confirmDelete_def migration_updates jset_changes)
  have bar: "\<not> mg_deleteConfirmOpen p \<Longrightarrow> answers migration_step loads_migration_page migration_deaf p (migration_floating p)"
    by (auto simp: migration_floating_def answers_usable migration_idle migration_toolbar_def confirmDelete_def migration_deaf_def
        migration_updates)
  have head: "answers migration_step loads_migration_page migration_deaf p (migration_heading p)"
    by (cases p) (auto simp: migration_heading_def answers_usable migration_idle migration_toolbar_buttons_def split: view_mode.split)
  have panel: "answers migration_step loads_migration_page migration_deaf p [migration_panel narrow f p]"
    by (simp add: migration_panel_def field_defs migration_idle migration_applyFilters_def migration_resetFilters_def)
  have dialog: "answers migration_step loads_migration_page migration_deaf p
    (ConfirmDialog (mg_deleteConfirmOpen p) (mg_batchDelete p \<noteq> None) t d l (Mg_Dialog False) (Mg_Dialog True))" for t d l
    by (auto simp: ConfirmDialog_def answers_usable migration_idle migration_dialog_def migration_deaf_def migration_updates)
  show "answers migration_step loads_migration_page migration_deaf p (migration_view local narrow f loading failed fetching p)"
    using head panel
    by (simp del: not_None_eq add: migration_view_def Let_def answers_behind answers_load_more migration_idle dialog
        migration_mode_def migration_notice_def) (use card bar in \<open>blast intro: answers_concat_map\<close>)
qed


section \<open>An empty library\<close>

lemma unfiltered_iff: "unfiltered ps \<longleftrightarrow> list_all (\<lambda>n. param_text ps n = []) imageFilterNames"
proof -
  have empty: "param_text [] n = []" for n by (simp add: param_text_def params_get_def)
  have "normalizedFilterQuery [] = ''limit=24''"
    unfolding normalizedFilterQuery_def normalized_params_eq using empty
    by (simp add: limit_params_def) code_simp
  then have "unfiltered ps \<longleftrightarrow> normalizedFilterQuery ps = normalizedFilterQuery []" by (simp add: unfiltered_def)
  also have "\<dots> \<longleftrightarrow> (\<forall>n \<in> set imageFilterNames. param_text ps n = param_text [] n)"
    unfolding normalizedFilterQuery_def normalized_params_def using library.query_canonical [of ps "[]"] by blast
  finally show ?thesis by (simp add: empty list_all_iff)
qed

lemma active_filters: "activeFilterCount ps = length (filter (\<lambda>n. param_text ps n \<noteq> []) imageFilterNames)"
proof -
  have parsed: "params_parse (normalizedFilterQuery ps) =
      limit_params @ map (\<lambda>n. (n, param_text ps n)) (filter (\<lambda>n. param_text ps n \<noteq> []) imageFilterNames)"
    unfolding normalizedFilterQuery_def normalized_params_def using library.query_canonical [of ps "[]"] by blast
  have "params_has (params_parse (normalizedFilterQuery ps)) n \<longleftrightarrow> param_text ps n \<noteq> []" if "n \<in> set imageFilterNames" for n
    using that library.names_limit unfolding parsed by (auto simp: params_has_def limit_params_def image_image)
  then show ?thesis by (simp add: activeFilterCount_def cong: filter_cong)
qed

lemma unfiltered_count: "unfiltered ps \<longleftrightarrow> activeFilterCount ps = 0"
  unfolding unfiltered_iff active_filters by (simp add: list_all_iff filter_empty_conv)

lemma cleared_location: "location_params (location_of (''/admin/images?'' @ params_string []) None) = []"
  by (simp add: location_of_def location_params_def params_string_def split_first_def url_attr_def params_parse_def)

text \<open>
  A library with nothing to show says why and leads on. In place of the images there is a notice exactly
  when they are loading, have failed or there are none; an empty library offers an upload exactly when
  no filter is in use, and clearing the filters exactly when one is, as the count beside the filters
  button says; clearing them leads to a location at which the library has no filter left.
\<close>

theorem empty_library_leads_on:
  fixes c q p
  defines "none \<equiv> \<not> pr_loading q \<and> \<not> pr_error q \<and> loaded_images q = []"
    and "filters \<equiv> activeFilterCount (il_params p)"
    and "cleared \<equiv> fst (image_list_step c (fst (image_list_step c p Reset_Filters))
      (Params_Change (location_params (location_of (''/admin/images?'' @ params_string []) None))))"
  shows "(library_notice q p \<noteq> [] \<longleftrightarrow> pr_loading q \<or> pr_error q \<or> loaded_images q = []) \<and>
    ((Upload_Action, Enabled) \<in> set (offered (library_notice q p)) \<longleftrightarrow> none \<and> filters = 0) \<and>
    ((Reset_Filters, Enabled) \<in> set (offered (library_notice q p)) \<longleftrightarrow> none \<and> 0 < filters) \<and>
    readable (library_tools p) = (if 0 < filters then [(Plain, counted ''images.activeFilterCount'' filters)] else []) \<and>
    Navigate (''?'' @ params_string []) True \<in> set (snd (image_list_step c p Reset_Filters)) \<and>
    activeFilterCount (il_params cleared) = 0 \<and> selected cleared = [] \<and>
    ((Upload_Action, Enabled) \<in> set (offered (library_notice q cleared)) \<longleftrightarrow> none)"
proof -
  have reset: "image_list_step c p Reset_Filters =
      (p\<lparr>selected := [], createdFrom := [], createdTo := [], advancedOpen := False\<rparr>,
       [Reset_Form, setSearchParams []] @ persist p (p\<lparr>selected := [], createdFrom := [], createdTo := [], advancedOpen := False\<rparr>))"
    by (simp add: image_list_step_def resetFilters_def)
  have cleared: "il_params cleared = []" "selected cleared = []"
    unfolding cleared_def cleared_location by (simp_all add: image_list_step_def split_def Let_def resetFilters_def params_effects_def)
  have "unfiltered []" by (simp add: unfiltered_iff list_all_iff param_text_def params_get_def)
  then show ?thesis
    using unfiltered_count [of "il_params p"] unfiltered_count [of "[]"] cleared
    by (auto simp: library_notice_def library_tools_def none_def filters_def reset setSearchParams_def)
qed

end
