(* ===== verification/Admin_View.thy ===== *)
theory Admin_View
  imports Library_View Token_Page Alias_Page Detail_Page System_Page
begin

text \<open>
  What the pages of the tokens, of the aliases, of one image and of the system show: the markup of
  \<open>api-token-page.tsx\<close>, \<open>alias-page.tsx\<close>, \<open>image-detail-page.tsx\<close> and \<open>system-overview-panel.tsx\<close>, from the
  state of the page and the results of its queries. \<open>local\<close> writes a time in the language of the page.
\<close>

section \<open>Tokens\<close>

definition scope_box :: "token_page \<Rightarrow> api_token_scope \<Rightarrow> token_event element list" where
  "scope_box p s =
     [Checkbox (Raw (scope_text s)) (s \<in> set (tk_scopes p)) Enabled (Token_Field (Token_Scope s)),
      Note Plain (say (''apiTokens.scopeDescription.'' @ scopeDescriptionKeys s))]"

definition expiry_controls :: "int \<Rightarrow> token_page \<Rightarrow> token_event element list" where
  "expiry_controls today p =
     [Note Plain (say ''apiTokens.expiresAt''),
      Date_Field ''token-expiry'' (say ''apiTokens.expiresAt'') (tk_expiresDate p) (todayValue today),
      Select_Box (say ''common.datePicker.hour'') (tk_expiresHour p) (usable (tk_expiresDate p = []))
        (map (\<lambda>h. (h, Tr ''common.datePicker.hourValue'' [(''value'', h)], Token_Field (Token_Hour h))) hour_options),
      Select_Box (say ''common.datePicker.minute'') (tk_expiresMinute p) (usable (tk_expiresDate p = []))
        (map (\<lambda>m. (m, Tr ''common.datePicker.minuteValue'' [(''value'', m)], Token_Field (Token_Minute m))) minute_options)]"

definition token_create_form :: "int \<Rightarrow> token_page \<Rightarrow> token_event element list" where
  "token_create_form today p =
     [Note Plain (say ''apiTokens.create''), Text_Field ''token-name'' (say ''apiTokens.name'') (tk_name p),
      Note Plain (say ''apiTokens.scopes'')] @
     concat (map (scope_box p) availableScopes) @ expiry_controls today p @
     [Button (say (if tk_create p \<noteq> Create_Idle then ''common.working'' else ''apiTokens.create''))
        (usable (trim (tk_name p) = [] \<or> length (tk_scopes p) = 0 \<or> tk_create p \<noteq> Create_Idle)) Token_Submit] @
     shown_if (tk_createFailed p) [Note Plain (say ''apiTokens.createFailed'')]"

text \<open>The secret is shown once, with a button that copies it.\<close>

definition token_secret_panel :: "token_page \<Rightarrow> token_event element list" where
  "token_secret_panel p =
     (case tk_created p of None \<Rightarrow> []
      | Some t \<Rightarrow> [Note Status (say ''apiTokens.copyNow''), Note Status (Raw (token_secret t)),
                  Button (say ''apiTokens.copy'') Enabled Token_Copy])"

definition token_row :: "(string \<Rightarrow> string) \<Rightarrow> token_page \<Rightarrow> api_token \<Rightarrow> token_event element list" where
  "token_row local p t =
     [Note Plain (Raw (token_name t)), Note Plain (Raw (tokenPrefix t @ [CHR 0xE2, CHR 0x80, CHR 0xA6])),
      Note Plain (Raw (join '', '' (map scope_text (token_scopes t)))),
      Note Plain (case token_expiresAt t of
          Some e \<Rightarrow> if e = [] then say ''apiTokens.neverExpires'' else Tr ''apiTokens.expires'' [(''value'', local e)]
        | None \<Rightarrow> say ''apiTokens.neverExpires''),
      Note Plain (say (''apiTokens.status.'' @ token_status t))] @
     shown_if (token_status t = ''active'')
       [Button (say ''apiTokens.revoke'') (usable (tk_revoke p \<noteq> Create_Idle)) (Token_Revoke_Button t)]"

definition token_list_panel ::
    "(string \<Rightarrow> string) \<Rightarrow> api_token list query_view \<Rightarrow> token_page \<Rightarrow> token_event element list" where
  "token_list_panel local q p =
     [Note Plain (say ''apiTokens.existing'')] @
     shown_if (qv_loading q) [Note Plain (say ''common.loading'')] @
     shown_if (qv_error q) [Note Plain (say ''apiTokens.listFailed'')] @
     shown_if (qv_data q = Some []) [Note Plain (say ''apiTokens.empty'')] @
     concat (map (token_row local p) (case qv_data q of None \<Rightarrow> [] | Some ts \<Rightarrow> ts))"

definition token_view ::
    "(string \<Rightarrow> string) \<Rightarrow> int \<Rightarrow> api_token list query_view \<Rightarrow> token_page \<Rightarrow> token_event element list" where
  "token_view local today q p =
     behind (tk_revokeTarget p \<noteq> None)
       ([Note Plain (say ''apiTokens.eyebrow''), Note Plain (say ''apiTokens.title''), Note Plain (say ''apiTokens.description'')] @
        token_create_form today p @ token_secret_panel p @ token_list_panel local q p)
       (ConfirmDialog (tk_revokeTarget p \<noteq> None) (tk_revoke p \<noteq> Create_Idle) (say ''apiTokens.revokeTitle'')
          (Tr ''apiTokens.confirmRevoke'' [(''name'', case tk_revokeTarget p of None \<Rightarrow> [] | Some t \<Rightarrow> snd t)])
          (say ''apiTokens.revoke'') (Token_Dialog False) (Token_Dialog True))"

section \<open>Aliases\<close>

text \<open>\<open>path\<close> and \<open>lookup\<close> are the contents of the two fields for paths.\<close>

definition alias_import_form :: "string \<Rightarrow> alias_page \<Rightarrow> alias_event element list" where
  "alias_import_form path p =
     [Note Plain (say ''aliases.create''), Text_Field ''path'' (say ''aliases.path'') path, Note Plain (say ''aliases.imageFile''),
      Note Plain (case al_selectedFile p of None \<Rightarrow> say ''aliases.imageFile'' | Some f \<Rightarrow> Raw (sf_name f)),
      Note Plain (say ''aliases.imageHelp''), Note Plain (say ''upload.chooseFiles''),
      Text_Field ''image'' (say ''aliases.imageFile'') (case al_selectedFile p of None \<Rightarrow> [] | Some f \<Rightarrow> sf_name f),
      Button (if al_creating p then Cat [say ''aliases.saving'', Raw '' '', Raw (js_num_string (al_uploadProgress p)), Raw ''%'']
              else say ''aliases.create'')
        (usable (al_creating p \<or> al_selectedFile p = None)) (Alias_Create path)] @
     (case al_created p of None \<Rightarrow> [] | Some a \<Rightarrow> [Note Status (Tr ''aliases.created'' [(''path'', alias_path a)])]) @
     shown_if (al_createFailed p) [Note Plain (say ''aliases.createFailed'')]"

definition alias_resolve_form :: "string \<Rightarrow> alias_page \<Rightarrow> alias_event element list" where
  "alias_resolve_form lookup p =
     [Note Plain (say ''aliases.resolve''), Text_Field ''resolvePath'' (say ''aliases.path'') lookup,
      Button (say (if al_resolving p then ''common.working'' else ''aliases.resolve'')) (usable (al_resolving p))
        (Alias_Resolve lookup)] @
     (case al_resolved p of None \<Rightarrow> []
      | Some a \<Rightarrow> [Note Plain (Raw (alias_path a)), Link (say ''aliases.target'') (''/image/'' @ alias_imageId a)]) @
     shown_if (al_resolveFailed p) [Note Plain (say ''aliases.notFound'')]"

definition alias_item :: "alias_page \<Rightarrow> image_alias \<Rightarrow> alias_event element list" where
  "alias_item p a =
     [Note Plain (Raw (alias_path a)), Note Plain (Raw (alias_source a)),
      Button (say ''common.copy'') Enabled (Alias_Row (Copy_Alias a)),
      Button (say ''common.delete'') (usable (al_removing p)) (Alias_Row (Delete_Alias a))]"

definition alias_list_panel :: "image_alias_list pages_result \<Rightarrow> alias_page \<Rightarrow> alias_event element list" where
  "alias_list_panel q p =
     [Note Plain (say ''aliases.existing'')] @
     shown_if (pr_loading q) [Note Plain (say ''common.loading'')] @
     shown_if (pr_error q) [Note Plain (say ''aliases.listFailed'')] @
     shown_if (alias_list (pr_pages q) = [] \<and> \<not> pr_loading q \<and> \<not> pr_error q) [Note Plain (say ''aliases.empty'')] @
     concat (map (alias_item p) (alias_list (pr_pages q))) @ load_more alias_next_page Alias_Load_Page q @
     shown_if (al_removeFailed p) [Note Plain (say ''aliases.deleteFailed'')]"

definition alias_view ::
    "string \<Rightarrow> string \<Rightarrow> image_alias_list pages_result \<Rightarrow> alias_page \<Rightarrow> alias_event element list" where
  "alias_view path lookup q p =
     behind (al_deleteTarget p \<noteq> None)
       ([Note Plain (say ''aliases.eyebrow''), Note Plain (say ''aliases.title''), Note Plain (say ''aliases.description'')] @
        alias_import_form path p @ alias_resolve_form lookup p @ alias_list_panel q p)
       (ConfirmDialog (al_deleteTarget p \<noteq> None) (al_removing p) (say ''aliases.deleteTitle'')
          (Tr ''aliases.confirmDelete'' [(''path'', case al_deleteTarget p of None \<Rightarrow> [] | Some a \<Rightarrow> alias_path a)])
          (say ''common.delete'') (Alias_Dialog False) (Alias_Dialog True))"

section \<open>Tokens and aliases answer\<close>

text \<open>In a pending confirmation the cross can be pressed but does nothing.\<close>

definition token_deaf :: "token_page \<Rightarrow> token_event \<Rightarrow> bool" where
  "token_deaf p e \<longleftrightarrow> e = Token_Dialog False \<and> tk_revoke p \<noteq> Create_Idle"

lemma token_updates:
  "p\<lparr>tk_scopes := xs\<rparr> = p \<longleftrightarrow> xs = tk_scopes p" "p\<lparr>tk_expiresHour := h\<rparr> = p \<longleftrightarrow> h = tk_expiresHour p"
  "p\<lparr>tk_expiresMinute := h\<rparr> = p \<longleftrightarrow> h = tk_expiresMinute p" "p\<lparr>tk_revokeTarget := t\<rparr> = p \<longleftrightarrow> t = tk_revokeTarget p"
  "p\<lparr>tk_revoke := r\<rparr> = p \<longleftrightarrow> r = tk_revoke p"
  by (cases p; auto)+

interpretation tokens_view: page_view "token_step c" "\<lambda>_. True" "token_view local today q" "\<lambda>_. False" token_deaf
proof (unfold_locales, rule TrueI)
  fix p
  let ?answers = "\<lambda>es. answers (token_step c) (\<lambda>_. False) token_deaf p es"
  have scopes: "?answers (scope_box p s)" if "s \<in> set availableScopes" for s
    using that by (auto simp: scope_box_def toggleScope_def token_updates filter_id_conv)
  let ?ok = "list_all (answers_event (token_step c) (\<lambda>_. False) token_deaf p)"
  have hours: "?ok (controls (Select_Box l (tk_expiresHour p) (usable (tk_expiresDate p = []))
      (map (\<lambda>h. (h, k h, Token_Field (Token_Hour h))) hour_options)))" for l k
    by (rule answers_select) (auto simp: token_updates)
  have minutes: "?ok (controls (Select_Box l (tk_expiresMinute p) (usable (tk_expiresDate p = []))
      (map (\<lambda>m. (m, k m, Token_Field (Token_Minute m))) minute_options)))" for l k
    by (rule answers_select) (auto simp: token_updates)
  have expiry: "?answers (expiry_controls today p)"
    by (simp only: expiry_controls_def answers_simps hours minutes) simp
  have submit: "token_submit c p = (p, []) \<longleftrightarrow> trim (tk_name p) = [] \<or> length (tk_scopes p) = 0 \<or> tk_create p \<noteq> Create_Idle"
    by (auto simp: token_submit_def split: option.split)
  have form: "?answers (token_create_form today p)"
    by (simp del: length_0_conv add: token_create_form_def answers_concat_map scopes expiry answers_usable submit)
  have list: "?answers (token_list_panel local q p)" if "tk_revokeTarget p = None"
    using that by (auto simp: token_list_panel_def token_row_def token_revoke_button_def answers_usable token_updates
        intro!: answers_concat_map)
  have dialog: "?answers (ConfirmDialog (tk_revokeTarget p \<noteq> None) (tk_revoke p \<noteq> Create_Idle) t d l (Token_Dialog False) (Token_Dialog True))" for t d l
    by (auto simp: ConfirmDialog_def answers_usable token_dialog_def token_deaf_def token_updates)
  show "?answers (token_view local today q p)"
    by (simp del: not_None_eq add: token_view_def answers_behind form dialog token_secret_panel_def token_copy_def split: option.split)
      (use list in blast)
qed

text \<open>So it is on the page of the aliases; an alias that is no path of this server is outside the model.\<close>

definition alias_deaf :: "string \<Rightarrow> alias_page \<Rightarrow> alias_event \<Rightarrow> bool" where
  "alias_deaf origin p e \<longleftrightarrow>
     e = Alias_Dialog False \<and> al_removing p \<or>
     (case e of Alias_Row (Copy_Alias a) \<Rightarrow> alias_link origin a = None | _ \<Rightarrow> False)"

fun loads_alias_page :: "alias_event \<Rightarrow> bool" where
  "loads_alias_page (Alias_Load_Page c) = True"
| "loads_alias_page e = False"

lemma alias_updates: "p\<lparr>al_deleteTarget := t\<rparr> = p \<longleftrightarrow> t = al_deleteTarget p"
  by (cases p) auto

interpretation aliases_view: page_view "alias_step origin" "\<lambda>_. True" "alias_view path lookup q" loads_alias_page "alias_deaf origin"
proof (unfold_locales, rule TrueI)
  fix p
  let ?answers = "\<lambda>es. answers (alias_step origin) loads_alias_page (alias_deaf origin) p es"
  have import_form: "?answers (alias_import_form path p)"
    by (auto simp: alias_import_form_def answers_usable createAlias_def split: option.split)
  have resolve: "?answers (alias_resolve_form lookup p)"
    by (simp add: alias_resolve_form_def answers_usable resolveAlias_def split: option.split)
  have list: "?answers (alias_list_panel q p)" if "al_deleteTarget p = None"
    using that by (auto simp: alias_list_panel_def alias_item_def alias_row_def alias_deaf_def answers_usable alias_updates
        intro!: answers_concat_map answers_load_more)
  have dialog: "?answers (ConfirmDialog (al_deleteTarget p \<noteq> None) (al_removing p) t d l (Alias_Dialog False) (Alias_Dialog True))" for t d l
    by (auto simp: ConfirmDialog_def answers_usable alias_dialog_def alias_deaf_def alias_updates)
  show "?answers (alias_view path lookup q p)"
    by (simp del: not_None_eq add: alias_view_def answers_behind import_form resolve dialog) (use list in blast)
qed

section \<open>One image\<close>

text \<open>The preview that the state of the location brings: its source and its name, if there are any.\<close>

type_synonym preview_state = "(string option \<times> string option) option"

definition preview_name :: "preview_state \<Rightarrow> caption" where
  "preview_name pre = (case pre of Some (_, Some n) \<Rightarrow> Raw n | _ \<Rightarrow> say ''images.detailEyebrow'')"

definition detail_loading :: "preview_state \<Rightarrow> detail_event element list" where
  "detail_loading pre =
     [Button (say ''images.back'') Enabled Back_Button, Note Status (say ''common.loading'')] @
     (case pre of
        Some (Some url, n) \<Rightarrow> shown_if (url \<noteq> []) [Picture (Raw (case n of None \<Rightarrow> [] | Some s \<Rightarrow> s)) url]
      | _ \<Rightarrow> []) @
     [Note Plain (say ''images.detailEyebrow''), Note Plain (preview_name pre), Note Plain (say ''common.loading'')]"

definition detail_failed :: "detail_event element list" where
  "detail_failed =
     [Note Alert (say ''images.detailFailed''), Button (say ''images.retryLoad'') Enabled Load_Detail,
      Button (say ''images.back'') Enabled Back_Button]"

definition Meta :: "string \<Rightarrow> string \<Rightarrow> 'e element list" where
  "Meta label v = entry label (Raw v)"

text \<open>\<open>json_text\<close> is \<open>JSON.stringify\<close> of the summary.\<close>

definition detail_summary :: "(string \<Rightarrow> string) \<Rightarrow> image_detail \<Rightarrow> detail_page \<Rightarrow> detail_event element list" where
  "detail_summary local im p =
     [Picture (Raw (originalName im)) (standardUrl im), Note Plain (say ''images.detailEyebrow''),
      Note Plain (Raw (originalName im)),
      Note Plain (Raw (decimal (width im) @ times_sign @ decimal (height im) @ middle_dot @ mimeType im @ middle_dot @
        formatBytes (storedSize im))),
      Note Plain (say ''images.visibility''), Note Plain (visibility_caption (image_visibility im)),
      Button (visibility_action (image_visibility im)) (usable (dp_visibility p \<noteq> Detail_Idle))
        (Visibility_Button (image_visibility im)),
      Copy_Links [linkable (image.truncate im)], Link (say ''images.openImage'') (standardUrl im)] @
     entry ''images.uploadedAt'' (Raw (local (image_createdAt im))) @
     entry ''images.uploadedVia'' (say (''images.source.'' @ uploadedVia im)) @
     entry ''images.storedSize'' (Raw (formatBytes (storedSize im))) @
     entry ''images.format'' (Raw (to_upper (extension im)))"

definition detail_secondary :: "(processing_summary \<Rightarrow> string) \<Rightarrow> image_detail \<Rightarrow> detail_page \<Rightarrow> detail_event element list" where
  "detail_secondary json_text im p =
     [Note Plain (say ''images.metadata'')] @
     Meta ''images.sourceSize'' (formatBytes (sourceSize im)) @ Meta ''images.sha256'' (storedSha256 im) @
     Meta ''images.processing'' (json_text (processingSummary im)) @
     [Note Plain (say ''images.aliases''), Text_Field ''detail-alias-path'' (say ''images.aliasPath'') (dp_aliasPath p),
      Button (say (if dp_aliasCreation p \<noteq> Detail_Idle then ''images.aliasSaving'' else ''images.addAlias''))
        (usable (trim (dp_aliasPath p) = [] \<or> dp_aliasCreation p \<noteq> Detail_Idle)) Alias_Submit] @
     (if aliases im = [] then [Note Plain (say ''images.noAliases'')]
      else concat (map (\<lambda>a. [Note Plain (Raw (alias_path a)), Note Plain (Raw (alias_source a))]) (aliases im)))"

definition detail_danger :: "image_detail \<Rightarrow> detail_page \<Rightarrow> detail_event element list" where
  "detail_danger im p =
     shown_if (canConvert (image.truncate im))
       [Button (say ''images.convertWebp'') (usable (dp_conversion p \<noteq> Detail_Idle))
          (Detail_Button (Convert_Button (image.truncate im)))] @
     [Button (say ''common.delete'') (usable (dp_deletion p \<noteq> Detail_Idle)) (Detail_Button Delete_Image_Button)]"

definition detail_dialogs_view :: "image_detail \<Rightarrow> detail_page \<Rightarrow> detail_event element list" where
  "detail_dialogs_view im p =
     ConfirmDialog (dp_deleteOpen p) (dp_deletion p \<noteq> Detail_Idle) (say ''images.deleteImageTitle'')
       (Tr ''images.confirmDelete'' [(''name'', originalName im)]) (say ''images.deletePermanently'')
       (Detail_Button (Delete_Dialog False)) (Detail_Button (Delete_Dialog True)) @
     ConfirmDialog (dp_convertOpen p) (dp_conversion p \<noteq> Detail_Idle) (say ''images.convertWebpTitle'')
       (Tr ''images.confirmConvertWebp'' [(''name'', originalName im)]) (say ''images.convertWebp'')
       (Detail_Button (Convert_Dialog False)) (Detail_Button (Convert_Dialog True))"

definition detail_view ::
    "(string \<Rightarrow> string) \<Rightarrow> (processing_summary \<Rightarrow> string) \<Rightarrow> preview_state \<Rightarrow> image_detail query_view \<Rightarrow> detail_page \<Rightarrow>
     detail_event element list" where
  "detail_view local json_text pre q p =
     (if qv_loading q then detail_loading pre
      else case qv_data q of
          None \<Rightarrow> detail_failed
        | Some im \<Rightarrow>
            if qv_error q then detail_failed
            else behind (dp_deleteOpen p \<or> dp_convertOpen p)
                (Button (say ''images.back'') Enabled Back_Button # detail_summary local im p @
                 detail_secondary json_text im p @ detail_danger im p)
                (detail_dialogs_view im p))"

section \<open>The system\<close>

definition optional_summary :: "string \<Rightarrow> ('a \<Rightarrow> (string \<times> string) list) \<Rightarrow> 'a option \<Rightarrow> caption" where
  "optional_summary key args v = (case v of None \<Rightarrow> say ''settings.notRun'' | Some x \<Rightarrow> Tr key (args x))"

text \<open>The values the texts of the summaries take from the result they are given.\<close>

definition inspection_args :: "inspection_result \<Rightarrow> (string \<times> string) list" where
  "inspection_args r =
     [(''missingImageCount'', decimal (in_missingImageCount r)), (''orphanImageCount'', decimal (orphanImageCount r)),
      (''orphanThumbnailCount'', decimal (orphanThumbnailCount r)), (''temporaryFiles'', decimal (temporaryFiles r))]"

definition index_args :: "index_stats \<Rightarrow> (string \<times> string) list" where
  "index_args i = [(''images'', decimal (ix_images i)), (''aliases'', decimal (ix_aliases i)),
     (''sessions'', decimal (ix_sessions i)), (''tokens'', decimal (ix_tokens i))]"

definition rebuild_args :: "rebuild_result \<Rightarrow> (string \<times> string) list" where
  "rebuild_args r = index_args (rb_indexes r) @ [(''missingImageCount'', decimal (rb_missingImageCount r))]"

definition daily_args :: "daily_result \<Rightarrow> (string \<times> string) list" where
  "daily_args r =
     [(''removedTemporaryFiles'', decimal (removedTemporaryFiles r)), (''removedOrphanImages'', decimal (removedOrphanImages r)),
      (''removedOrphanThumbnails'', decimal (removedOrphanThumbnails r)), (''cleanupFailures'', decimal (cleanupFailures r))]"

definition maintenance_rows :: "(string \<Rightarrow> string) \<Rightarrow> system_overview \<Rightarrow> 'e element list" where
  "maintenance_rows local v =
     concat (map (\<lambda>(label, time, summary).
         [Note Plain (say label)] @
         (case time of None \<Rightarrow> [] | Some t \<Rightarrow> shown_if (t \<noteq> []) [Note Plain (Raw (local t))]) @ [Note Plain summary])
       [(''settings.lastInspection'', map_option checkedAt (lastInspection v),
          optional_summary ''settings.inspectionSummary'' inspection_args (lastInspection v)),
        (''settings.lastRebuild'', map_option rb_completedAt (lastRebuild v),
          optional_summary ''settings.rebuildSummary'' rebuild_args (lastRebuild v)),
        (''settings.lastDaily'', map_option dm_completedAt (lastDaily v),
          optional_summary ''settings.dailySummary'' daily_args (lastDaily v))])"

definition missing_images :: "system_overview \<Rightarrow> 'e element list" where
  "missing_images v =
     shown_if (0 < missingImageCount v)
       ([Note Alert (counted ''settings.missingImages'' (missingImageCount v))] @
        shown_if (missingImageIds v \<noteq> []) [Note Alert (Raw (join '', '' (missingImageIds v)))])"

definition Overview :: "(string \<Rightarrow> string) \<Rightarrow> system_overview \<Rightarrow> 'e element list" where
  "Overview local v =
     entry ''settings.imageCount'' (Raw (decimal (imageCount v))) @
     entry ''settings.storageUsed'' (Raw (formatBytes (storedBytes v))) @
     entry ''settings.migrationStorageUsed'' (Raw (formatBytes (migrationStoredBytes v))) @
     [Note Plain (say ''settings.runtimeResources'')] @
     entry ''settings.rss'' (Raw (formatBytes (rssBytes v))) @ entry ''settings.heap'' (Raw (formatBytes (heapAllocBytes v))) @
     entry ''settings.heapSys'' (Raw (formatBytes (heapSysBytes v))) @
     entry ''settings.goroutines'' (Raw (decimal (goroutines v))) @ entry ''settings.aliasCount'' (Raw (decimal (aliasCount v))) @
     [Note Plain (say ''settings.indexHealth''),
      Note Plain (say (if indexConsistent v then ''settings.indexConsistent'' else ''settings.indexDifferent'')),
      Note Plain (Tr ''settings.indexCounts'' (index_args (so_indexes v)))] @
     missing_images v @ [Note Plain (say ''settings.maintenanceHistory'')] @ maintenance_rows local v"

definition system_view :: "(string \<Rightarrow> string) \<Rightarrow> system_overview query_view \<Rightarrow> system_page \<Rightarrow> system_event element list" where
  "system_view local q p =
     behind (sy_rebuildOpen p)
       ([Note Plain (say ''settings.overview''), Note Plain (say ''settings.overviewHelp''),
         Button (say (if sy_rebuild p \<noteq> Maintenance_Idle then ''common.working'' else ''settings.rebuildIndexes''))
           (usable (sy_rebuild p \<noteq> Maintenance_Idle)) Rebuild_Button,
         Button (say (if sy_inspection p \<noteq> Maintenance_Idle then ''common.working'' else ''settings.inspectNow''))
           (usable (sy_inspection p \<noteq> Maintenance_Idle)) Inspect_Button] @
        shown_if (qv_loading q) [Note Plain (say ''common.loading'')] @
        shown_if (qv_error q) [Note Plain (say ''settings.overviewFailed'')] @
        (case qv_data q of None \<Rightarrow> [] | Some v \<Rightarrow> Overview local v))
       (ConfirmDialog (sy_rebuildOpen p) (sy_rebuild p \<noteq> Maintenance_Idle) (say ''settings.rebuildTitle'')
          (say ''settings.confirmRebuild'') (say ''settings.rebuildIndexes'') (Rebuild_Dialog False) (Rebuild_Dialog True))"

section \<open>The image and the system answer\<close>

definition detail_deaf :: "detail_page \<Rightarrow> detail_event \<Rightarrow> bool" where
  "detail_deaf p e \<longleftrightarrow>
     e = Detail_Button (Delete_Dialog False) \<and> dp_deletion p \<noteq> Detail_Idle \<or>
     e = Detail_Button (Convert_Dialog False) \<and> dp_conversion p \<noteq> Detail_Idle \<or>
     e = Load_Detail \<and> dp_imageId p = []"

lemma detail_updates:
  "p\<lparr>dp_deleteOpen := b\<rparr> = p \<longleftrightarrow> b = dp_deleteOpen p" "p\<lparr>dp_convertOpen := b\<rparr> = p \<longleftrightarrow> b = dp_convertOpen p"
  by (cases p; auto)+

interpretation image_view: page_view detail_step "\<lambda>_. True" "detail_view local json_text pre q" "\<lambda>_. False" detail_deaf
proof (unfold_locales, rule TrueI)
  fix p
  let ?answers = "\<lambda>es. answers detail_step (\<lambda>_. False) detail_deaf p es"
  have returns: "returnToList p \<noteq> []" by (simp add: returnToList_def)
  have loading: "?answers (detail_loading pre)"
    by (simp add: detail_loading_def returns split: option.split prod.split)
  have failed: "?answers detail_failed"
    by (auto simp: detail_failed_def returns detail_deaf_def detail_request_def)
  have summary: "?answers (detail_summary local im p)" for im
    by (simp add: detail_summary_def answers_usable detail_visibility_button_def)
  have secondary: "?answers (detail_secondary json_text im p)" for im
    by (auto simp: detail_secondary_def Meta_def answers_usable detail_createAlias_def intro!: answers_concat_map)
  have danger: "?answers (detail_danger im p)" if "\<not> dp_deleteOpen p" "\<not> dp_convertOpen p" for im
    using that by (simp add: detail_danger_def answers_usable detail_updates)
  have dialogs: "?answers (detail_dialogs_view im p)" for im
    by (auto simp: detail_dialogs_view_def ConfirmDialog_def answers_usable detail_deaf_def detail_updates)
  show "?answers (detail_view local json_text pre q p)"
    using loading failed danger
    by (simp add: detail_view_def answers_behind summary secondary dialogs returns split: option.split) blast
qed

definition system_deaf :: "system_page \<Rightarrow> system_event \<Rightarrow> bool" where
  "system_deaf p e \<longleftrightarrow> e = Rebuild_Dialog False \<and> sy_rebuild p \<noteq> Maintenance_Idle"

lemma system_updates: "p\<lparr>sy_rebuildOpen := b\<rparr> = p \<longleftrightarrow> b = sy_rebuildOpen p"
  by (cases p) auto

lemma Overview_silent: "answers step outside deaf s (Overview local v)"
  by (simp add: Overview_def maintenance_rows_def missing_images_def split: option.split)

interpretation maintenance_view: page_view system_step "\<lambda>_. True" "system_view local q" "\<lambda>_. False" system_deaf
proof (unfold_locales, rule TrueI)
  fix p
  show "answers system_step (\<lambda>_. False) system_deaf p (system_view local q p)"
    by (auto simp: system_view_def answers_behind answers_usable ConfirmDialog_def inspection_start_def rebuild_dialog_def
        system_deaf_def system_updates Overview_silent split: option.split)
qed

end
