(* ===== verification/Form_View.thy ===== *)
theory Form_View
  imports Admin_View Settings Upload_Invariant
begin

text \<open>
  What the upload page, the settings, the login and the setup show: the markup of \<open>upload-page.tsx\<close>,
  \<open>settings-page.tsx\<close>, \<open>login-page.tsx\<close> and \<open>setup-page.tsx\<close>, from the state of the page and what its
  uncontrolled fields contain.
\<close>

section \<open>The upload page\<close>

definition upload_visibility_text :: "visibility option \<Rightarrow> string" where
  "upload_visibility_text v = (case v of None \<Rightarrow> ''default'' | Some w \<Rightarrow> visibility_text w)"

definition upload_options :: "upload_page \<Rightarrow> upload_event element list" where
  "upload_options s =
     [Note Plain (say ''upload.options''), Note Plain (say ''upload.optionsTitle''),
      Select_Box (say ''upload.visibility'') (upload_visibility_text (visibility_choice s)) Enabled
        [(''default'', say ''upload.visibilityDefault'', Set_Visibility None),
         (''public'', visibility_caption Public, Set_Visibility (Some Public)),
         (''private'', visibility_caption Private, Set_Visibility (Some Private))],
      Note Plain (say ''upload.visibilityHelp'')] @
     entry ''upload.batch'' (Raw (decimal (maxBatch s))) @ entry ''upload.concurrency'' (Raw (decimal (processing s))) @
     [Button (if uploading s then say ''common.working'' else counted ''upload.uploadCount'' (length (unfinished (items s))))
        (usable (submit_disabled s)) Submit]"

definition upload_status_text :: "upload_status \<Rightarrow> string" where
  "upload_status_text st = (case st of Queued \<Rightarrow> ''queued'' | Uploading \<Rightarrow> ''uploading'' | Complete \<Rightarrow> ''complete''
     | Failed \<Rightarrow> ''failed'' | Canceled \<Rightarrow> ''canceled'')"

definition UploadResult :: "image \<Rightarrow> upload_event element list" where
  "UploadResult im =
     [Note Plain (Tr ''upload.result''
        [(''format'', extension im), (''before'', formatBytes (sourceSize im)), (''after'', formatBytes (storedSize im)),
         (''percent'', savingsPercent im)]),
      Copy_Links [linkable im]]"

definition UploadRow :: "bool \<Rightarrow> upload_item \<Rightarrow> upload_event element list" where
  "UploadRow busy it =
     [Note Plain (Raw (file_name (item_file it))),
      Note Plain (Cat [Raw (formatBytes (file_size (item_file it)) @ middle_dot),
        say (''upload.status.'' @ upload_status_text (status it))])] @
     shown_if (status it = Uploading) [Button (say ''common.cancel'') Enabled (Cancel_Item (item_id it))] @
     shown_if (status it = Failed \<or> status it = Canceled)
       [Button (say ''common.retry'') (usable busy) (Retry_Item (item_id it))] @
     [Note Plain (Tr ''upload.progress'' [(''percent'', js_num_string (progress it))])] @
     (case result it of None \<Rightarrow> [] | Some im \<Rightarrow> UploadResult im) @
     (case item_error it of None \<Rightarrow> [] | Some m \<Rightarrow> shown_if (m \<noteq> []) [Note Alert (Raw m)])"

definition upload_queue_view :: "upload_page \<Rightarrow> upload_event element list" where
  "upload_queue_view s =
     [Note Plain (say ''upload.queueTitle'')] @ shown_if (items s \<noteq> []) [Note Plain (Raw (decimal (length (items s))))] @
     [Button (say ''common.clear'') (usable (uploading s \<or> items s = [])) Clear_Queue] @
     shown_if (items s = []) [Note Plain (say ''upload.empty'')] @
     concat (map (UploadRow (uploading s)) (items s))"

definition upload_links :: "upload_page \<Rightarrow> upload_event element list" where
  "upload_links s =
     shown_if (shows_completed_links s)
       [Note Plain (counted ''upload.completedLinks'' (length (completedImages s))),
        Copy_Links (map linkable (completedImages s))]"

text \<open>While the router holds a navigation back, a dialog asks whether to leave; the page behind it is inert.\<close>

datatype leave_choice = Stay_Here | Leave_Page

definition leave_dialog :: "bool \<Rightarrow> leave_choice element list" where
  "leave_dialog blocked =
     ConfirmDialog blocked False (say ''upload.leaveTitle'') (say ''upload.leaveDescription'') (say ''upload.leaveConfirm'')
       Stay_Here Leave_Page"

definition upload_view :: "bool \<Rightarrow> upload_page \<Rightarrow> upload_event element list" where
  "upload_view blocked s =
     behind blocked
       ([Note Plain (say ''upload.eyebrow''), Note Plain (say ''upload.title''), Note Plain (say ''upload.description''),
         Note Plain (say ''upload.dropOrPaste''), Note Plain (say ''upload.dropHelp''),
         Note Plain (say ''upload.chooseFiles''),
         Note Plain (Raw (join middle_dot [''JPG'', ''PNG'', ''WEBP'', ''GIF''])),
         Text_Field ''upload-files'' (say ''upload.chooseFiles'') []] @
        upload_options s @
        (case page_error s of None \<Rightarrow> [] | Some (key, ns) \<Rightarrow> [Note Plain (Tr key (map (\<lambda>n. (''count'', decimal n)) ns))]) @
        upload_links s @ upload_queue_view s) []"

section \<open>The settings\<close>

definition FieldError :: "form_errors \<Rightarrow> string \<Rightarrow> 'e element list" where
  "FieldError errors name = (case map_of errors name of None \<Rightarrow> [] | Some m \<Rightarrow> [Note Alert (say m)])"

definition profile_form :: "admin_session option \<Rightarrow> string \<Rightarrow> string \<Rightarrow> settings_page \<Rightarrow> settings_event element list" where
  "profile_form who name mail p =
     shown_if (who \<noteq> None)
       ([Note Plain (say ''settings.profile''), Note Plain (say ''settings.profileHelp''),
         Text_Field ''displayName'' (say ''setup.displayName'') name] @ FieldError (profileErrors p) ''displayName'' @
        [Text_Field ''email'' (say ''auth.email'') mail] @ FieldError (profileErrors p) ''email'' @
        [Button (say ''settings.saveProfile'') (usable (sp_profile p \<noteq> Profile_Idle)) (Profile_Submit name mail)])"

definition default_visibility_form :: "bool \<Rightarrow> settings_page \<Rightarrow> settings_event element list" where
  "default_visibility_form loading p =
     [Note Plain (say ''settings.defaultVisibility''), Note Plain (say ''settings.defaultVisibilityHelp'')] @
     shown_if loading [Note Plain (say ''common.loading'')] @
     (case sp_settings p of None \<Rightarrow> []
      | Some s \<Rightarrow>
          [Select_Box (say ''settings.defaultVisibility'') (visibility_text (defaultVisibility s)) (usable (sp_visibility_pending p))
             [(''public'', visibility_caption Public, Default_Visibility Public),
              (''private'', visibility_caption Private, Default_Visibility Private)]])"

definition NumberField :: "form_errors \<Rightarrow> string \<Rightarrow> string \<Rightarrow> string \<Rightarrow> 'e element list" where
  "NumberField errors name label v = [Text_Field name (say label) v] @ FieldError errors name"

definition processing_form :: "settings_page \<Rightarrow> settings_event element list" where
  "processing_form p =
     (case processingDraft p of None \<Rightarrow> []
      | Some d \<Rightarrow>
          [Note Plain (say ''settings.processing''), Note Plain (say ''settings.processingHelp''),
           Checkbox (say ''settings.compressionEnabled'') (pd_compressionEnabled d) Enabled
             (Edit_Draft (Edit_Compression (\<not> pd_compressionEnabled d)))] @
          NumberField (processingErrors p) ''jpegQuality'' ''settings.jpegQuality'' (pd_jpegQuality d) @
          NumberField (processingErrors p) ''webpQuality'' ''settings.webpQuality'' (pd_webpQuality d) @
          NumberField (processingErrors p) ''pngCompressionLevel'' ''settings.pngCompression'' (pd_pngCompressionLevel d) @
          [Checkbox (say ''settings.conversionEnabled'') (pd_conversionEnabled d) Enabled
             (Edit_Draft (Edit_Conversion (\<not> pd_conversionEnabled d)))] @
          NumberField (processingErrors p) ''conversionWebpQuality'' ''settings.conversionWebpQuality'' (pd_conversionWebpQuality d) @
          [Checkbox (say ''settings.conversionWebpLossless'') (pd_conversionWebpLossless d) Enabled
             (Edit_Draft (Edit_Lossless (\<not> pd_conversionWebpLossless d))),
           Button (say (if sp_processing_pending p then ''common.working'' else ''settings.saveProcessing''))
             (usable (sp_processing_pending p)) Processing_Submit])"

definition password_form :: "settings_page \<Rightarrow> settings_event element list" where
  "password_form p =
     [Note Plain (say ''settings.changePassword''), Text_Field [] (say ''settings.currentPassword'') (currentPassword p)] @
     FieldError (passwordErrors p) ''currentPassword'' @
     [Text_Field [] (say ''settings.newPassword'') (newPassword p)] @ FieldError (passwordErrors p) ''newPassword'' @
     [Button (say (if sp_password_pending p then ''common.working'' else ''settings.savePassword''))
        (usable (sp_password_pending p)) Password_Submit]"

definition settings_view ::
    "bool \<Rightarrow> bool \<Rightarrow> admin_session option \<Rightarrow> string \<Rightarrow> string \<Rightarrow> settings_page \<Rightarrow> settings_event element list" where
  "settings_view loading failed who name mail p =
     [Note Plain (say ''settings.eyebrow''), Note Plain (say ''settings.title''), Note Plain (say ''settings.description'')] @
     shown_if failed [Note Alert (say ''settings.loadFailed'')] @
     [Link (say ''settings.profile'') ''#settings-profile'', Link (say ''settings.defaultsSection'') ''#settings-defaults'',
      Link (say ''settings.securitySection'') ''#settings-security''] @
     profile_form who name mail p @ default_visibility_form loading p @ processing_form p @ password_form p"

section \<open>Login and setup\<close>

text \<open>The toolbar of both pages; its events are those of the preferences.\<close>

definition brand_panel :: "'e element list" where
  "brand_panel =
     [Note Plain (say ''auth.storyEyebrow''), Note Plain (say ''auth.storyTitleFirst''), Note Plain (say ''auth.storyTitleSecond''),
      Note Plain (say ''auth.storyDescription''), Note Plain (say ''auth.brandFooter'')]"

text \<open>The names of Chinese, short and long, in UTF-8.\<close>

definition chinese :: string where
  "chinese = [CHR 0xE4, CHR 0xB8, CHR 0xAD, CHR 0xE6, CHR 0x96, CHR 0x87]"

definition simplified_chinese :: string where
  "simplified_chinese = [CHR 0xE7, CHR 0xAE, CHR 0x80, CHR 0xE4, CHR 0xBD, CHR 0x93] @ chinese"

definition login_toolbar :: "preferences \<Rightarrow> ('e + preference_event) element list" where
  "login_toolbar w =
     [Button (say (if shown_theme w = Light then ''preferences.dark'' else ''preferences.light'')) Enabled (Inr Toggle_Theme),
      Button (Raw (if i18n_language w = Zh_CN then chinese else ''EN'')) Enabled (Inr Toggle_Languages)] @
     shown_if (languageOpen w)
       [Button (Raw ''English'') Enabled (Inr (Change_Language En_US)),
        Button (Raw simplified_chinese) Enabled (Inr (Change_Language Zh_CN))]"

definition login_view :: "string \<Rightarrow> string \<Rightarrow> preferences \<Rightarrow> login_page \<Rightarrow> (login_event + preference_event) element list" where
  "login_view mail password w p =
     brand_panel @ login_toolbar w @
     [Note Plain (Raw ''IMAGESILO''), Note Plain (say ''auth.welcome''), Note Plain (say ''auth.formDescription''),
      Text_Field ''email'' (say ''auth.email'') mail, Text_Field ''password'' (say ''auth.password'') password] @
     (case login_error p of None \<Rightarrow> [] | Some m \<Rightarrow> [Note Alert (say m)]) @
     [Button (say (if login_phase p \<noteq> Form_Idle then ''common.working'' else ''auth.signIn''))
        (usable (login_phase p \<noteq> Form_Idle)) (Inl (Login_Submit mail password))]"

definition setup_view :: "setup_form \<Rightarrow> preferences \<Rightarrow> setup_page \<Rightarrow> (setup_event + preference_event) element list" where
  "setup_view f w p =
     brand_panel @ login_toolbar w @
     [Note Plain (say ''setup.title''), Note Plain (say ''setup.description''),
      Text_Field ''bootstrapToken'' (say ''setup.bootstrapToken'') (f_bootstrapToken f),
      Text_Field ''displayName'' (say ''setup.displayName'') (f_displayName f), Text_Field ''email'' (say ''auth.email'') (f_email f),
      Text_Field ''password'' (say ''auth.password'') (f_password f),
      Text_Field ''confirmPassword'' (say ''setup.confirmPassword'') (f_confirmPassword f),
      Select_Box (say ''settings.defaultVisibility'') (visibility_text (setup_visibility p)) Enabled
        [(''public'', visibility_caption Public, Inl (Setup_Visibility Public)),
         (''private'', visibility_caption Private, Inl (Setup_Visibility Private))],
      Checkbox (say ''settings.compressionEnabled'') (setup_compression p) Enabled (Inl (Setup_Compression (\<not> setup_compression p))),
      Note Plain (say ''setup.compressionHelp''),
      Checkbox (say ''settings.conversionEnabled'') (setup_conversion p) Enabled (Inl (Setup_Conversion (\<not> setup_conversion p))),
      Note Plain (say ''setup.conversionHelp'')] @
     (case setup_error p of None \<Rightarrow> [] | Some m \<Rightarrow> [Note Alert (say m)]) @
     [Button (say (if setup_phase p \<noteq> Form_Idle then ''common.working'' else ''setup.finish''))
        (usable (setup_phase p \<noteq> Form_Idle)) (Inl (Setup_Submit f))]"

section \<open>The upload page answers\<close>

text \<open>A row that is uploading has the controller that its cancel button aborts.\<close>

definition abortable :: "upload_item \<Rightarrow> bool" where
  "abortable it \<longleftrightarrow> status it \<noteq> Uploading \<or> controller it \<noteq> None"

definition rows_abortable :: "upload_page \<Rightarrow> bool" where
  "rows_abortable s \<longleftrightarrow> list_all abortable (items s)"

lemma rows_abortable_items: "rows_abortable s \<Longrightarrow> items s' = items s \<Longrightarrow> rows_abortable s'"
  by (simp add: rows_abortable_def)

lemma rows_abortable_frames [simp]:
  "rows_abortable (s\<lparr>task := t\<rparr>) = rows_abortable s" "rows_abortable (s\<lparr>uploading := b\<rparr>) = rows_abortable s"
  "rows_abortable (s\<lparr>page_error := err\<rparr>) = rows_abortable s" "rows_abortable (s\<lparr>dragActive := b\<rparr>) = rows_abortable s"
  "rows_abortable (s\<lparr>active := b\<rparr>) = rows_abortable s" "rows_abortable (s\<lparr>controllers := cs\<rparr>) = rows_abortable s"
  "rows_abortable (s\<lparr>previewUrls := us\<rparr>) = rows_abortable s" "rows_abortable (s\<lparr>runs := rs\<rparr>) = rows_abortable s"
  "rows_abortable (s\<lparr>fresh := n\<rparr>) = rows_abortable s" "rows_abortable (s\<lparr>system := i\<rparr>) = rows_abortable s"
  "rows_abortable (s\<lparr>visibility_choice := v\<rparr>) = rows_abortable s" "rows_abortable (s\<lparr>items := []\<rparr>)"
  by (simp_all add: rows_abortable_def)

lemma rows_abortable_update:
  "rows_abortable s \<Longrightarrow> (\<And>it. abortable it \<Longrightarrow> abortable (f it)) \<Longrightarrow> rows_abortable (updateItem i f s)"
  by (auto simp: rows_abortable_def updateItem_def list_all_iff)

lemma patches_abortable [simp]:
  "abortable (begin_patch c it)" "abortable (complete_patch im it)" "abortable (fail_patch e it)"
  "abortable (it\<lparr>progress := v\<rparr>) = abortable it"
  by (simp_all add: abortable_def begin_patch_def complete_patch_def fail_patch_def)

lemma rows_abortable_start: "rows_abortable s \<Longrightarrow> rows_abortable (fst (fst (uploadOne_start v it s)))"
  by (auto simp: uploadOne_start_def Let_def intro!: rows_abortable_update elim: rows_abortable_items)

lemma rows_abortable_settle: "rows_abortable s \<Longrightarrow> rows_abortable (fst (fst (uploadOne_settle c i r s)))"
proof -
  assume s: "rows_abortable s"
  then have "rows_abortable (updateItem i (complete_patch im) s)" "rows_abortable (updateItem i (fail_patch e) s)" for im e
    by (auto intro: rows_abortable_update)
  with s show ?thesis
    by (auto simp: uploadOne_settle_def rows_abortable_def split: sum.split js_error.split)
qed

lemma rows_abortable_worker: "rows_abortable s \<Longrightarrow> rows_abortable (fst (worker_step s))"
  by (auto simp: worker_step_def split: option.split intro!: rows_abortable_start elim: rows_abortable_items)

lemma rows_abortable_workers: "rows_abortable s \<Longrightarrow> rows_abortable (fst (start_workers n s))"
  by (induction n arbitrary: s) (simp_all add: split_def Let_def rows_abortable_worker)

lemma rows_abortable_tasks:
  assumes "rows_abortable s"
  shows "rows_abortable (fst (submit s))" "rows_abortable (fst (retry it s))" "rows_abortable (fst (run_settled c r s))"
  using assms
  by (simp_all add: submit_def retry_def run_settled_def Let_def split_def rows_abortable_workers rows_abortable_start
      rows_abortable_settle rows_abortable_worker split: option.split)

lemma rows_abortable_add: "rows_abortable s \<Longrightarrow> rows_abortable (fst (addFiles fs s))"
proof (cases "maxBatch s < length (unfinished (items s)) + length (filter isSupportedImageFile fs)")
  case True
  then show "rows_abortable s \<Longrightarrow> ?thesis" by (simp add: addFiles_def rows_abortable_def)
next
  case False
  assume s: "rows_abortable s"
  obtain err new urls where eq: "fst (addFiles fs s) = s\<lparr>page_error := err, items := items s @ new,
       previewUrls := previewUrls s @ urls, fresh := fresh s + length (filter isSupportedImageFile fs)\<rparr>"
    and "\<forall>it \<in> set new. status it = Queued \<and> result it = None"
    using addFiles_accept [OF False] by metis
  then show ?thesis using s by (auto simp: eq rows_abortable_def list_all_iff abortable_def)
qed

lemma rows_abortable_handle: "rows_abortable s \<Longrightarrow> rows_abortable (fst (upload_handle s e))"
  by (cases e) (simp_all add: rows_abortable_tasks rows_abortable_add clearQueue_def leaveUpload_def stop_def invalidated_def
    rows_abortable_update split: option.split task_phase.split)

lemma rows_abortable_step: "rows_abortable s \<Longrightarrow> rows_abortable (fst (upload_step s e))"
  using rows_abortable_handle [of s e] by (simp add: fst_upload_step Let_def retain_previews_def)


text \<open>After the session is lost or the page is left, what could still be pressed starts nothing.\<close>

definition upload_deaf :: "upload_page \<Rightarrow> upload_event \<Rightarrow> bool" where
  "upload_deaf s e \<longleftrightarrow> \<not> active s \<and> e = Submit"

lemma upload_idle: "upload_step s e = (s, []) \<longleftrightarrow> upload_handle s e = (s, [])"
  by (cases "upload_handle s e") (auto simp: upload_step_def retain_previews_def Let_def)

lemma workers_start:
  assumes "task s = Some t" "active s" "nextIndex t < length (queue t)" "0 < n"
  shows "snd (start_workers n s) \<noteq> []"
  using assms by (cases n) (simp_all add: split_def Let_def worker_step_def uploadOne_start_def)

lemma submit_answered:
  assumes "\<not> submit_disabled s" "active s"
  shows "submit s \<noteq> (s, [])"
proof -
  have "unfinished (items s) \<noteq> []" "\<not> uploading s"
    using assms by (auto simp: submit_disabled_def unfinished_def list_all_iff filter_empty_conv)
  moreover have "snd (start_workers n (s\<lparr>uploading := True, page_error := None,
      task := Some \<lparr>kind = Batch, queue = unfinished (items s), nextIndex = 0, completed = 0, concurrency = n,
        workers = n, task_visibility = visibility_choice s, phase = Working\<rparr>\<rparr>)) \<noteq> []" if "0 < n" for n
    by (rule workers_start, simp, simp add: assms(2), simp add: calculation(1), rule that)
  ultimately have "snd (submit s) \<noteq> []" using assms(2) by (simp add: submit_def Let_def)
  then show ?thesis by auto
qed

lemma retry_answered: "\<not> uploading s \<Longrightarrow> snd (retry it s) \<noteq> []"
  by (simp add: retry_def Let_def split_def uploadOne_start_def)

lemma queue_update: "s\<lparr>previewUrls := us, items := its\<rparr> = s \<longleftrightarrow> us = previewUrls s \<and> its = items s"
  by (cases s) auto

lemma find_own_item: "distinct (map item_id (items s)) \<Longrightarrow> it \<in> set (items s) \<Longrightarrow> find_item (item_id it) s = Some it"
proof -
  have "distinct (map item_id its) \<Longrightarrow> it \<in> set its \<Longrightarrow> find (\<lambda>x. item_id x = item_id it) its = Some it" for its
    by (induction its) (auto simp: image_iff)
  then show "distinct (map item_id (items s)) \<Longrightarrow> it \<in> set (items s) \<Longrightarrow> ?thesis" by (simp add: find_item_def)
qed

interpretation queue_view: page_view upload_step "\<lambda>s. upload_inv s \<and> rows_abortable s" "upload_view blocked"
  "\<lambda>_. False" upload_deaf
proof
  fix s e
  assume "upload_inv s \<and> rows_abortable s"
  then show "upload_inv (fst (upload_step s e)) \<and> rows_abortable (fst (upload_step s e))"
    by (simp add: upload_step_inv rows_abortable_step)
next
  fix s
  assume inv: "upload_inv s \<and> rows_abortable s"
  let ?answers = "\<lambda>es. answers upload_step (\<lambda>_. False) upload_deaf s es"
  have options: "?answers (upload_options s)"
  proof -
    have "submit_disabled s \<Longrightarrow> submit s = (s, [])"
      by (auto simp: submit_disabled_def submit_def unfinished_def filter_empty_conv list_all_iff)
    then show ?thesis using submit_answered [of s]
      by (auto simp: upload_options_def answers_usable upload_idle upload_deaf_def upload_visibility_text_def
          split: option.splits visibility.splits)
  qed
  have rows: "?answers (UploadRow (uploading s) it)" if it: "it \<in> set (items s)" for it
  proof -
    have found: "find_item (item_id it) s = Some it"
      using inv it by (intro find_own_item) (simp_all add: upload_wf_def page_ok_def)
    have "abortable it" using inv it by (simp add: rows_abortable_def list_all_iff)
    moreover have "retry it s \<noteq> (s, [])" if "\<not> uploading s" using retry_answered [OF that, of it] by auto
    moreover have "retry it s = (s, [])" if "uploading s" using that by (simp add: retry_def)
    ultimately show ?thesis
      by (auto simp: UploadRow_def UploadResult_def answers_usable upload_idle found abortable_def split: option.splits)
  qed
  have "?answers (upload_queue_view s)"
    using rows by (auto simp: upload_queue_view_def answers_usable upload_idle clearQueue_def queue_update intro!: answers_concat_map)
  then show "?answers (upload_view blocked s)"
    using options by (simp add: upload_view_def answers_behind upload_links_def split: option.split)
qed


section \<open>The settings, the login and the setup answer\<close>

text \<open>A form that is submitted again with the errors it already shows does not change.\<close>

definition settings_deaf :: "settings_page \<Rightarrow> settings_event \<Rightarrow> bool" where
  "settings_deaf p e \<longleftrightarrow>
     (case e of
        Profile_Submit n m \<Rightarrow> profile_errors (trim n) (trim m) \<noteq> [] \<and> profileErrors p = profile_errors (trim n) (trim m)
      | Password_Submit \<Rightarrow>
          password_errors (currentPassword p) (newPassword p) \<noteq> [] \<and>
          passwordErrors p = password_errors (currentPassword p) (newPassword p)
      | Processing_Submit \<Rightarrow>
          (case processingDraft p of None \<Rightarrow> False
           | Some d \<Rightarrow> processing_errors d \<noteq> [] \<and> processingErrors p = processing_errors d)
      | _ \<Rightarrow> False)"

lemma settings_updates:
  "p\<lparr>profileErrors := e\<rparr> = p \<longleftrightarrow> e = profileErrors p" "p\<lparr>passwordErrors := e\<rparr> = p \<longleftrightarrow> e = passwordErrors p"
  "p\<lparr>processingErrors := e\<rparr> = p \<longleftrightarrow> e = processingErrors p" "p\<lparr>processingDraft := d\<rparr> = p \<longleftrightarrow> d = processingDraft p"
  by (cases p; auto)+

lemma draft_updates:
  "d\<lparr>pd_compressionEnabled := b\<rparr> = d \<longleftrightarrow> b = pd_compressionEnabled d"
  "d\<lparr>pd_conversionEnabled := b\<rparr> = d \<longleftrightarrow> b = pd_conversionEnabled d"
  "d\<lparr>pd_conversionWebpLossless := b\<rparr> = d \<longleftrightarrow> b = pd_conversionWebpLossless d"
  by (cases d; auto)+

lemma answers_FieldError [simp]: "answers step outside deaf s (FieldError errors name)"
  by (simp add: FieldError_def split: option.split)

interpretation forms_view: page_view settings_step "\<lambda>_. True" "settings_view loading failed who name mail"
  "\<lambda>_. False" settings_deaf
proof (unfold_locales, rule TrueI)
  fix p
  let ?answers = "\<lambda>es. answers settings_step (\<lambda>_. False) settings_deaf p es"
  have profile: "?answers (profile_form who name mail p)"
    by (auto simp: profile_form_def answers_usable updateProfile_def Let_def settings_deaf_def settings_updates)
  have default: "?answers (default_visibility_form loading p)"
  proof -
    have "default_visibility_select v p = (p, []) \<longleftrightarrow> sp_settings p = None \<or> sp_visibility_pending p" for v
      by (simp add: default_visibility_select_def)
    then show ?thesis
      by (auto simp del: controls.simps(10) simp: default_visibility_form_def split: option.split intro!: answers_select)
  qed
  have processing: "?answers (processing_form p)"
    by (cases "processingDraft p")
      (auto simp: processing_form_def NumberField_def answers_usable updateProcessing_def settings_deaf_def settings_updates draft_updates)
  have password: "?answers (password_form p)"
    by (auto simp: password_form_def answers_usable changePassword_def Let_def settings_deaf_def settings_updates)
  show "?answers (settings_view loading failed who name mail p)"
    by (simp add: settings_view_def profile default processing password)
qed

text \<open>The login and the setup next to their toolbar, whose state is that of the preferences.\<close>

definition with_preferences ::
    "('s \<Rightarrow> 'e \<Rightarrow> 's \<times> 'o list) \<Rightarrow> 's \<times> preferences \<Rightarrow> 'e + preference_event \<Rightarrow> ('s \<times> preferences) \<times> 'o list" where
  "with_preferences step pw e =
     (case e of
        Inl x \<Rightarrow> ((fst (step (fst pw) x), snd pw), snd (step (fst pw) x))
      | Inr x \<Rightarrow> ((fst pw, preference_step (snd pw) x), []))"

definition setup_deaf :: "setup_page \<times> preferences \<Rightarrow> setup_event + preference_event \<Rightarrow> bool" where
  "setup_deaf pw e \<longleftrightarrow>
     (case e of
        Inl (Setup_Submit f) \<Rightarrow>
          f_password f \<noteq> f_confirmPassword f \<and> setup_error (fst pw) = Some ''setup.passwordMismatch''
      | _ \<Rightarrow> False)"

lemma preference_answers:
  "toggleTheme w \<noteq> w" "w\<lparr>languageOpen := \<not> languageOpen w\<rparr> \<noteq> w" "languageOpen w \<Longrightarrow> changeLanguage l w \<noteq> w"
proof -
  have "shown_theme (toggleTheme w) \<noteq> shown_theme w" by (simp add: toggleTheme_def Let_def)
  then show "toggleTheme w \<noteq> w" by auto
  have "languageOpen (w\<lparr>languageOpen := \<not> languageOpen w\<rparr>) \<noteq> languageOpen w" by simp
  then show "w\<lparr>languageOpen := \<not> languageOpen w\<rparr> \<noteq> w" by metis
  have "\<not> languageOpen (changeLanguage l w)" by (simp add: changeLanguage_def)
  then show "languageOpen w \<Longrightarrow> changeLanguage l w \<noteq> w" by metis
qed

lemma toolbar_answers: "answers (with_preferences step) outside deaf pw (login_toolbar (snd pw))"
  by (cases pw) (simp add: login_toolbar_def with_preferences_def preference_answers)

lemma brand_answers [simp]: "answers step outside deaf s brand_panel"
  by (simp add: brand_panel_def)

interpretation entrance_view: page_view "with_preferences (login_step destination)" "\<lambda>_. True"
  "\<lambda>pw. login_view mail password (snd pw) (fst pw)" "\<lambda>_. False" "\<lambda>_ _. False"
  by unfold_locales
    (auto simp: login_view_def toolbar_answers answers_usable with_preferences_def split: option.split)

lemma setup_updates:
  "p\<lparr>setup_error := e\<rparr> = p \<longleftrightarrow> e = setup_error p" "p\<lparr>setup_visibility := v\<rparr> = p \<longleftrightarrow> v = setup_visibility p"
  "p\<lparr>setup_compression := b\<rparr> = p \<longleftrightarrow> b = setup_compression p" "p\<lparr>setup_conversion := b\<rparr> = p \<longleftrightarrow> b = setup_conversion p"
  by (cases p; auto)+

interpretation initial_view: page_view "with_preferences setup_step" "\<lambda>_. True"
  "\<lambda>pw. setup_view f (snd pw) (fst pw)" "\<lambda>_. False" setup_deaf
proof (unfold_locales, rule TrueI)
  fix pw :: "setup_page \<times> preferences"
  obtain p w where pw: "pw = (p, w)" by fastforce
  have visible: "visibility_text a = ''public'' \<longleftrightarrow> a = Public" "visibility_text a = ''private'' \<longleftrightarrow> a = Private" for a
    by (cases a; simp)+
  show "answers (with_preferences setup_step) (\<lambda>_. False) setup_deaf pw (setup_view f (snd pw) (fst pw))"
    using toolbar_answers [of setup_step "\<lambda>_. False" setup_deaf pw]
    by (auto simp: setup_view_def answers_usable with_preferences_def setup_updates setup_deaf_def pw visible
        split: option.split)
qed


end
