(* ===== verification/Frame_View.thy ===== *)
theory Frame_View
  imports Form_View Layout Date_Picker
begin

text \<open>
  What the frame around the pages shows, \<open>admin-layout.tsx\<close> with \<open>modal.tsx\<close>, \<open>app-footer.tsx\<close> and
  \<open>brand-logo.tsx\<close>, and what the copy control (\<open>copy-link-control.tsx\<close>) and the date picker
  (\<open>date-picker.tsx\<close>) show, and that every control among it is answered.
\<close>

section \<open>The frame\<close>

definition BrandLogo :: "'e element" where
  "BrandLogo = Picture (Raw ''ImageSilo'') ''/brand/imagesilo-logo.png''"

text \<open>\<open>modal.tsx\<close> with its cross, its title and what it contains.\<close>

definition modal_panel :: "bool \<Rightarrow> caption \<Rightarrow> caption list \<Rightarrow> caption \<Rightarrow> 'e \<Rightarrow> 'e element list \<Rightarrow> 'e element list" where
  "modal_panel is_open title description closeLabel onClose body =
     shown_if is_open (Button closeLabel Enabled onClose # map (Note Plain) (title # description) @ body)"

definition profileURL :: string where
  "profileURL = ''https://github.com/Willxup''"

definition AppFooter :: "string \<Rightarrow> 'e element list" where
  "AppFooter version =
     [Note Plain (Raw ([CHR 0xC2, CHR 0xA9] @ '' 2026'')), Link (Raw ''ImageSilo'') repositoryURL,
      Link (Raw ''License'') (repositoryURL @ ''/blob/main/LICENSE''), Note Plain (Raw ''Powered By''),
      Link (Raw ''Willxup GitHub profile'') profileURL,
      Link (Raw (''Version: '' @ normalizedVersion version)) (versionURL version)]"

definition nav_label :: "nav_item \<Rightarrow> caption" where
  "nav_label item = say (''nav.'' @ nav_key item)"

definition header_context :: "string \<Rightarrow> caption" where
  "header_context path = (case currentItem path of Some item \<Rightarrow> nav_label item | None \<Rightarrow> Raw ''ImageSilo'')"

definition header_tools :: "preferences \<Rightarrow> layout_event element list" where
  "header_tools w =
     [Button (say ''nav.globalSearch'') Enabled Search_Trigger,
      Button (say (if shown_theme w = Light then ''preferences.dark'' else ''preferences.light'')) Enabled (Preference Toggle_Theme),
      Button (say ''preferences.language'') Enabled (Preference Toggle_Languages)] @
     shown_if (languageOpen w)
       [Button (Raw ''English'') Enabled (Preference (Change_Language En_US)),
        Button (Raw simplified_chinese) Enabled (Preference (Change_Language Zh_CN))]"

definition profile_name :: "admin_session option \<Rightarrow> string" where
  "profile_name who = (case who of Some a \<Rightarrow> if displayName a \<noteq> [] then displayName a else ''ImageSilo'' | None \<Rightarrow> ''ImageSilo'')"

definition account_panel :: "admin_session option \<Rightarrow> bool \<Rightarrow> layout_event element list" where
  "account_panel who is_open =
     Button (say ''nav.account'') Enabled (Account Profile_Toggle) #
     shown_if is_open
       [Note Plain (Raw (profile_name who)), Note Plain (Raw (case who of Some a \<Rightarrow> email a | None \<Rightarrow> [])),
        Button (say ''nav.settings'') Enabled (Account Settings_Item),
        Button (say ''auth.signOut'') Enabled (Account Sign_Out_Item)]"

definition layout_header :: "admin_session option \<Rightarrow> admin_layout \<Rightarrow> layout_event element list" where
  "layout_header who l =
     [Link (say ''nav.openRepository'') repositoryURL, Note Plain (header_context (layout_path l))] @
     header_tools (preferences_of l) @ account_panel who (profileOpen l)"

text \<open>What is shown while the module of a page is being fetched.\<close>

definition route_placeholder :: "string \<Rightarrow> 'e element list" where
  "route_placeholder path = [Note Status (say (if path = ''/admin/migrations'' then ''migrations.scanning'' else ''common.loading''))]"

definition workspace_dock :: "admin_layout \<Rightarrow> layout_event element list" where
  "workspace_dock l =
     map (\<lambda>item. Link (nav_label item) (nav_to item)) (dock_items (mobile l)) @
     shown_if (mobile l)
       [Button (Cat [say (snd (more_button (layout_path l))), Raw '', '', say ''common.menu'']) Enabled (Sheet More_Button)]"

definition sheet_panel :: "admin_layout \<Rightarrow> layout_event element list" where
  "sheet_panel l =
     modal_panel (mobileOpen l) (say ''nav.allPages'') [] (say ''common.close'') (Sheet Sheet_Close)
       (map (\<lambda>item. Jump (nav_label item) (nav_to item) (Sheet (Sheet_Link (nav_to item)))) navigationItems)"

definition search_panel :: "admin_layout \<Rightarrow> layout_event element list" where
  "search_panel l =
     modal_panel (searchOpen l) (say ''nav.searchTitle'') [say ''nav.searchDescription''] (say ''common.close'') (Search Search_Close)
       [Text_Field [] (say ''nav.globalSearch'') (searchTerm l), Button (say ''images.search'') Enabled (Search Search_Submit),
        Note Plain (say ''nav.searchHint'')]"

definition frame_dialog :: "admin_layout \<Rightarrow> bool" where
  "frame_dialog l \<longleftrightarrow> mobileOpen l \<or> searchOpen l"

text \<open>
  The frame around a page. Inside a dialog of the page (\<open>covered\<close>) the frame is inert; behind a dialog of
  the frame everything else is, a dialog of the page included. The outlet is empty until the page's module is there.
\<close>

definition layout_view ::
    "admin_session option \<Rightarrow> string \<Rightarrow> bool \<Rightarrow> 'e element list option \<Rightarrow> admin_layout \<Rightarrow> (layout_event + 'e) element list" where
  "layout_view who version covered outlet l =
     (let own = map (map_element Inl)
      in behind (frame_dialog l)
           (Region covered (own (layout_header who l)) #
            (case outlet of None \<Rightarrow> route_placeholder (layout_path l) | Some page \<Rightarrow> map (map_element Inr) page) @
            [Region covered (own (AppFooter version @ workspace_dock l))])
           (own (sheet_panel l @ search_panel l)))"

section \<open>The copy control\<close>

definition copy_control_view :: "(caption \<Rightarrow> caption) option \<Rightarrow> copy_control \<Rightarrow> copy_event element list" where
  "copy_control_view ariaLabel s =
     (let short = say (''images.linkFormatShort.'' @ format_text (cc_format s));
          count = length (cc_images s);
          name = (\<lambda>f. say (''images.linkFormat.'' @ format_text f))
      in [Button (case ariaLabel of Some g \<Rightarrow> g short
            | None \<Rightarrow> if count = 1 then Fill ''images.copySelectedFormat'' [(''format'', short)]
                else Fill ''images.copySelectedLinksFormat'' [(''count'', Raw (decimal count)), (''format'', short)])
            (View.usable (copy_disabled s)) Copy_Click,
          Button (Cat [say ''images.chooseLinkFormat'', Raw '': '', name (cc_format s)]) Enabled Toggle_Formats] @
         shown_if (cc_open s) (map (\<lambda>f. Button (name f) Enabled (Choose_Format f)) link_formats))"

section \<open>The date picker\<close>

record picker_labels =
  pl_name :: caption
  pl_placeholder :: caption
  pl_clear :: caption
  pl_today :: caption
  pl_previousMonth :: caption
  pl_nextMonth :: caption

definition picker_day :: "(int \<Rightarrow> string) \<Rightarrow> date_picker \<Rightarrow> int \<Rightarrow> picker_event element" where
  "picker_day full s d = Choice (Raw (full d)) (toDateValue d = dp_value s) (View.usable (below_minimum s d)) (Day_Click d)"

text \<open>How the language of the page writes a date, short, in full and its month, is a parameter.\<close>

definition picker_view ::
    "picker_labels \<Rightarrow> (int \<Rightarrow> string) \<Rightarrow> (int \<Rightarrow> string) \<Rightarrow> (int \<Rightarrow> string) \<Rightarrow> int \<Rightarrow> date_picker \<Rightarrow> picker_event element list" where
  "picker_view labels short full month today s =
     Button (Cat [pl_name labels, Raw '': '', case Date_Picker.selected s of Some d \<Rightarrow> Raw (short d) | None \<Rightarrow> pl_placeholder labels])
       Enabled (Trigger_Click today) #
     shown_if (dp_open s)
       ([Button (pl_previousMonth labels) (View.usable (previous_disabled s)) (Month_Button (- 1)),
         Note Status (Raw (month (visibleMonth s))), Button (pl_nextMonth labels) Enabled (Month_Button 1)] @
        map (picker_day full s) (calendarDays (visibleMonth s)) @
        [Button (pl_today labels) (View.usable (below_minimum s today)) (Today_Click today),
         Button (pl_clear labels) (View.usable (dp_value s = [])) Clear_Click])"

section \<open>The frame answers\<close>

lemma offered_Note [simp]: "offered (map (Note r) cs) = []"
  by (induction cs) simp_all

lemma controls_map: "controls (map_element f x) = map (apfst f) (controls x)"
proof (induction x)
  case (Region hidden es)
  then have "concat (map controls (map (map_element f) es)) = map (apfst f) (concat (map controls es))"
    by (induction es) simp_all
  then show ?case by (simp add: controls.simps(12) del: controls_Region)
qed (auto split: prod.split)

lemma offered_map: "offered (map (map_element f) es) = map (apfst f) (offered es)"
  by (induction es) (simp_all add: controls_map)

lemma set_offered_modal [simp]:
  "set (offered (modal_panel is_open title description closeLabel onClose body)) =
     (if is_open then insert (onClose, Enabled) (set (offered body)) else {})"
  by (simp add: modal_panel_def shown_if_def)

lemma answers_Note [simp]: "answers step outside deaf s (map (Note r) cs)"
  by (simp add: answers_def del: answers_simps(5))

lemma answers_modal [simp]:
  "answers step outside deaf s (modal_panel is_open title description closeLabel onClose body) \<longleftrightarrow>
     (is_open \<longrightarrow> answers_event step outside deaf s (onClose, Enabled) \<and> answers step outside deaf s body)"
  by (simp add: modal_panel_def)

abbreviation frame_answers :: "admin_layout \<Rightarrow> layout_event element list \<Rightarrow> bool" where
  "frame_answers \<equiv> answers layout_step (\<lambda>_. False) (\<lambda>_ _. False)"

lemma layout_updates:
  "l\<lparr>mobileOpen := b\<rparr> = l \<longleftrightarrow> b = mobileOpen l" "l\<lparr>searchOpen := b\<rparr> = l \<longleftrightarrow> b = searchOpen l"
  "l\<lparr>profileOpen := b\<rparr> = l \<longleftrightarrow> b = profileOpen l" "l\<lparr>preferences_of := w\<rparr> = l \<longleftrightarrow> w = preferences_of l"
  by (cases l; auto)+

lemma header_answers: "frame_answers l (layout_header who l)" if "\<not> frame_dialog l"
  using that
  by (simp add: layout_header_def header_tools_def account_panel_def layout_updates preference_answers frame_dialog_def)

lemma dock_answers: "frame_answers l (workspace_dock l)" if "\<not> frame_dialog l"
proof -
  have "frame_answers l (map (\<lambda>item. Link (nav_label item) (nav_to item)) xs)" for xs
    by (induction xs) simp_all
  then show ?thesis using that by (simp add: workspace_dock_def frame_dialog_def layout_updates)
qed

lemma footer_answers [simp]: "answers step outside deaf s (AppFooter version)"
  by (simp add: AppFooter_def)

lemma sheet_answers: "frame_answers l (sheet_panel l)"
proof -
  have "frame_answers l (map (\<lambda>item. Jump (nav_label item) (nav_to item) (Sheet (Sheet_Link (nav_to item)))) xs)" for xs
    by (induction xs) simp_all
  then show ?thesis by (simp add: sheet_panel_def layout_updates)
qed

lemma search_answers: "frame_answers l (search_panel l)"
  by (simp add: search_panel_def layout_updates searchImages_def)

lemma placeholder_offers [simp]: "offered (route_placeholder path) = []" "answers step outside deaf s (route_placeholder path)"
  by (simp_all add: route_placeholder_def)

lemma footer_offers [simp]: "offered (AppFooter version) = []"
  by (simp add: AppFooter_def)

definition frame_dialog_event :: "layout_event \<Rightarrow> bool" where
  "frame_dialog_event e \<longleftrightarrow> (case e of Sheet x \<Rightarrow> x \<noteq> More_Button | Search x \<Rightarrow> True | _ \<Rightarrow> False)"

lemma panel_offers:
  "(e, u) \<in> set (offered (sheet_panel l)) \<Longrightarrow> frame_dialog_event e"
  "(e, u) \<in> set (offered (search_panel l)) \<Longrightarrow> frame_dialog_event e"
proof -
  have "set (offered (map (\<lambda>item. Jump (nav_label item) (nav_to item) (Sheet (Sheet_Link (nav_to item)))) xs)) \<subseteq>
      {(Sheet (Sheet_Link x), Enabled) | x. True}" for xs
    by (induction xs) auto
  then show "(e, u) \<in> set (offered (sheet_panel l)) \<Longrightarrow> frame_dialog_event e"
    by (fastforce simp: sheet_panel_def frame_dialog_event_def split: if_splits)
qed (auto simp: search_panel_def frame_dialog_event_def split: if_splits)

lemma panel_events: "x \<in> set (offered (sheet_panel l)) \<union> set (offered (search_panel l)) \<Longrightarrow> frame_dialog_event (fst x)"
  by (cases x) (auto intro: panel_offers)

lemma no_panels: "\<not> frame_dialog l \<Longrightarrow> sheet_panel l = [] \<and> search_panel l = []"
  by (simp add: frame_dialog_def sheet_panel_def search_panel_def modal_panel_def)

lemma set_offered_layout:
  "set (offered (layout_view who version covered outlet l)) =
     (if frame_dialog l then apfst Inl ` (set (offered (sheet_panel l)) \<union> set (offered (search_panel l)))
      else (if covered then {} else apfst Inl ` (set (offered (layout_header who l)) \<union> set (offered (workspace_dock l)))) \<union>
        (case outlet of None \<Rightarrow> {} | Some page \<Rightarrow> apfst Inr ` set (offered page)))"
  using no_panels [of l]
  by (cases outlet) (auto simp: layout_view_def Let_def offered_map image_Un simp del: map_append)

section \<open>The copy control and the date picker answer\<close>

text \<open>A click on the copy button does nothing where the links of the images are no text at all.\<close>

definition copy_deaf :: "string \<Rightarrow> copy_control \<Rightarrow> copy_event \<Rightarrow> bool" where
  "copy_deaf origin s e \<longleftrightarrow> e = Copy_Click \<and> cc_value origin s = None"

lemma copy_updates: "s\<lparr>cc_open := b\<rparr> = s \<longleftrightarrow> b = cc_open s"
  "s\<lparr>cc_format := f, cc_open := b\<rparr> = s \<longleftrightarrow> f = cc_format s \<and> b = cc_open s"
  by (cases s; auto)+

interpretation copy_view: page_view "copy_step origin" "\<lambda>_. True" "copy_control_view g" "\<lambda>_. False" "copy_deaf origin"
proof (unfold_locales, rule TrueI)
  fix s
  have formats: "answers (copy_step origin) (\<lambda>_. False) (copy_deaf origin) s (map (\<lambda>f. Button (name f) Enabled (Choose_Format f)) fs)"
    if "cc_open s" for name fs
    using that by (induction fs) (auto simp: copy_updates)
  show "answers (copy_step origin) (\<lambda>_. False) (copy_deaf origin) s (copy_control_view g s)"
    by (auto simp: copy_control_view_def Let_def answers_usable copy_deaf_def copy_updates formats split: option.split)
qed

lemma next_month_differs: "addMonths m 1 \<noteq> m"
proof -
  define y where "y = (if 0 \<le> year_of m \<and> year_of m \<le> 99 then 1900 + year_of m else year_of m)"
  have "month_of (addMonths m 1) \<noteq> month_of m"
  proof (cases "month_of m = 11")
    case True
    have "addMonths m 1 = make_day (y + 1) (int 0) 1" by (simp add: addMonths_def new_date_def y_def True make_day_def)
    then show ?thesis using components_make_day(2) [of 0 1 "y + 1"] month_length_pos [of 0 "y + 1"] True by simp
  next
    case False
    then have k: "Suc (month_of m) < 12" using date_components(1) [of m] by linarith
    have "addMonths m 1 = make_day y (int (Suc (month_of m))) 1" by (simp add: addMonths_def new_date_def y_def add.commute)
    then show ?thesis using components_make_day(2) [OF k, of 1 y] month_length_pos [OF k, of y] by simp
  qed
  then show ?thesis by metis
qed

lemma previous_month_differs: "addMonths m (- 1) \<noteq> m"
proof -
  define y where "y = (if 0 \<le> year_of m \<and> year_of m \<le> 99 then 1900 + year_of m else year_of m)"
  have "month_of (addMonths m (- 1)) \<noteq> month_of m"
  proof (cases "month_of m")
    case 0
    have "addMonths m (- 1) = make_day (y - 1) (int 11) 1" by (simp add: addMonths_def new_date_def y_def 0 make_day_def Let_def)
    then show ?thesis using components_make_day(2) [of 11 1 "y - 1"] month_length_pos [of 11 "y - 1"] 0 by simp
  next
    case (Suc k)
    then have k: "k < 12" using date_components(1) [of m] by linarith
    have "addMonths m (- 1) = make_day y (int k) 1" by (simp add: addMonths_def new_date_def y_def Suc)
    then show ?thesis using components_make_day(2) [OF k, of 1 y] month_length_pos [OF k, of y] Suc by simp
  qed
  then show ?thesis by metis
qed

lemma changeMonth_differs: "a = 1 \<or> a = - 1 \<Longrightarrow> changeMonth a s \<noteq> s"
proof -
  assume "a = 1 \<or> a = - 1"
  then have "visibleMonth (changeMonth a s) \<noteq> visibleMonth s"
    using next_month_differs previous_month_differs by (auto simp: changeMonth_def Let_def)
  then show ?thesis by metis
qed

interpretation date_view: page_view picker_step "\<lambda>_. True" "picker_view labels short full month today" "\<lambda>_. False" "\<lambda>_ _. False"
proof (unfold_locales, rule TrueI)
  fix s
  let ?answers = "answers picker_step (\<lambda>_. False) (\<lambda>_ _. False) s"
  have days: "?answers (map (picker_day full s) ds)" if "dp_open s" "set ds \<subseteq> set (calendarDays (visibleMonth s))" for ds
    using that by (induction ds) (auto simp: picker_day_def answers_usable day_enabled_def selectDate_def)
  have trigger: "showPicker today s \<noteq> (s, [])"
  proof (cases "dp_open s")
    case True
    have "dp_open (s\<lparr>dp_open := False\<rparr>) \<noteq> dp_open s" using True by simp
    then have "s\<lparr>dp_open := False\<rparr> \<noteq> s" by metis
    then show ?thesis using True by (simp add: showPicker_def)
  qed (simp add: showPicker_def Let_def)
  show "?answers (picker_view labels short full month today s)"
    using trigger days [OF _ order_refl]
    by (auto simp: picker_view_def answers_usable selectDate_def changeMonth_differs)
qed

end
