(* ===== verification/Window.thy ===== *)
theory Window
  imports Frame_View
begin

text \<open>
  A page in the frame: the two have their own states and events (\<open>framed_step\<close> interleaves them) and share
  one window (\<open>window_view\<close>). The locale \<open>framed_page\<close> extends the contract of a page by what its dialogs
  offer and derives the contract of the whole window; it is interpreted on every page of the frame.
\<close>

section \<open>Two states, one window\<close>

definition framed_step ::
    "('s \<Rightarrow> 'e \<Rightarrow> 's \<times> 'o list) \<Rightarrow> admin_layout \<times> 's \<Rightarrow> layout_event + 'e \<Rightarrow> (admin_layout \<times> 's) \<times> (effect + 'o) list" where
  "framed_step step ls e =
     (case e of
        Inl x \<Rightarrow> ((fst (layout_step (fst ls) x), snd ls), map Inl (snd (layout_step (fst ls) x)))
      | Inr x \<Rightarrow> ((fst ls, fst (step (snd ls) x)), map Inr (snd (step (snd ls) x))))"

lemma framed_step_simps [simp]:
  "fst (fst (framed_step step (l, s) (Inl x))) = fst (layout_step l x)"
  "fst (fst (framed_step step (l, s) (Inr y))) = l"
  "snd (fst (framed_step step (l, s) (Inl x))) = s"
  "snd (fst (framed_step step (l, s) (Inr y))) = fst (step s y)"
  "framed_step step (l, s) (Inl x) = ((l, s), []) \<longleftrightarrow> layout_step l x = (l, [])"
  "framed_step step (l, s) (Inr y) = ((l, s), []) \<longleftrightarrow> step s y = (s, [])"
  by (auto simp: framed_step_def prod_eq_iff)

lemma answers_own:
  "answers (framed_step step) (case_sum out outside) (\<lambda>ls. case_sum (d (fst ls)) (deaf (snd ls))) (l, s) (map (map_element Inl) es) \<longleftrightarrow>
     answers layout_step out d l es"
  by (auto simp: answers_def list_all_iff answers_event_def offered_map split: usage.splits)

lemma answers_page:
  "answers (framed_step step) (case_sum out outside) (\<lambda>ls. case_sum (d (fst ls)) (deaf (snd ls))) (l, s) (map (map_element Inr) es) \<longleftrightarrow>
     answers step outside deaf s es"
  by (auto simp: answers_def list_all_iff answers_event_def offered_map split: usage.splits)

definition window_view ::
    "admin_session option \<Rightarrow> string \<Rightarrow> ('q \<Rightarrow> 's \<Rightarrow> 'e element list) \<Rightarrow> ('q \<Rightarrow> 's \<Rightarrow> bool) \<Rightarrow> 'q option \<Rightarrow> admin_layout \<times> 's \<Rightarrow>
      (layout_event + 'e) element list" where
  "window_view who version view dialog_open ready ls =
     (case ready of
        None \<Rightarrow> layout_view who version False None (fst ls)
      | Some q \<Rightarrow> layout_view who version (dialog_open q (snd ls)) (Some (view q (snd ls))) (fst ls))"

text \<open>
  Only the controls of the dialog on top can be reached: of the frame, if it has one open, or else of the
  page.
\<close>

definition only_top :: "(layout_event + 'e) element list \<Rightarrow> admin_layout \<Rightarrow> bool \<Rightarrow> ('e \<Rightarrow> bool) \<Rightarrow> bool" where
  "only_top es l dialog dialog_event \<longleftrightarrow>
     (if frame_dialog l then list_all (\<lambda>(e, u). case_sum frame_dialog_event (\<lambda>_. False) e) (offered es)
      else if dialog then list_all (\<lambda>(e, u). case_sum (\<lambda>_. False) dialog_event e) (offered es) else True)"

section \<open>The contract of a page in the frame\<close>

locale framed_page = reactive step inv
  for step :: "'s \<Rightarrow> 'e \<Rightarrow> 's \<times> 'o list" and inv +
  fixes view :: "'q \<Rightarrow> 's \<Rightarrow> 'e element list"
    and outside :: "'e \<Rightarrow> bool"
    and deaf :: "'s \<Rightarrow> 'e \<Rightarrow> bool"
    and dialog_open :: "'q \<Rightarrow> 's \<Rightarrow> bool"
    and dialog_event :: "'e \<Rightarrow> bool"
  assumes page_answers: "inv s \<Longrightarrow> answers step outside deaf s (view q s)"
    and dialog_only: "inv s \<Longrightarrow> dialog_open q s \<Longrightarrow> (e, u) \<in> set (offered (view q s)) \<Longrightarrow> dialog_event e"
begin

lemma window_answers:
  assumes "inv s"
  shows "answers (framed_step step) (case_sum (\<lambda>_. False) outside) (\<lambda>ls. case_sum (\<lambda>_. False) (deaf (snd ls))) (l, s)
    (window_view who version view dialog_open ready (l, s))"
proof -
  note own = answers_own [where out = "\<lambda>_. False" and d = "\<lambda>_ _. False" and step = step and outside = outside and deaf = deaf
      and l = l and s = s]
  note page = answers_page [where out = "\<lambda>_. False" and d = "\<lambda>_ _. False" and step = step and outside = outside and deaf = deaf
      and l = l and s = s]
  show ?thesis
    using page_answers [OF assms] header_answers [of l who] dock_answers [of l]
    by (cases ready) (auto simp: window_view_def layout_view_def Let_def answers_behind own page sheet_answers search_answers
        simp del: map_append)
qed

sublocale pages: page_view step inv "view q" outside deaf for q
  by unfold_locales (rule page_answers)

sublocale framed: page_view "framed_step step" "\<lambda>ls. inv (snd ls)" "window_view who version view dialog_open ready"
  "case_sum (\<lambda>_. False) outside" "\<lambda>ls. case_sum (\<lambda>_. False) (deaf (snd ls))" for who version ready
proof
  fix ls e
  show "inv (snd ls) \<Longrightarrow> inv (snd (fst (framed_step step ls e)))"
    by (cases ls; cases e) (auto intro: step_inv)
  show "inv (snd ls) \<Longrightarrow> answers (framed_step step) (case_sum (\<lambda>_. False) outside) (\<lambda>ls. case_sum (\<lambda>_. False) (deaf (snd ls))) ls
      (window_view who version view dialog_open ready ls)"
    using window_answers [of "snd ls" "fst ls"] by simp
qed

lemma window_top:
  assumes "inv s"
  shows "only_top (window_view who version view dialog_open ready (l, s)) l (case ready of None \<Rightarrow> False | Some q \<Rightarrow> dialog_open q s) dialog_event"
proof (cases "frame_dialog l")
  case True
  then show ?thesis
    by (cases ready; simp add: only_top_def window_view_def set_offered_layout list_all_iff ball_Un split_def panel_events)
next
  case False
  then show ?thesis using dialog_only [OF assms]
    by (cases ready) (auto simp: only_top_def window_view_def set_offered_layout list_all_iff)
qed

end

text \<open>
  How the window is used: through its controls, whatever the query library has for the page at the time
  (\<open>ready\<close> is \<open>None\<close> until the page's module is there), and by its surroundings. Escape and a press beside a
  dialog do what its cross does (theory \<open>Modal\<close>).
\<close>

definition frame_surroundings :: "layout_event \<Rightarrow> bool" where
  "frame_surroundings e \<longleftrightarrow>
     (case e of
        Sheet x \<Rightarrow> False | Search_Trigger \<Rightarrow> False | Search x \<Rightarrow> (case x of Search_Input t \<Rightarrow> True | _ \<Rightarrow> False)
      | Account x \<Rightarrow> (case x of Profile_Open_Change b \<Rightarrow> True | _ \<Rightarrow> False)
      | _ \<Rightarrow> True)"

inductive window_reach ::
    "('s \<Rightarrow> 'e \<Rightarrow> 's \<times> 'o list) \<Rightarrow> ('q \<Rightarrow> 's \<Rightarrow> 'e element list) \<Rightarrow> ('q \<Rightarrow> 's \<Rightarrow> bool) \<Rightarrow> ('e \<Rightarrow> bool) \<Rightarrow>
      admin_layout \<times> 's \<Rightarrow> admin_layout \<times> 's \<Rightarrow> bool"
  for step view dialog_open surroundings ls0 where
  Window_Start: "window_reach step view dialog_open surroundings ls0 ls0"
| Window_Control: "window_reach step view dialog_open surroundings ls0 ls \<Longrightarrow>
    (e, Enabled) \<in> set (offered (window_view who version view dialog_open ready ls)) \<Longrightarrow>
    window_reach step view dialog_open surroundings ls0 (fst (framed_step step ls e))"
| Window_Surroundings: "window_reach step view dialog_open surroundings ls0 ls \<Longrightarrow>
    case_sum frame_surroundings surroundings e \<Longrightarrow>
    window_reach step view dialog_open surroundings ls0 (fst (framed_step step ls e))"

definition one_dialog :: "admin_layout \<Rightarrow> bool" where
  "one_dialog l \<longleftrightarrow> \<not> (mobileOpen l \<and> searchOpen l) \<and> (mobileOpen l \<longrightarrow> mobile l)"

lemma one_dialog_step:
  assumes "one_dialog l" and "e = Search_Trigger \<or> e = Sheet More_Button \<Longrightarrow> \<not> frame_dialog l"
  shows "one_dialog (fst (layout_step l e))"
proof (cases e)
  case (Account a)
  then show ?thesis using assms by (cases a) (auto simp: one_dialog_def)
next
  case (Search a)
  then show ?thesis using assms by (cases a) (auto simp: one_dialog_def searchImages_def)
next
  case (Sheet a)
  then show ?thesis using assms by (cases a) (auto simp: one_dialog_def frame_dialog_def)
qed (use assms in \<open>auto simp: one_dialog_def frame_dialog_def location_effects_def media_update_def openSearch_def\<close>)

lemma window_offers:
  assumes "(e, u) \<in> set (offered (window_view who version view dialog_open ready (l, s)))" "frame_dialog l"
  shows "\<exists>x. e = Inl x \<and> frame_dialog_event x"
  using assms
  by (cases ready) (auto dest: panel_offers simp: window_view_def set_offered_layout)

lemma window_reach_one_dialog:
  assumes "window_reach step view dialog_open surroundings ls0 ls" "one_dialog (fst ls0)"
  shows "one_dialog (fst ls)"
  using assms
proof (induction rule: window_reach.induct)
  case (Window_Control ls e who version ready)
  obtain l s where ls: "ls = (l, s)" by fastforce
  show ?case
  proof (cases e)
    case (Inl x)
    have "\<not> frame_dialog l" if "x = Search_Trigger \<or> x = Sheet More_Button"
      using window_offers [OF Window_Control.hyps(2) [unfolded ls]] that Inl by (auto simp: frame_dialog_event_def)
    then show ?thesis using one_dialog_step [of l x] Window_Control.IH Window_Control.prems by (simp add: ls Inl)
  qed (use Window_Control.IH Window_Control.prems in \<open>simp add: ls\<close>)
next
  case (Window_Surroundings ls e)
  obtain l s where ls: "ls = (l, s)" by fastforce
  show ?case
  proof (cases e)
    case (Inl x)
    then have "x \<noteq> Search_Trigger" "x \<noteq> Sheet More_Button"
      using Window_Surroundings.hyps(2) by (auto simp: frame_surroundings_def)
    then show ?thesis using one_dialog_step [of l x] Window_Surroundings.IH Window_Surroundings.prems by (simp add: ls Inl)
  qed (use Window_Surroundings.IH Window_Surroundings.prems in \<open>simp add: ls\<close>)
qed simp

context framed_page
begin

lemma window_reach_inv:
  "window_reach step (view :: 'q \<Rightarrow> 's \<Rightarrow> 'e element list) dialog_open surroundings ls0 ls \<Longrightarrow> inv (snd ls0) \<Longrightarrow> inv (snd ls)"
proof (induction rule: window_reach.induct)
  case (Window_Control ls e who version ready)
  then show ?case by (cases ls; cases e) (auto intro: step_inv)
next
  case (Window_Surroundings ls e)
  then show ?case by (cases ls; cases e) (auto intro: step_inv)
qed

lemma window_in_order:
  assumes "window_reach step view dialog_open surroundings (layout_init mob prefs path, s0) (l, s)" "inv s0"
  shows "one_dialog l \<and>
    answers (framed_step step) (case_sum (\<lambda>_. False) outside) (\<lambda>ls. case_sum (\<lambda>_. False) (deaf (snd ls))) (l, s)
      (window_view who version view dialog_open ready (l, s)) \<and>
    only_top (window_view who version view dialog_open ready (l, s)) l (case ready of None \<Rightarrow> False | Some q \<Rightarrow> dialog_open q s) dialog_event"
proof -
  have "inv s" using window_reach_inv [OF assms(1)] assms(2) by simp
  moreover have "one_dialog l" using window_reach_one_dialog [OF assms(1)] by (simp add: one_dialog_def layout_init_def)
  ultimately show ?thesis using window_answers window_top by simp
qed

end

section \<open>The pages in the frame\<close>

text \<open>Each page with what the query library has for it, the dialogs it opens and their events.\<close>

interpretation framed_library: framed_page "image_list_step c" "\<lambda>_. True"
  "\<lambda>(narrow, f, q). image_list_view local narrow f q" loads_page image_list_deaf "\<lambda>_. deleteConfirmOpen"
  "\<lambda>e. e = Dialog_Cancel \<or> e = Dialog_Confirm"
  by (unfold_locales, rule TrueI) (auto simp: library_view.view_answers, auto simp: image_list_view_def Let_def)

interpretation framed_migration: framed_page migration_step "\<lambda>_. True"
  "\<lambda>(narrow, f, loading, failed, fetching). migration_view local narrow f loading failed fetching"
  loads_migration_page migration_deaf "\<lambda>_. mg_deleteConfirmOpen" "\<lambda>e. \<exists>b. e = Mg_Dialog b"
  by (unfold_locales, rule TrueI) (auto simp: migration_library_view.view_answers, auto simp: migration_view_def Let_def)

interpretation framed_tokens: framed_page "token_step c" "\<lambda>_. True" "\<lambda>(today, q). token_view local today q"
  "\<lambda>_. False" token_deaf "\<lambda>_ p. tk_revokeTarget p \<noteq> None" "\<lambda>e. \<exists>b. e = Token_Dialog b"
  by (unfold_locales, rule TrueI) (auto simp: tokens_view.view_answers, auto simp: token_view_def Let_def)

interpretation framed_aliases: framed_page "alias_step origin" "\<lambda>_. True" "\<lambda>(path, lookup, q). alias_view path lookup q"
  loads_alias_page "alias_deaf origin" "\<lambda>_ p. al_deleteTarget p \<noteq> None" "\<lambda>e. \<exists>b. e = Alias_Dialog b"
  by (unfold_locales, rule TrueI) (auto simp: aliases_view.view_answers, auto simp: alias_view_def Let_def)

interpretation framed_image: framed_page detail_step "\<lambda>_. True" "\<lambda>(pre, q). detail_view local json_text pre q"
  "\<lambda>_. False" detail_deaf
  "\<lambda>(pre, q) p. \<not> qv_loading q \<and> \<not> qv_error q \<and> qv_data q \<noteq> None \<and> (dp_deleteOpen p \<or> dp_convertOpen p)"
  "\<lambda>e. \<exists>b. e = Detail_Button (Delete_Dialog b) \<or> e = Detail_Button (Convert_Dialog b)"
  by (unfold_locales, rule TrueI)
    (auto simp: image_view.view_answers, auto simp: detail_view_def detail_dialogs_view_def split: if_splits)

interpretation framed_system: framed_page system_step "\<lambda>_. True" "system_view local" "\<lambda>_. False" system_deaf "\<lambda>_. sy_rebuildOpen"
  "\<lambda>e. \<exists>b. e = Rebuild_Dialog b"
  by (unfold_locales, rule TrueI) (auto simp: maintenance_view.view_answers, auto simp: system_view_def)

interpretation framed_forms: framed_page settings_step "\<lambda>_. True"
  "\<lambda>(loading, failed, who, name, mail). settings_view loading failed who name mail" "\<lambda>_. False" settings_deaf "\<lambda>_ _. False" "\<lambda>_. False"
  by (unfold_locales, rule TrueI) (auto simp: forms_view.view_answers)

interpretation framed_queue: framed_page upload_step "\<lambda>s. upload_inv s \<and> rows_abortable s" upload_view "\<lambda>_. False" upload_deaf
  "\<lambda>_ _. False" "\<lambda>_. False"
  by (unfold_locales) (auto simp: queue_view.view_answers dest: queue_view.step_inv)

section \<open>Properties\<close>



end
