(* ===== verification/Markup.thy ===== *)
theory Markup
  imports Prelude
begin

text \<open>
  The markup that the pages are built from: \<open>button\<close>, \<open>badge\<close>, \<open>card\<close>, \<open>component-card\<close>, \<open>checkbox\<close>,
  \<open>input\<close> and \<open>icon\<close> of \<open>web/src/components/ui\<close> and \<open>web/src/lib/utils.ts\<close>. A component is a function from its
  properties and children to an element; what matters of it is which of the properties it is given reach the
  element, so that a disabled button is disabled and a handler is called. The class names are
  put together by the libraries \<open>clsx\<close>, \<open>tailwind-merge\<close> and \<open>class-variance-authority\<close>, parameters here.
\<close>

section \<open>Properties and elements\<close>

datatype prop_value =
    Text_Value string
  | Bool_Value bool
  | Number_Value rat
  | Function_Value nat
  | Null_Value
  | Undefined

type_synonym props = "(string \<times> prop_value) list"

datatype node =
    Text_Node string
  | Element string props "node list"
  | No_Node

definition prop_of :: "string \<Rightarrow> props \<Rightarrow> prop_value" where
  "prop_of k ps = (case map_of ps k of None \<Rightarrow> Undefined | Some v \<Rightarrow> v)"

fun truthy :: "prop_value \<Rightarrow> bool" where
  "truthy (Text_Value s) = (s \<noteq> [])"
| "truthy (Bool_Value b) = b"
| "truthy (Number_Value x) = (x \<noteq> 0)"
| "truthy (Function_Value f) = True"
| "truthy Null_Value = False"
| "truthy Undefined = False"

text \<open>
  A property of a destructuring pattern with its default, the rest of the pattern, and an object that is
  spread over another, so that its properties win.
\<close>

definition given :: "string \<Rightarrow> prop_value \<Rightarrow> props \<Rightarrow> prop_value" where
  "given k d ps = (if prop_of k ps = Undefined then d else prop_of k ps)"

definition without :: "string list \<Rightarrow> props \<Rightarrow> props" where
  "without ks ps = filter (\<lambda>(k, _). k \<notin> set ks) ps"

definition spread :: "props \<Rightarrow> props \<Rightarrow> props" where
  "spread base over = AList.merge base over"

lemma map_of_without [simp]: "map_of (without ks ps) k = (if k \<in> set ks then None else map_of ps k)"
  by (induction ps) (auto simp: without_def)

lemma map_of_spread [simp]: "map_of (spread base over) k = (case map_of over k of None \<Rightarrow> map_of base k | Some v \<Rightarrow> Some v)"
  by (simp add: spread_def merge_conv' map_add_def)

lemma prop_of_simps [simp]:
  "prop_of k [] = Undefined" "prop_of k ((k', v) # ps) = (if k = k' then v else prop_of k ps)"
  "prop_of k (without ks ps) = (if k \<in> set ks then Undefined else prop_of k ps)"
  by (simp_all add: prop_of_def)

fun node_props :: "node \<Rightarrow> props" where
  "node_props (Element tag ps cs) = ps"
| "node_props _ = []"

text \<open>
  The handler that a click on an element calls: none of a disabled control, otherwise the one the
  element has.
\<close>

fun click :: "node \<Rightarrow> nat option" where
  "click (Element tag ps cs) =
     (if tag \<in> {''button'', ''input''} \<and> truthy (prop_of ''disabled'' ps) then None
      else case prop_of ''onClick'' ps of Function_Value f \<Rightarrow> Some f | _ \<Rightarrow> None)"
| "click _ = None"

text \<open>The text of an element as it is read, without the parts that are hidden from assistive technology.\<close>

primrec spoken :: "node \<Rightarrow> string" where
  "spoken (Text_Node s) = s"
| "spoken (Element tag ps cs) =
     (if prop_of ''aria-hidden'' ps = Text_Value ''true'' then [] else concat (map spoken cs))"
| "spoken No_Node = []"

section \<open>Class names\<close>

record class_library =
  clsx :: "prop_value list \<Rightarrow> string"
  twMerge :: "string \<Rightarrow> string"
  cva :: "string \<Rightarrow> (string \<times> (string \<times> string) list) list \<Rightarrow> (string \<times> string) list \<Rightarrow> props \<Rightarrow> string"

definition cn :: "class_library \<Rightarrow> prop_value list \<Rightarrow> string" where
  "cn L inputs = twMerge L (clsx L inputs)"

definition buttonVariants :: "class_library \<Rightarrow> props \<Rightarrow> string" where
  "buttonVariants L chosen = cva L
    ''group/button inline-flex shrink-0 items-center justify-center gap-1.5 rounded-[10px] border text-sm font-medium whitespace-nowrap outline-none select-none focus-visible:ring-4 focus-visible:ring-brand-500/12 disabled:pointer-events-none disabled:cursor-not-allowed disabled:opacity-50 [&_svg]:pointer-events-none [&_svg]:shrink-0 [&_svg:not([class*='size-'])]:size-4''
    [(''variant'',
       [(''default'', ''border-transparent [background:var(--silo-gradient)] text-white hover:opacity-90''),
        (''brandSolid'', ''border-transparent [background-color:var(--accent)] [color:var(--accent-foreground)] hover:opacity-90''),
        (''outline'', ''''),
        (''secondary'', ''''),
        (''ghost'', ''border-transparent''),
        (''destructive'', ''[background-color:var(--color-destructive)] text-white hover:opacity-90 focus-visible:ring-error-500/15''),
        (''link'', ''h-auto border-0 p-0 [color:var(--accent)] shadow-none hover:underline'')]),
     (''size'',
       [(''default'', ''h-10 px-4''),
        (''xs'', ''h-8 px-2.5''),
        (''sm'', ''h-9 px-3.5''),
        (''lg'', ''h-11 px-5''),
        (''icon'', ''size-10 rounded-full px-0''),
        (''icon-xs'', ''size-8 px-0 [&_svg:not([class*='size-'])]:size-4''),
        (''icon-sm'', ''size-9 rounded-full px-0''),
        (''icon-lg'', ''size-12 rounded-full px-0'')])]
    [(''variant'', ''default''), (''size'', ''default'')] chosen"

definition badgeVariants :: "class_library \<Rightarrow> props \<Rightarrow> string" where
  "badgeVariants L chosen = cva L
    ''group/badge inline-flex w-fit shrink-0 items-center justify-center gap-1 overflow-hidden rounded-full border border-transparent px-2.5 py-0.5 text-theme-xs font-medium whitespace-nowrap [&>svg]:pointer-events-none [&>svg]:size-4''
    [(''variant'',
       [(''default'', ''bg-brand-50 text-brand-500 dark:bg-brand-500/15 dark:text-brand-400''),
        (''secondary'', ''bg-gray-100 text-gray-700 dark:bg-white/5 dark:text-white/80''),
        (''destructive'', ''bg-error-50 text-error-600 dark:bg-error-500/15 dark:text-error-500''),
        (''outline'', ''border-gray-200 bg-white text-gray-700 dark:border-gray-700 dark:bg-gray-800 dark:text-gray-300''),
        (''ghost'', ''text-gray-500''),
        (''link'', ''text-brand-500 underline-offset-4 hover:underline'')])]
    [(''variant'', ''default'')] chosen"

section \<open>Components\<close>

definition button_slot :: "props \<Rightarrow> props" where
  "button_slot ps =
     [(''data-slot'', Text_Value ''button''), (''data-variant'', given ''variant'' (Text_Value ''default'') ps),
      (''data-size'', given ''size'' (Text_Value ''default'') ps)]"

definition button_classes :: "class_library \<Rightarrow> props \<Rightarrow> string" where
  "button_classes L ps = cn L [Text_Value (buttonVariants L
     [(''variant'', given ''variant'' (Text_Value ''default'') ps), (''size'', given ''size'' (Text_Value ''default'') ps),
      (''className'', prop_of ''className'' ps)])]"

definition button_rest :: "props \<Rightarrow> props" where
  "button_rest ps = without [''className'', ''variant'', ''size'', ''asChild''] ps"

definition button_clone :: "class_library \<Rightarrow> props \<Rightarrow> string \<Rightarrow> props \<Rightarrow> node list \<Rightarrow> node" where
  "button_clone L ps tag own cs =
     Element tag
       (spread own (spread (button_rest ps) (button_slot ps @
          [(''className'', Text_Value (cn L [Text_Value (button_classes L ps),
             case prop_of ''className'' own of Text_Value c \<Rightarrow> Text_Value c | _ \<Rightarrow> Undefined]))]))) cs"

definition button_plain :: "class_library \<Rightarrow> props \<Rightarrow> node list \<Rightarrow> node" where
  "button_plain L ps children =
     Element ''button''
       (spread (button_slot ps @ [(''className'', Text_Value (button_classes L ps))]) (button_rest ps)) children"

fun Button_node :: "class_library \<Rightarrow> props \<Rightarrow> node list \<Rightarrow> node" where
  "Button_node L ps [Element tag own cs] =
     (if truthy (given ''asChild'' (Bool_Value False) ps) then button_clone L ps tag own cs
      else button_plain L ps [Element tag own cs])"
| "Button_node L ps children = button_plain L ps children"

definition Badge_node :: "class_library \<Rightarrow> props \<Rightarrow> node list \<Rightarrow> node" where
  "Badge_node L ps children =
     (let variant = given ''variant'' (Text_Value ''default'') ps
      in Element ''span''
           (spread
             [(''data-slot'', Text_Value ''badge''), (''data-variant'', variant),
              (''className'', Text_Value (cn L [Text_Value (badgeVariants L [(''variant'', variant)]), prop_of ''className'' ps]))]
             (without [''className'', ''variant''] ps)) children)"

definition Card_node :: "class_library \<Rightarrow> props \<Rightarrow> node list \<Rightarrow> node" where
  "Card_node L ps children =
     Element ''div''
       (spread
         [(''data-slot'', Text_Value ''card''), (''data-size'', given ''size'' (Text_Value ''default'') ps),
          (''className'', Text_Value (cn L [Text_Value
             ''group/card flex flex-col overflow-hidden rounded-2xl border [border-color:var(--tail-border)] [background-color:var(--tail-card)] [color:var(--tail-text)] shadow-none'',
             prop_of ''className'' ps]))]
         (without [''className'', ''size''] ps)) children"

definition Input_node :: "class_library \<Rightarrow> props \<Rightarrow> node" where
  "Input_node L ps =
     Element ''input''
       (spread
         [(''type'', prop_of ''type'' ps), (''data-slot'', Text_Value ''input''),
          (''className'', Text_Value (cn L [Text_Value
             ''ui-input h-10 w-full min-w-0 appearance-none rounded-[10px] border px-3.5 py-2 text-sm outline-none disabled:cursor-not-allowed'',
             prop_of ''className'' ps]))]
         (without [''className'', ''type''] ps)) []"

definition checkbox_input :: "props \<Rightarrow> node" where
  "checkbox_input ps = Element ''input'' (spread [(''type'', Text_Value ''checkbox'')] (without [''className''] ps)) []"

definition Checkbox_node :: "class_library \<Rightarrow> props \<Rightarrow> node" where
  "Checkbox_node L ps =
     Element ''span'' [(''className'', Text_Value (cn L [Text_Value ''ui-checkbox'', prop_of ''className'' ps]))]
       [checkbox_input ps,
        Element ''Check'' [(''aria-hidden'', Text_Value ''true''), (''className'', Text_Value ''ui-checkbox-check''),
          (''strokeWidth'', Number_Value (12 / 5))] []]"

text \<open>\<open>title\<close> and \<open>description\<close> are nodes; no description and an empty text have no paragraph.\<close>

definition ComponentCard_node :: "class_library \<Rightarrow> node \<Rightarrow> node \<Rightarrow> props \<Rightarrow> node list \<Rightarrow> node" where
  "ComponentCard_node L title description ps children =
     Element ''section''
       (spread [(''className'', Text_Value (cn L [Text_Value ''component-card min-w-0 rounded-2xl border'', prop_of ''className'' ps]))]
         (without [''className'', ''bodyClassName''] ps))
       [Element ''div'' [(''className'', Text_Value ''component-card-heading'')]
          ([Element ''h2'' [] [title]] @
           (if description \<in> {No_Node, Text_Node []} then [No_Node] else [Element ''p'' [] [description]])),
        Element ''div'' [(''className'', Text_Value (cn L [Text_Value ''component-card-body'', prop_of ''bodyClassName'' ps]))] children]"

section \<open>Icons\<close>

datatype icon_name =
    Icon_activity
  | Icon_arrowRight
  | Icon_brackets
  | Icon_calendar
  | Icon_check
  | Icon_chevronDown
  | Icon_chevronLeft
  | Icon_chevronRight
  | Icon_cloudUpload
  | Icon_code
  | Icon_command
  | Icon_copy
  | Icon_external
  | Icon_fileText
  | Icon_filter
  | Icon_globe
  | Icon_grid
  | Icon_history
  | Icon_image
  | Icon_images
  | Icon_key
  | Icon_languages
  | Icon_link
  | Icon_list
  | Icon_loader
  | Icon_lock
  | Icon_logOut
  | Icon_mail
  | Icon_menu
  | Icon_moon
  | Icon_plus
  | Icon_refresh
  | Icon_search
  | Icon_server
  | Icon_settings
  | Icon_shield
  | Icon_sparkles
  | Icon_sun
  | Icon_trash
  | Icon_upload
  | Icon_user
  | Icon_visibility
  | Icon_visibilityOff
  | Icon_wand
  | Icon_x
  | Icon_zap

primrec icons :: "icon_name \<Rightarrow> string" where
  "icons Icon_activity = ''Activity''"
| "icons Icon_arrowRight = ''ArrowRight''"
| "icons Icon_brackets = ''Brackets''"
| "icons Icon_calendar = ''CalendarDays''"
| "icons Icon_check = ''Check''"
| "icons Icon_chevronDown = ''ChevronDown''"
| "icons Icon_chevronLeft = ''ChevronLeft''"
| "icons Icon_chevronRight = ''ChevronRight''"
| "icons Icon_cloudUpload = ''CloudUpload''"
| "icons Icon_code = ''CodeXml''"
| "icons Icon_command = ''Command''"
| "icons Icon_copy = ''Copy''"
| "icons Icon_external = ''ExternalLink''"
| "icons Icon_fileText = ''FileText''"
| "icons Icon_filter = ''Filter''"
| "icons Icon_globe = ''Globe2''"
| "icons Icon_grid = ''Grid2X2''"
| "icons Icon_history = ''History''"
| "icons Icon_image = ''Image''"
| "icons Icon_images = ''Images''"
| "icons Icon_key = ''KeyRound''"
| "icons Icon_languages = ''Languages''"
| "icons Icon_link = ''Link''"
| "icons Icon_list = ''List''"
| "icons Icon_loader = ''LoaderCircle''"
| "icons Icon_lock = ''LockKeyhole''"
| "icons Icon_logOut = ''LogOut''"
| "icons Icon_mail = ''Mail''"
| "icons Icon_menu = ''Menu''"
| "icons Icon_moon = ''Moon''"
| "icons Icon_plus = ''Plus''"
| "icons Icon_refresh = ''RefreshCw''"
| "icons Icon_search = ''Search''"
| "icons Icon_server = ''Server''"
| "icons Icon_settings = ''Settings''"
| "icons Icon_shield = ''ShieldCheck''"
| "icons Icon_sparkles = ''Sparkles''"
| "icons Icon_sun = ''Sun''"
| "icons Icon_trash = ''Trash2''"
| "icons Icon_upload = ''Upload''"
| "icons Icon_user = ''UserRound''"
| "icons Icon_visibility = ''Eye''"
| "icons Icon_visibilityOff = ''EyeOff''"
| "icons Icon_wand = ''WandSparkles''"
| "icons Icon_x = ''X''"
| "icons Icon_zap = ''Zap''"

definition Icon_node :: "icon_name \<Rightarrow> props \<Rightarrow> node" where
  "Icon_node name ps =
     Element (icons name)
       [(''aria-hidden'', Text_Value ''true''), (''className'', given ''className'' (Text_Value ''h-4 w-4'') ps),
        (''strokeWidth'', Number_Value (9 / 5))] []"

lemma icons_distinct: "icons m = icons n \<longleftrightarrow> m = n"
proof -
  have "icons m = icons n \<Longrightarrow> m = n" by (cases m) (cases n; simp)+
  then show ?thesis by blast
qed

section \<open>What reaches the element\<close>

text \<open>
  A component hands on the properties it is given: all but those it takes for itself reach the element
  unchanged, and besides them the element has only those that the component adds.
\<close>

locale passes_props =
  fixes attributes :: "props \<Rightarrow> props"
    and taken added :: "string set"
  assumes passes: "k \<notin> taken \<Longrightarrow> map_of ps k \<noteq> None \<or> k \<notin> added \<Longrightarrow> map_of (attributes ps) k = map_of ps k"
begin

lemma reaches: "k \<notin> taken \<Longrightarrow> map_of ps k = Some v \<Longrightarrow> prop_of k (attributes ps) = v"
  by (simp add: prop_of_def passes)

lemma unchanged: "k \<notin> taken \<Longrightarrow> k \<notin> added \<Longrightarrow> prop_of k (attributes ps) = prop_of k ps"
  by (simp add: prop_of_def passes)

lemma same_attribute:
  assumes "k \<notin> taken" "map_of ps k = map_of qs k" "map_of ps k \<noteq> None"
  shows "prop_of k (attributes ps) = prop_of k (attributes qs)"
  using assms by (simp add: prop_of_def passes)

end

fun child_keys :: "node list \<Rightarrow> string set" where
  "child_keys [Element tag own cs] = fst ` set own"
| "child_keys cs = {}"

lemma map_of_absent: "k \<notin> fst ` set ps \<Longrightarrow> map_of ps k = None"
  by (simp add: map_of_eq_None_iff)

lemma passes_spread:
  assumes "k \<notin> taken" "map_of ps k \<noteq> None \<or> k \<notin> added" "set (map fst base) \<subseteq> taken \<union> added" "set ks \<subseteq> taken"
  shows "map_of (spread base (without ks ps)) k = map_of ps k"
proof (cases "map_of ps k")
  case None
  then have "k \<notin> fst ` set base" using assms by auto
  then show ?thesis using None by (simp add: map_of_absent)
next
  case (Some v)
  then show ?thesis using assms(1,4) by auto
qed

lemma passes_clone:
  assumes "k \<notin> taken" "set ks \<union> set (map fst over) \<subseteq> taken" "map_of ps k \<noteq> None \<or> k \<notin> fst ` set own"
  shows "map_of (spread own (spread (without ks ps) over)) k = map_of ps k"
proof -
  have "k \<notin> set ks" "map_of over k = None" using assms(1,2) by (auto intro: map_of_absent)
  then show ?thesis using assms(3) by (auto simp: map_of_absent split: option.splits)
qed

interpretation button: passes_props "\<lambda>ps. node_props (Button_node L ps cs)"
  "{''className'', ''variant'', ''size'', ''asChild'', ''data-slot'', ''data-variant'', ''data-size''}" "child_keys cs" for L cs
proof
  fix k and ps :: props
  assume k: "k \<notin> {''className'', ''variant'', ''size'', ''asChild'', ''data-slot'', ''data-variant'', ''data-size''}"
    and g: "map_of ps k \<noteq> None \<or> k \<notin> child_keys cs"
  have plain: "map_of (node_props (button_plain L ps cs)) k = map_of ps k" if "map_of ps k \<noteq> None \<or> k \<notin> {}" for cs
    unfolding button_plain_def button_rest_def node_props.simps by (rule passes_spread [OF k that]) (simp_all add: button_slot_def)
  have clone: "map_of (node_props (button_clone L ps tag own cs')) k = map_of ps k"
    if "map_of ps k \<noteq> None \<or> k \<notin> fst ` set own" for tag own cs'
    unfolding button_clone_def button_rest_def node_props.simps by (rule passes_clone [OF k _ that]) (simp add: button_slot_def)
  show "map_of (node_props (Button_node L ps cs)) k = map_of ps k"
    using g by (cases cs rule: child_keys.cases) (simp_all add: plain clone)
qed

interpretation badge: passes_props "\<lambda>ps. node_props (Badge_node L ps cs)" "{''className'', ''variant''}" "{''data-slot'', ''data-variant''}" for L cs
  by unfold_locales (simp only: Badge_node_def Let_def node_props.simps, erule (1) passes_spread, simp_all)

interpretation card: passes_props "\<lambda>ps. node_props (Card_node L ps cs)" "{''className'', ''size''}" "{''data-slot'', ''data-size''}" for L cs
  by unfold_locales (simp only: Card_node_def node_props.simps, erule (1) passes_spread, simp_all)

interpretation input: passes_props "\<lambda>ps. node_props (Input_node L ps)" "{''className'', ''type''}" "{''data-slot''}" for L
  by unfold_locales (simp only: Input_node_def node_props.simps, erule (1) passes_spread, simp_all)

interpretation checkbox: passes_props "\<lambda>ps. node_props (checkbox_input ps)" "{''className''}" "{''type''}"
  by unfold_locales (simp only: checkbox_input_def node_props.simps, erule (1) passes_spread, simp_all)

interpretation component_card: passes_props "\<lambda>ps. node_props (ComponentCard_node L t d ps cs)" "{''className'', ''bodyClassName''}" "{}" for L t d cs
  by unfold_locales (simp only: ComponentCard_node_def node_props.simps, erule (1) passes_spread, simp_all)

section \<open>What the elements do\<close>

lemma absent_undefined: "map_of ps k = None \<Longrightarrow> prop_of k ps = Undefined"
  by (simp add: prop_of_def)

fun handler :: "prop_value \<Rightarrow> nat option" where
  "handler (Function_Value f) = Some f"
| "handler _ = None"

lemma click_handler:
  "click (Element tag ps cs) =
     (if tag \<in> {''button'', ''input''} \<and> truthy (prop_of ''disabled'' ps) then None else handler (prop_of ''onClick'' ps))"
  by (cases "prop_of ''onClick'' ps") simp_all

lemma button_plain_unfold: "button_plain L ps cs = Element ''button'' (node_props (button_plain L ps cs)) cs"
  by (simp add: button_plain_def)

lemma button_clone_unfold: "button_clone L ps tag own cs = Element tag (node_props (button_clone L ps tag own cs)) cs"
  by (simp add: button_clone_def)

lemma plain_unchanged:
  assumes "k \<notin> {''className'', ''variant'', ''size'', ''asChild'', ''data-slot'', ''data-variant'', ''data-size''}"
  shows "prop_of k (node_props (button_plain L ps cs)) = prop_of k ps"
  using assms by (auto simp: button_plain_def button_slot_def button_rest_def prop_of_def map_of_absent split: option.splits)

lemma clone_unchanged:
  assumes "k \<notin> {''className'', ''variant'', ''size'', ''asChild'', ''data-slot'', ''data-variant'', ''data-size''}"
  shows "prop_of k (node_props (button_clone L ps tag own cs)) = (if map_of ps k = None then prop_of k own else prop_of k ps)"
  using assms by (auto simp: button_clone_def button_slot_def button_rest_def prop_of_def split: option.splits)

text \<open>
  A click on a button calls the handler it is given, and none while it is disabled. A button made of another
  element (a link, say) is that element with its children: it calls the handler of the button, or its own if
  the button has none, and \<open>disabled\<close> does not stop a link.
\<close>

theorem button_click:
  shows "click (button_plain L ps cs) = (if truthy (prop_of ''disabled'' ps) then None else handler (prop_of ''onClick'' ps))"
    and "click (button_clone L ps ''a'' own cs) =
      handler (if map_of ps ''onClick'' = None then prop_of ''onClick'' own else prop_of ''onClick'' ps)"
proof -
  show "click (button_plain L ps cs) = (if truthy (prop_of ''disabled'' ps) then None else handler (prop_of ''onClick'' ps))"
    by (subst button_plain_unfold, unfold click_handler) (simp add: plain_unchanged del: click.simps)
  show "click (button_clone L ps ''a'' own cs) =
      handler (if map_of ps ''onClick'' = None then prop_of ''onClick'' own else prop_of ''onClick'' ps)"
    by (subst button_clone_unfold, unfold click_handler) (simp add: clone_unchanged del: click.simps)
qed

text \<open>Icons and the mark of a checkbox are not read; a button, a badge and a card read what is in them, a titled card its title first.\<close>

theorem markup_spoken:
  shows "spoken (Icon_node n ps) = [] \<and> spoken (Checkbox_node L ps) = [] \<and> spoken (button_clone L ps tag [] cs) = spoken (button_plain L ps cs) \<and>
    (prop_of ''aria-hidden'' ps = Undefined \<longrightarrow>
       spoken (button_plain L ps cs) = concat (map spoken cs) \<and> spoken (Badge_node L ps cs) = concat (map spoken cs) \<and>
       spoken (Card_node L ps cs) = concat (map spoken cs) \<and>
       spoken (ComponentCard_node L t d ps cs) = spoken t @ spoken d @ concat (map spoken cs))"
proof (intro conjI impI)
  show "spoken (Icon_node n ps) = []" by (simp add: Icon_node_def)
  show "spoken (Checkbox_node L ps) = []" by (simp add: Checkbox_node_def checkbox_input_def)
  show "spoken (button_clone L ps tag [] cs) = spoken (button_plain L ps cs)"
    by (subst button_clone_unfold, subst button_plain_unfold)
      (simp add: plain_unchanged clone_unchanged absent_undefined)
  assume h: "prop_of ''aria-hidden'' ps = Undefined"
  show "spoken (button_plain L ps cs) = concat (map spoken cs)"
    by (subst button_plain_unfold) (simp add: plain_unchanged h)
  have "prop_of ''aria-hidden'' (node_props (Badge_node L ps cs)) = Undefined" by (simp add: badge.unchanged h)
  then show "spoken (Badge_node L ps cs) = concat (map spoken cs)" by (simp add: Badge_node_def Let_def)
  have "prop_of ''aria-hidden'' (node_props (Card_node L ps cs)) = Undefined" by (simp add: card.unchanged h)
  then show "spoken (Card_node L ps cs) = concat (map spoken cs)" by (simp only: Card_node_def) simp
  have "prop_of ''aria-hidden'' (node_props (ComponentCard_node L t d ps cs)) = Undefined" by (simp add: component_card.unchanged h)
  then show "spoken (ComponentCard_node L t d ps cs) = spoken t @ spoken d @ concat (map spoken cs)"
    by (auto simp: ComponentCard_node_def)
qed

end
