(* ===== verification/Menus.thy ===== *)
theory Menus
  imports Controls Markup
begin

text \<open>
  Menus and selects as elements and in use: the markup and the document listeners of
  \<open>web/src/components/ui/dropdown-menu.tsx\<close> with the focus, and the markup of
  \<open>web/src/components/ui/select.tsx\<close> with what a form sends of it. Theory \<open>Controls\<close> has their state. The
  Radix primitives of the select are a library and stand for themselves.
\<close>

section \<open>Listeners of an open menu\<close>

datatype menu_listener = Handle_Outside | Handle_KeyDown

definition document_listeners :: "bool \<Rightarrow> (string \<times> menu_listener) list" where
  "document_listeners is_open =
     (if \<not> is_open then []
      else [(''pointerdown'', Handle_Outside), (''focusin'', Handle_Outside), (''mousedown'', Handle_Outside),
            (''touchstart'', Handle_Outside), (''click'', Handle_Outside), (''keydown'', Handle_KeyDown)])"

text \<open>The target of an event is inside the root of the menu or not; \<open>Close_Only\<close> is \<open>onOpenChange(false)\<close>.\<close>

definition handleOutside :: "bool \<Rightarrow> menu_action" where
  "handleOutside inside = (if \<not> inside then Close_Only else Ignore)"

fun listener_action :: "bool \<Rightarrow> menu_key \<Rightarrow> nat option \<Rightarrow> nat \<Rightarrow> menu_listener \<Rightarrow> menu_action" where
  "listener_action inside k current n Handle_Outside = handleOutside inside"
| "listener_action inside k current n Handle_KeyDown = menu_keydown inside k current n"

text \<open>A placed panel follows the window's size and every scrolling but its own.\<close>

datatype window_event = Window_Resize | Window_Scroll bool

fun repositions :: "dropdown \<Rightarrow> window_event \<Rightarrow> bool" where
  "repositions s Window_Resize = (menu_open s \<and> mounted s)"
| "repositions s (Window_Scroll in_panel) = (menu_open s \<and> mounted s \<and> \<not> in_panel)"

section \<open>The focus\<close>

text \<open>
  A menu of \<open>n\<close> items whose owner opens and closes it as it is told and by its trigger; \<open>closes i\<close> says
  whether the owner closes the menu when item \<open>i\<close> is chosen. An item in a panel that becomes inert loses the focus.
  \<open>Activate\<close> is the enter key on the focused element.
\<close>

datatype focus_place = Elsewhere | In_Root | On_Trigger | On_Item nat

record menu =
  menu_panel :: dropdown
  menu_focus :: focus_place

datatype menu_event =
    Focus_Moves focus_place
  | Press string bool
  | Press_Trigger
  | Press_Item nat
  | Menu_Key menu_key
  | Activate
  | Panel_Elapsed

fun in_root :: "focus_place \<Rightarrow> bool" where
  "in_root Elsewhere = False"
| "in_root _ = True"

fun focused_item :: "focus_place \<Rightarrow> nat option" where
  "focused_item (On_Item i) = Some i"
| "focused_item _ = None"

definition set_open :: "bool \<Rightarrow> menu \<Rightarrow> menu" where
  "set_open b m =
     m\<lparr>menu_panel := fst (dropdown_step False (menu_panel m) (Menu_Open b)),
       menu_focus := (if \<not> b \<and> focused_item (menu_focus m) \<noteq> None then Elsewhere else menu_focus m)\<rparr>"

fun perform :: "menu_action \<Rightarrow> menu \<Rightarrow> menu" where
  "perform (Focus_Item i) m = m\<lparr>menu_focus := On_Item i\<rparr>"
| "perform Close_To_Trigger m = (set_open False m)\<lparr>menu_focus := On_Trigger\<rparr>"
| "perform Close_Only m = set_open False m"
| "perform Ignore m = m"

definition dispatch :: "nat \<Rightarrow> string \<Rightarrow> bool \<Rightarrow> menu_key \<Rightarrow> menu \<Rightarrow> menu" where
  "dispatch n name inside k m =
     fold (\<lambda>(name', l) m'. if name' = name then perform (listener_action inside k (focused_item (menu_focus m')) n l) m' else m')
       (document_listeners (menu_open (menu_panel m))) m"

text \<open>\<open>DropdownItem\<close>: the trigger gets the focus before the item's own handler runs.\<close>

definition choose_item :: "(nat \<Rightarrow> bool) \<Rightarrow> nat \<Rightarrow> menu \<Rightarrow> menu" where
  "choose_item closes i m =
     (let m' = m\<lparr>menu_focus := On_Trigger\<rparr> in if closes i then set_open False m' else m')"

definition toggle_menu :: "menu \<Rightarrow> menu" where
  "toggle_menu m = set_open (\<not> menu_open (menu_panel m)) m"

fun menu_step :: "(nat \<Rightarrow> bool) \<Rightarrow> nat \<Rightarrow> menu \<Rightarrow> menu_event \<Rightarrow> menu \<times> unit list" where
  "menu_step closes n m (Focus_Moves p) =
     (case focused_item p of
        Some i \<Rightarrow> (if i < n \<and> menu_open (menu_panel m) then m\<lparr>menu_focus := p\<rparr> else m, [])
      | None \<Rightarrow> (dispatch n ''focusin'' (in_root p) Key_Other (m\<lparr>menu_focus := p\<rparr>), []))"
| "menu_step closes n m (Press name inside) =
     (if name \<in> {''pointerdown'', ''mousedown'', ''touchstart'', ''click''} then dispatch n name inside Key_Other m else m, [])"
| "menu_step closes n m Press_Trigger = (toggle_menu m, [])"
| "menu_step closes n m (Press_Item i) =
     (if i < n \<and> menu_open (menu_panel m) then choose_item closes i m else m, [])"
| "menu_step closes n m (Menu_Key k) = (dispatch n ''keydown'' (in_root (menu_focus m)) k m, [])"
| "menu_step closes n m Activate =
     (case menu_focus m of
        On_Trigger \<Rightarrow> toggle_menu m
      | On_Item i \<Rightarrow> choose_item closes i m
      | _ \<Rightarrow> m, [])"
| "menu_step closes n m Panel_Elapsed = (m\<lparr>menu_panel := fst (dropdown_step False (menu_panel m) Close_Elapsed)\<rparr>, [])"

definition menu_ok :: "nat \<Rightarrow> menu \<Rightarrow> bool" where
  "menu_ok n m \<longleftrightarrow> dropdown_ok (menu_panel m) \<and>
     (case menu_focus m of On_Item i \<Rightarrow> i < n \<and> menu_open (menu_panel m) | _ \<Rightarrow> True)"

lemma dispatch_closed [simp]: "\<not> menu_open (menu_panel m) \<Longrightarrow> dispatch n name inside k m = m"
  by (simp add: dispatch_def document_listeners_def)

lemma dispatch_keydown [simp]:
  "menu_open (menu_panel m) \<Longrightarrow>
   dispatch n ''keydown'' inside k m = perform (menu_keydown inside k (focused_item (menu_focus m)) n) m"
  by (simp add: dispatch_def document_listeners_def)

lemma dispatch_press [simp]:
  assumes "menu_open (menu_panel m)" "name \<in> {''pointerdown'', ''focusin'', ''mousedown'', ''touchstart'', ''click''}"
  shows "dispatch n name inside k m = (if inside then m else set_open False m)"
  using assms(2) by (elim insertE emptyE; simp add: dispatch_def document_listeners_def handleOutside_def assms(1))

lemma set_open_simps [simp]:
  "menu_open (menu_panel (set_open b m)) = b"
  "menu_focus (set_open b m) = (if \<not> b \<and> focused_item (menu_focus m) \<noteq> None then Elsewhere else menu_focus m)"
  by (auto simp: set_open_def dropdown_step_def Let_def)

lemma dropdown_ok_step: "dropdown_ok s \<Longrightarrow> dropdown_ok (fst (dropdown_step r s e))"
  unfolding dropdown_step_def by (rule presence.step_inv)

lemma set_open_ok: "menu_ok n m \<Longrightarrow> menu_ok n (set_open b m)"
  by (auto simp: menu_ok_def split: focus_place.splits) (auto simp: set_open_def intro: dropdown_ok_step)

lemma choose_item_ok:
  assumes "menu_ok n m"
  shows "menu_ok n (choose_item closes i m)"
proof -
  have "menu_ok n (m\<lparr>menu_focus := On_Trigger\<rparr>)" using assms by (simp add: menu_ok_def)
  then show ?thesis using set_open_ok [of n "m\<lparr>menu_focus := On_Trigger\<rparr>" False] by (simp add: choose_item_def Let_def)
qed

lemma menu_keydown_item:
  "menu_keydown inside k current n = Focus_Item i \<Longrightarrow> (case current of None \<Rightarrow> True | Some j \<Rightarrow> j < n) \<Longrightarrow> i < n"
  using menu_keys [of _ n k] by (cases current) (auto simp: menu_keydown_def menu_next_def split: if_splits)

lemma perform_ok:
  assumes "menu_ok n m" "menu_open (menu_panel m)" "\<And>i. a = Focus_Item i \<Longrightarrow> i < n"
  shows "menu_ok n (perform a m)"
proof -
  have "menu_ok n (set_open False m)" by (rule set_open_ok [OF assms(1)])
  then show ?thesis using assms by (cases a) (simp_all add: menu_ok_def)
qed

lemma focused_in_range: "menu_ok n m \<Longrightarrow> case focused_item (menu_focus m) of None \<Rightarrow> True | Some j \<Rightarrow> j < n"
  by (cases "menu_focus m") (simp_all add: menu_ok_def)

lemma dispatch_key_ok:
  assumes "menu_ok n m"
  shows "menu_ok n (dispatch n ''keydown'' inside k m)"
proof (cases "menu_open (menu_panel m)")
  case True
  then show ?thesis using perform_ok [OF assms True] menu_keydown_item [OF _ focused_in_range [OF assms]] by simp
qed (simp add: assms)

lemma dispatch_press_ok:
  assumes "menu_ok n m" "name \<in> {''pointerdown'', ''focusin'', ''mousedown'', ''touchstart'', ''click''}"
  shows "menu_ok n (dispatch n name inside k m)"
  using assms set_open_ok [OF assms(1)] by (cases "menu_open (menu_panel m)") simp_all

interpretation menu: reactive "menu_step closes n" "menu_ok n" for closes n
proof
  fix m e assume ok: "menu_ok n m"
  show "menu_ok n (fst (menu_step closes n m e))"
  proof (cases e)
    case (Focus_Moves p)
    have "menu_ok n (m\<lparr>menu_focus := p\<rparr>)" if "focused_item p = None"
      using ok that by (cases p) (simp_all add: menu_ok_def)
    then show ?thesis using ok Focus_Moves
      by (cases p) (simp_all add: dispatch_press_ok del: dispatch_keydown dispatch_press, simp add: menu_ok_def)
  next
    case (Press_Item i)
    then show ?thesis using ok choose_item_ok by simp
  next
    case Activate
    then show ?thesis using ok choose_item_ok set_open_ok by (simp add: toggle_menu_def split: focus_place.splits)
  next
    case Panel_Elapsed
    have "menu_open (fst (dropdown_step False s Close_Elapsed)) = menu_open s" for s
      by (simp add: dropdown_step_def)
    then show ?thesis using ok Panel_Elapsed dropdown_ok_step
      by (simp add: menu_ok_def split: focus_place.splits)
  qed (simp_all add: ok dispatch_press_ok dispatch_key_ok set_open_ok toggle_menu_def del: dispatch_keydown dispatch_press)
qed

definition menu_init :: menu where
  "menu_init = \<lparr>menu_panel = dropdown_init False, menu_focus = On_Trigger\<rparr>"

text \<open>What a keyboard does without leaving the menu.\<close>

fun keyboard :: "menu_event \<Rightarrow> bool" where
  "keyboard (Menu_Key k) = (k \<noteq> Key_Tab)"
| "keyboard Activate = True"
| "keyboard Panel_Elapsed = True"
| "keyboard _ = False"

lemma keyboard_step:
  assumes "menu_ok n m" "menu_focus m \<notin> {Elsewhere, In_Root}" "keyboard e"
  shows "menu_focus (fst (menu_step closes n m e)) \<notin> {Elsewhere, In_Root}"
proof (cases e)
  case (Menu_Key k)
  have "menu_keydown inside k c n \<noteq> Close_Only" for inside c
    using assms(3) Menu_Key by (simp add: menu_keydown_def)
  then have "menu_focus (perform (menu_keydown inside k c n) m) \<notin> {Elsewhere, In_Root}" for inside c
    using assms(2) by (cases "menu_keydown inside k c n") auto
  then show ?thesis using Menu_Key assms(2) by (cases "menu_open (menu_panel m)") simp_all
next
  case Activate
  then show ?thesis using assms(1,2)
    by (cases "menu_focus m") (auto simp: toggle_menu_def choose_item_def Let_def)
qed (use assms in simp_all)

text \<open>
  However a menu is used, an item has the focus only while the menu is open; a press or a focus outside leaves it
  closed, and Escape closes it and puts the focus on its trigger. With the keyboard alone, from the trigger, the focus never
  leaves the trigger and the items, whether choosing an item closes the menu or not.
\<close>

theorem menu_focus_kept:
  fixes closes n es
  defines "m \<equiv> fst (run_steps (menu_step closes n) menu_init es)"
  shows "(case menu_focus m of On_Item i \<Rightarrow> i < n \<and> menu_open (menu_panel m) | _ \<Rightarrow> True) \<and>
    \<not> menu_open (menu_panel (fst (menu_step closes n m (Focus_Moves Elsewhere)))) \<and>
    \<not> menu_open (menu_panel (fst (menu_step closes n m (Press ''pointerdown'' False)))) \<and>
    (menu_open (menu_panel m) \<and> in_root (menu_focus m) \<longrightarrow>
       (let m' = fst (menu_step closes n m (Menu_Key Key_Escape))
        in \<not> menu_open (menu_panel m') \<and> menu_focus m' = On_Trigger)) \<and>
    (list_all keyboard es \<longrightarrow> menu_focus m = On_Trigger \<or> (\<exists>i < n. menu_focus m = On_Item i))"
proof -
  have init: "menu_ok n menu_init" by (simp add: menu_ok_def menu_init_def dropdown_ok_def dropdown_init_def)
  then have ok: "menu_ok n m" unfolding m_def by (rule menu.run_inv)
  have "list_all keyboard es \<Longrightarrow> menu_focus m \<notin> {Elsewhere, In_Root}"
    using run_steps_guarded [of "\<lambda>m. menu_ok n m \<and> menu_focus m \<notin> {Elsewhere, In_Root}" keyboard "menu_step closes n" "\<lambda>_. True" menu_init es]
      keyboard_step menu.step_inv init by (simp add: m_def menu_init_def list_all_iff)
  then have "list_all keyboard es \<longrightarrow> menu_focus m = On_Trigger \<or> (\<exists>i < n. menu_focus m = On_Item i)"
    using ok by (cases "menu_focus m") (auto simp: menu_ok_def)
  moreover have "case menu_focus m of On_Item i \<Rightarrow> i < n \<and> menu_open (menu_panel m) | _ \<Rightarrow> True"
    using ok by (simp add: menu_ok_def)
  ultimately show ?thesis
    by (cases "menu_open (menu_panel m)") (simp_all add: menu_keydown_def)
qed

section \<open>The menu as an element\<close>

definition DropdownItem_node :: "bool \<Rightarrow> bool \<Rightarrow> nat \<Rightarrow> node list \<Rightarrow> node" where
  "DropdownItem_node active destructive onClick children =
     Element ''button''
       [(''className'', Text_Value ''ui-dropdown-item''), (''data-active'', if active then Bool_Value True else Undefined),
        (''data-destructive'', if destructive then Bool_Value True else Undefined), (''role'', Text_Value ''menuitem''),
        (''type'', Text_Value ''button''), (''onClick'', Function_Value onClick)] children"

definition DropdownMenu_node :: "dropdown \<Rightarrow> node \<Rightarrow> node list \<Rightarrow> string \<Rightarrow> string \<Rightarrow> bool \<Rightarrow> node" where
  "DropdownMenu_node s trigger children className rootClassName align_left =
     Element ''div'' [(''className'', Text_Value (trim (''ui-dropdown-root '' @ rootClassName)))]
       [trigger,
        if mounted s then
          Element ''div''
            [(''className'', Text_Value (trim (''ui-dropdown-panel '' @ (if align_left then ''is-left'' else []) @ '' '' @ className))),
             (''data-state'', Text_Value (if closing s \<or> \<not> menu_open s then ''closed'' else ''open'')),
             (''inert'', if \<not> menu_open s then Bool_Value True else Undefined), (''role'', Text_Value ''menu'')] children
        else No_Node]"

text \<open>The handlers that clicks can reach: none in an inert part.\<close>

primrec clicks :: "node \<Rightarrow> nat list" where
  "clicks (Text_Node s) = []"
| "clicks (Element tag ps cs) =
     (if truthy (prop_of ''inert'' ps) then []
      else (case click (Element tag ps []) of None \<Rightarrow> [] | Some f \<Rightarrow> [f]) @ concat (map clicks cs))"
| "clicks No_Node = []"

lemma clicks_item: "concat (map clicks cs) = [] \<Longrightarrow> clicks (DropdownItem_node a d f cs) = [f]"
  by (simp add: DropdownItem_node_def)

text \<open>
  Of a menu whose items have nothing to click inside, the trigger can always be clicked, and the items
  exactly while the menu is open, also while its panel closes; a panel that is there while closed says so.
\<close>

theorem menu_items_clickable:
  assumes "dropdown_ok s" "\<And>i. i \<in> set items \<Longrightarrow> \<exists>a d f cs. i = DropdownItem_node a d f cs \<and> concat (map clicks cs) = []"
  shows "clicks (DropdownMenu_node s trigger items c rc left) =
      clicks trigger @ (if menu_open s then concat (map clicks items) else []) \<and>
    length (concat (map clicks items)) = length items"
proof
  have "length (concat (map clicks items)) = length items"
    using assms(2) by (induction items) (force simp: clicks_item)+
  then show "length (concat (map clicks items)) = length items" .
  show "clicks (DropdownMenu_node s trigger items c rc left) =
      clicks trigger @ (if menu_open s then concat (map clicks items) else [])"
    using assms(1) by (simp add: DropdownMenu_node_def dropdown_ok_def)
qed

section \<open>The select as an element\<close>

record select_option =
  option_value :: string
  option_label :: string
  option_disabled :: bool

definition option_node :: "select_option \<Rightarrow> node" where
  "option_node opt =
     Element ''SelectPrimitive.Item''
       [(''className'', Text_Value ''ui-select-item''), (''disabled'', Bool_Value (option_disabled opt)),
        (''key'', Text_Value (if option_value opt \<noteq> [] then option_value opt else emptyValue)),
        (''value'', Text_Value (encodeValue (option_value opt)))]
       [Element ''SelectPrimitive.ItemText'' [] [Text_Node (option_label opt)],
        Element ''SelectPrimitive.ItemIndicator'' [(''className'', Text_Value ''ui-select-check'')] [Element ''Check'' [] []]]"

definition Select_node :: "class_library \<Rightarrow> nat \<Rightarrow> select \<Rightarrow> select_option list \<Rightarrow> props \<Rightarrow> node" where
  "Select_node L change s options ps =
     Element ''div''
       [(''className'', Text_Value (cn L [Text_Value ''ui-select'', prop_of ''className'' ps])),
        (''data-size'', given ''size'' (Text_Value ''default'') ps)]
       [if truthy (prop_of ''name'' ps)
        then Element ''input''
          [(''type'', Text_Value ''hidden''), (''name'', prop_of ''name'' ps), (''value'', Text_Value (selectedValue s))] []
        else No_Node,
        Element ''SelectPrimitive.Root''
          [(''value'', Text_Value (encodeValue (selectedValue s))), (''onValueChange'', Function_Value change),
           (''disabled'', given ''disabled'' (Bool_Value False) ps)]
          [Element ''SelectPrimitive.Trigger''
             [(''id'', prop_of ''id'' ps), (''className'', Text_Value ''ui-select-trigger''), (''aria-label'', prop_of ''ariaLabel'' ps)]
             [Element ''SelectPrimitive.Value'' [(''placeholder'', prop_of ''placeholder'' ps)] [],
              Element ''SelectPrimitive.Icon'' [(''asChild'', Bool_Value True)]
                [Element ''ChevronDown'' [(''aria-hidden'', Text_Value ''true'')] []]],
           Element ''SelectPrimitive.Portal'' []
             [Element ''SelectPrimitive.Content''
                [(''className'', Text_Value ''ui-select-content''), (''position'', Text_Value ''popper''),
                 (''sideOffset'', Number_Value 6), (''collisionPadding'', Number_Value 12)]
                [Element ''SelectPrimitive.ScrollUpButton'' [(''className'', Text_Value ''ui-select-scroll'')] [Element ''ChevronUp'' [] []],
                 Element ''SelectPrimitive.Viewport'' [(''className'', Text_Value ''ui-select-viewport'')] (map option_node options),
                 Element ''SelectPrimitive.ScrollDownButton'' [(''className'', Text_Value ''ui-select-scroll'')]
                   [Element ''ChevronDown'' [] []]]]]]"

text \<open>What a form sends of the texts and hidden fields in an element, and the values a select offers to pick.\<close>

primrec form_entries :: "node \<Rightarrow> (string \<times> string) list" where
  "form_entries (Text_Node s) = []"
| "form_entries (Element tag ps cs) =
     (case (tag = ''input'', prop_of ''name'' ps, prop_of ''value'' ps) of
        (True, Text_Value n, Text_Value v) \<Rightarrow> if n \<noteq> [] then [(n, v)] else []
      | _ \<Rightarrow> []) @ concat (map form_entries cs)"
| "form_entries No_Node = []"

primrec select_items :: "node \<Rightarrow> string list" where
  "select_items (Text_Node s) = []"
| "select_items (Element tag ps cs) =
     (case (tag = ''SelectPrimitive.Item'', prop_of ''value'' ps) of (True, Text_Value v) \<Rightarrow> [v] | _ \<Rightarrow> []) @
     concat (map select_items cs)"
| "select_items No_Node = []"

lemma option_node_entries [simp]: "form_entries (option_node opt) = []" "select_items (option_node opt) = [encodeValue (option_value opt)]"
  by (simp_all add: option_node_def)

lemma concat_options:
  "concat (map (form_entries \<circ> option_node) os) = []"
  "concat (map (select_items \<circ> option_node) os) = map (encodeValue \<circ> option_value) os"
  by (induction os) simp_all

lemma select_node_reads:
  "prop_of ''name'' ps = Text_Value n \<Longrightarrow> n \<noteq> [] \<Longrightarrow> form_entries (Select_node L f s os ps) = [(n, selectedValue s)]"
  "select_items (Select_node L f s os ps) = map (encodeValue \<circ> option_value) os"
  by (simp_all add: Select_node_def concat_options)

text \<open>
  A named select without a fixed value, in a form: whichever item is picked, the form sends the value of the option
  under the name, the empty value included; after a reset it sends the default. No item has the empty
  value, which the primitive does not take, and items of different values differ.
\<close>

theorem select_submits:
  assumes "prop_of ''name'' ps = Text_Value n" "n \<noteq> []" "controlled s = None" "emptyValue \<notin> option_value ` set os" "i < length os"
  shows "form_entries (Select_node L f (fst (select_step s (Pick (select_items (Select_node L f s os ps) ! i)))) os ps) =
      [(n, option_value (os ! i))] \<and>
    form_entries (Select_node L f (fst (select_step s Form_Reset)) os ps) = [(n, default_value s)] \<and>
    [] \<notin> set (select_items (Select_node L f s os ps)) \<and>
    (distinct (map option_value os) \<longrightarrow> distinct (select_items (Select_node L f s os ps)))"
proof (intro conjI impI)
  have ne: "option_value o' \<noteq> emptyValue" if "o' \<in> set os" for o' using assms(4) that by force
  have "selectedValue (fst (select_step s (Pick (encodeValue (option_value (os ! i)))))) = option_value (os ! i)"
    using assms(3,5) ne [of "os ! i"] by (simp add: selectedValue_def Let_def decode_encode_value)
  then show "form_entries (Select_node L f (fst (select_step s (Pick (select_items (Select_node L f s os ps) ! i)))) os ps) =
      [(n, option_value (os ! i))]"
    using assms(5) by (simp only: select_node_reads(1) [OF assms(1,2)] select_node_reads(2) nth_map o_apply)
  show "form_entries (Select_node L f (fst (select_step s Form_Reset)) os ps) = [(n, default_value s)]"
    using assms(3) by (simp add: select_node_reads(1) [OF assms(1,2)] selectedValue_def)
  have "[] \<noteq> encodeValue v" for v by (rule encodeValue_nonempty [symmetric])
  then show "[] \<notin> set (select_items (Select_node L f s os ps))" by (simp add: select_node_reads(2) image_iff)
  assume d: "distinct (map option_value os)"
  have "encodeValue v = encodeValue w \<longleftrightarrow> v = w" if "v \<in> option_value ` set os" "w \<in> option_value ` set os" for v w
  proof -
    have "v \<noteq> emptyValue" "w \<noteq> emptyValue" using that assms(4) by metis+
    then show ?thesis by (simp add: encodeValue_def)
  qed
  then have "inj_on encodeValue (set (map option_value os))" by (auto simp: inj_on_def)
  with d have "distinct (map encodeValue (map option_value os))" by (simp only: distinct_map)
  then show "distinct (select_items (Select_node L f s os ps))" by (simp add: select_node_reads comp_def)
qed

section \<open>The icons of the copy control\<close>

text \<open>Each format has an icon; the button shows the state of copying.\<close>

primrec formatIcons :: "link_format \<Rightarrow> icon_name" where
  "formatIcons Direct = Icon_link"
| "formatIcons Markdown = Icon_fileText"
| "formatIcons Bbcode = Icon_brackets"
| "formatIcons Html = Icon_code"

definition copy_icon :: "string \<Rightarrow> copy_control \<Rightarrow> icon_name" where
  "copy_icon origin s = (if copying s then Icon_loader else if copied_shown origin s then Icon_check else Icon_copy)"

text \<open>Different formats have different pictures, and none is one of the pictures of copying.\<close>

lemma format_icons_differ: "icons (formatIcons f) = icons (formatIcons g) \<longleftrightarrow> f = g" "icons (formatIcons f) \<noteq> icons (copy_icon origin s)"
  by (cases f; cases g; simp add: icons_distinct) (cases f; simp add: icons_distinct copy_icon_def)

end
