(* ===== verification/Application.thy ===== *)
theory Application
  imports Markup Layout
begin

text \<open>
  How the program is put together at the start: \<open>web/src/app/App.tsx\<close>, the mounting of
  \<open>web/src/main.tsx\<close>, the access to the session of \<open>web/src/features/auth/auth-context.ts\<close> and the lazily loaded
  pages of \<open>web/src/app/lazy-pages.tsx\<close>.
\<close>

section \<open>The elements\<close>

text \<open>The options of the query cache that all queries share: a failed query is tried once more, and data is fresh for 30 seconds.\<close>

record query_defaults =
  query_retry :: nat
  query_staleTime :: nat

definition queryClient :: query_defaults where
  "queryClient = \<lparr>query_retry = 1, query_staleTime = 30000\<rparr>"

definition AuthProvider_node :: "node list \<Rightarrow> node" where
  "AuthProvider_node children = Element ''AuthContext.Provider'' [] children"

text \<open>
  The properties that are objects (the query cache, the router and the value of the session's context) are left
  out; \<open>context_at\<close> below says which value an element finds. A portal is an element that is rendered into the body of
  the document instead of its place.
\<close>

definition App_node :: node where
  "App_node =
     Element ''QueryClientProvider'' []
       [AuthProvider_node
         [Element ''RouterProvider'' [] [],
          Element ''Portal'' []
            [Element ''div'' [(''id'', Text_Value ''imagesilo-notifications''), (''data-modal-notifications'', Bool_Value True)]
               [Element ''Toaster''
                  [(''closeButton'', Bool_Value True), (''richColors'', Bool_Value True), (''duration'', Number_Value 4000),
                   (''position'', Text_Value ''top-right''), (''visibleToasts'', Number_Value 2),
                   (''toastOptions.className'', Text_Value ''imagesilo-toast'')] []]]]]"

text \<open>The page is rendered into the element with the id \<open>root\<close>; without it the program stops.\<close>

definition mount :: "string list \<Rightarrow> string + string \<times> node" where
  "mount ids =
     (if ''root'' \<in> set ids then Inr (''root'', Element ''StrictMode'' [] [App_node])
      else Inl ''ImageSilo root element is missing'')"

definition useAuth :: "auth_value option \<Rightarrow> string + auth_value" where
  "useAuth v = (case v of None \<Rightarrow> Inl ''useAuth must be used inside AuthProvider'' | Some x \<Rightarrow> Inr x)"

text \<open>What \<open>lazy\<close> exports, with the page each module has.\<close>

definition lazy_pages :: "(string \<times> page) list" where
  "lazy_pages =
    [(''UploadPage'', Page_Upload), (''ImageListPage'', Page_Images), (''ImageDetailPage'', Page_Image_Detail),
     (''MigrationImagePage'', Page_Migrations), (''AliasPage'', Page_Aliases), (''ApiTokenPage'', Page_Api_Tokens),
     (''SettingsPage'', Page_Settings), (''SystemPage'', Page_System)]"

text \<open>The page around the overview of the system; \<open>t\<close> translates.\<close>

definition SystemPage_node :: "(string \<Rightarrow> string) \<Rightarrow> node \<Rightarrow> node" where
  "SystemPage_node t SystemOverviewPanel =
     Element ''section'' []
       [Element ''p'' [(''className'', Text_Value ''page-kicker'')] [Text_Node (t ''system.eyebrow'')],
        Element ''h1'' [(''className'', Text_Value ''page-title'')] [Text_Node (t ''system.title'')],
        Element ''p'' [(''className'', Text_Value ''page-description'')] [Text_Node (t ''system.description'')],
        Element ''div'' [(''className'', Text_Value ''mt-8'')] [SystemOverviewPanel]]"

section \<open>What the parts rely on\<close>

text \<open>
  The value a context has at each element with a tag: that of the nearest provider around it. And the
  children of the body of the document: the element the page is mounted in, then those of the portals.
\<close>

primrec context_at :: "string \<Rightarrow> 'v \<Rightarrow> string \<Rightarrow> 'v option \<Rightarrow> node \<Rightarrow> 'v option list" where
  "context_at provider v tag c (Text_Node s) = []"
| "context_at provider v tag c (Element t ps cs) =
     (if t = tag then [c] else []) @ concat (map (context_at provider v tag (if t = provider then Some v else c)) cs)"
| "context_at provider v tag c No_Node = []"

primrec portals :: "node \<Rightarrow> node list" where
  "portals (Text_Node s) = []"
| "portals (Element t ps cs) = (if t = ''Portal'' then cs else []) @ concat (map portals cs)"
| "portals No_Node = []"

definition body_elements :: "string + string \<times> node \<Rightarrow> node list" where
  "body_elements r =
     (case r of Inl e \<Rightarrow> [] | Inr (i, n) \<Rightarrow> Element ''div'' [(''id'', Text_Value i)] [n] # portals n)"

text \<open>
  Once the page is mounted, the router, and so every page, finds the session in its context, so that
  \<open>useAuth\<close> does not throw; and of the two children of the body the dialogs work with exactly one is marked as
  the notifications and carries the id they give it to own.
\<close>

theorem application_provides:
  assumes "mount ids = Inr (i, n)"
  shows "map useAuth (context_at ''AuthContext.Provider'' v ''RouterProvider'' None n) = [Inr v] \<and>
    map (prop_of ''id'' \<circ> node_props) (body_elements (mount ids)) = [Text_Value ''root'', Text_Value ''imagesilo-notifications''] \<and>
    filter (\<lambda>e. prop_of ''data-modal-notifications'' (node_props e) \<noteq> Undefined) (body_elements (mount ids)) = portals n"
  using assms
  by (auto simp: mount_def App_node_def AuthProvider_node_def useAuth_def body_elements_def split: if_splits)

text \<open>Every page of the routes behind the guard is loaded lazily, exactly once, and by the module that its link preloads.\<close>

theorem lazy_pages_of_routes:
  "map snd lazy_pages = filter (\<lambda>p. p \<noteq> Page_Index) (map snd admin_routes) \<and>
   distinct (map snd lazy_pages) \<and> distinct (map fst lazy_pages) \<and>
   set (map snd pageLoaders) \<union> {Page_Image_Detail} = set (map snd lazy_pages)"
  by (auto simp: lazy_pages_def admin_routes_def pageLoaders_def)

end
