(* ===== verification/Design_Study.thy ===== *)
theory Design_Study
  imports Controls
begin

text \<open>
  The interactive study of the design, \<open>docs/design/study.js\<close>: a page of its own, apart from the program, with
  sample images, a simulated upload and the menus that the program's were built after. What is modelled is its
  state, what of it is in the document (after the last rendering), and its handlers; the static texts of its
  pages are left out. A rendering inside a view transition happens with a later frame, so it is kept as pending.
\<close>

section \<open>Data\<close>

record study_image =
  si_id :: nat
  si_name :: string
  si_dimensions :: string
  si_size :: string
  si_date :: string
  si_private :: bool

definition study_images :: "study_image list" where
  "study_images =
    [\<lparr>si_id = 12, si_name = [CHR 0xE6, CHR 0xB5, CHR 0xB7, CHR 0xE5, CHR 0xB2, CHR 0xB8, CHR 0xE7, CHR 0x9A, CHR 0x84, CHR 0xE5, CHR 0x8D, CHR 0x88, CHR 0xE5, CHR 0x90, CHR 0x8E] @ ''.jpg'',
      si_dimensions = ''2500 '' @ [CHR 0xC3, CHR 0x97] @ '' 1667'', si_size = ''1.8 MB'',
      si_date = [CHR 0xE4, CHR 0xBB, CHR 0x8A, CHR 0xE5, CHR 0xA4, CHR 0xA9] @ '' 14:32'', si_private = False\<rparr>,
     \<lparr>si_id = 14, si_name = [CHR 0xE6, CHR 0xB2, CHR 0xBF, CHR 0xE7, CHR 0x9D, CHR 0x80, CHR 0xE6, CHR 0xB5, CHR 0xB7, CHR 0xE5, CHR 0xB2, CHR 0xB8, CHR 0xE7, CHR 0xBA, CHR 0xBF] @ ''.jpg'',
      si_dimensions = ''2500 '' @ [CHR 0xC3, CHR 0x97] @ '' 1667'', si_size = ''2.1 MB'',
      si_date = [CHR 0xE4, CHR 0xBB, CHR 0x8A, CHR 0xE5, CHR 0xA4, CHR 0xA9] @ '' 14:28'', si_private = False\<rparr>,
     \<lparr>si_id = 15, si_name = [CHR 0xE5, CHR 0xB1, CHR 0xB1, CHR 0xE8, CHR 0xB0, CHR 0xB7, CHR 0xE9, CHR 0x87, CHR 0x8C, CHR 0xE7, CHR 0x9A, CHR 0x84, CHR 0xE6, CHR 0xB0, CHR 0xB4, CHR 0xE5, CHR 0xA3, CHR 0xB0] @ ''.jpg'',
      si_dimensions = ''2500 '' @ [CHR 0xC3, CHR 0x97] @ '' 1667'', si_size = ''1.4 MB'',
      si_date = [CHR 0xE4, CHR 0xBB, CHR 0x8A, CHR 0xE5, CHR 0xA4, CHR 0xA9] @ '' 11:05'', si_private = True\<rparr>,
     \<lparr>si_id = 17, si_name = [CHR 0xE5, CHR 0x8C, CHR 0x97, CHR 0xE6, CHR 0x96, CHR 0xB9, CHR 0xE7, CHR 0x9A, CHR 0x84, CHR 0xE9, CHR 0xA3, CHR 0x8E, CHR 0xE6, CHR 0x99, CHR 0xAF] @ ''.jpg'',
      si_dimensions = ''2500 '' @ [CHR 0xC3, CHR 0x97] @ '' 1667'', si_size = ''2.6 MB'',
      si_date = [CHR 0xE6, CHR 0x98, CHR 0xA8, CHR 0xE5, CHR 0xA4, CHR 0xA9] @ '' 18:42'', si_private = False\<rparr>,
     \<lparr>si_id = 18, si_name = [CHR 0xE6, CHR 0x97, CHR 0xA5, CHR 0xE5, CHR 0x85, CHR 0x89, CHR 0xE7, CHR 0xBB, CHR 0x8F, CHR 0xE8, CHR 0xBF, CHR 0x87, CHR 0xE7, CHR 0x9A, CHR 0x84, CHR 0xE5, CHR 0x9C, CHR 0xB0, CHR 0xE6, CHR 0x96, CHR 0xB9] @ ''.jpg'',
      si_dimensions = ''2500 '' @ [CHR 0xC3, CHR 0x97] @ '' 1667'', si_size = ''1.9 MB'',
      si_date = [CHR 0xE6, CHR 0x98, CHR 0xA8, CHR 0xE5, CHR 0xA4, CHR 0xA9] @ '' 16:20'', si_private = False\<rparr>,
     \<lparr>si_id = 20, si_name = [CHR 0xE5, CHR 0xB7, CHR 0xA5, CHR 0xE4, CHR 0xBD, CHR 0x9C, CHR 0xE5, CHR 0x8F, CHR 0xB0, CHR 0xE7, CHR 0x9A, CHR 0x84, CHR 0xE4, CHR 0xB8, CHR 0x80, CHR 0xE8, CHR 0xA7, CHR 0x92] @ ''.jpg'',
      si_dimensions = ''3670 '' @ [CHR 0xC3, CHR 0x97] @ '' 2462'', si_size = ''980 KB'',
      si_date = [CHR 0xE6, CHR 0x98, CHR 0xA8, CHR 0xE5, CHR 0xA4, CHR 0xA9] @ '' 10:16'', si_private = True\<rparr>]"

datatype study_page = St_Library | St_Upload | St_Migration | St_Aliases | St_Tokens | St_Settings | St_System | St_Detail

primrec study_names :: "study_page \<Rightarrow> string" where
  "study_names St_Library = [CHR 0xE5, CHR 0x9B, CHR 0xBE, CHR 0xE7, CHR 0x89, CHR 0x87, CHR 0xE5, CHR 0xBA, CHR 0x93]"
| "study_names St_Upload = [CHR 0xE4, CHR 0xB8, CHR 0x8A, CHR 0xE4, CHR 0xBC, CHR 0xA0, CHR 0xE5, CHR 0x9B, CHR 0xBE, CHR 0xE7, CHR 0x89, CHR 0x87]"
| "study_names St_Migration = [CHR 0xE8, CHR 0xBF, CHR 0x81, CHR 0xE7, CHR 0xA7, CHR 0xBB, CHR 0xE6, CHR 0x96, CHR 0x87, CHR 0xE4, CHR 0xBB, CHR 0xB6]"
| "study_names St_Aliases = [CHR 0xE8, CHR 0xB7, CHR 0xAF, CHR 0xE5, CHR 0xBE, CHR 0x84, CHR 0xE6, CHR 0x98, CHR 0xA0, CHR 0xE5, CHR 0xB0, CHR 0x84]"
| "study_names St_Tokens = ''API '' @ [CHR 0xE4, CHR 0xBB, CHR 0xA4, CHR 0xE7, CHR 0x89, CHR 0x8C]"
| "study_names St_Settings = [CHR 0xE8, CHR 0xAE, CHR 0xBE, CHR 0xE7, CHR 0xBD, CHR 0xAE]"
| "study_names St_System = [CHR 0xE7, CHR 0xB3, CHR 0xBB, CHR 0xE7, CHR 0xBB, CHR 0x9F, CHR 0xE7, CHR 0x8A, CHR 0xB6, CHR 0xE6, CHR 0x80, CHR 0x81]"
| "study_names St_Detail = [CHR 0xE5, CHR 0x9B, CHR 0xBE, CHR 0xE7, CHR 0x89, CHR 0x87, CHR 0xE8, CHR 0xAF, CHR 0xA6, CHR 0xE6, CHR 0x83, CHR 0x85]"

datatype study_filter = Show_All | Show_Public | Show_Private

datatype study_message =
    Link_Copied | Samples_Added | Samples_Uploaded | Image_Link_Copied | Image_Made bool | Opens_Original
  | Keeps_Paths | Asks_First | Not_Saved | Demo_Only string | Batch_Link_Copied nat | Batch_Made bool nat

datatype study_action = Choose_Format string | Make_Private nat bool | Batch_Private bool | Batch_Delete

datatype study_update = Up_Render | Up_Library | Up_Direction string

datatype study_focus = F_Page | F_Anchor | F_Item nat

record study =
  ds_images :: "study_image list"
  ds_selected :: "nat list"
  ds_page :: study_page
  ds_direction :: string
  ds_visibility :: study_filter
  ds_list_view :: bool
  ds_filtersOpen :: bool
  ds_activeImage :: "nat option"
  ds_queue :: "(nat \<times> int) list"
  ds_upload :: "int option"
  ds_toast :: "study_message option"
  ds_menu :: "study_action list option"
  ds_focus :: study_focus
  ds_linkFormat :: string
  ds_rendered :: study_page
  ds_breadcrumb :: study_page
  ds_shown :: "nat list"
  ds_bound :: bool
  ds_results :: "nat list"
  ds_start_disabled :: bool
  ds_clear_disabled :: bool
  ds_batch_hidden :: bool
  ds_mobile_open :: bool
  ds_dark :: bool
  ds_notes_open :: bool
  ds_pending :: "study_update list"

section \<open>Rendering\<close>

definition notify :: "study_message \<Rightarrow> study \<Rightarrow> study" where
  "notify m s = s\<lparr>ds_toast := Some m\<rparr>"

definition updateBatch :: "study \<Rightarrow> study" where
  "updateBatch s = s\<lparr>ds_batch_hidden := (ds_selected s = [] \<or> ds_page s \<noteq> St_Library)\<rparr>"

definition library_current :: "study \<Rightarrow> study_image list" where
  "library_current s =
     filter (\<lambda>im. ds_visibility s = Show_All \<or> si_private im = (ds_visibility s = Show_Private)) (ds_images s)"

text \<open>A tile with its name, its caption, whether its checkbox is checked and whether it is marked private.\<close>

definition tile :: "study \<Rightarrow> study_image \<Rightarrow> string \<times> string \<times> bool \<times> bool" where
  "tile s im = (si_name im, si_dimensions im @ [CHR '' '', CHR 0xC2, CHR 0xB7, CHR '' ''] @ si_size im,
     si_id im \<in> set (ds_selected s), si_private im)"

definition renderLibrary :: "study \<Rightarrow> study" where
  "renderLibrary s = s\<lparr>ds_rendered := St_Library, ds_shown := map si_id (library_current s), ds_bound := True\<rparr>"

datatype row_state = Row_Waiting | Row_Uploading | Row_Saved

definition queueRow :: "nat \<times> int \<Rightarrow> row_state" where
  "queueRow row = (if snd row \<ge> 100 then Row_Saved else if snd row \<noteq> 0 then Row_Uploading else Row_Waiting)"

definition renderUpload :: "study \<Rightarrow> study" where
  "renderUpload s = s\<lparr>ds_rendered := St_Upload, ds_results := map fst (filter (\<lambda>row. queueRow row = Row_Saved) (ds_queue s)),
     ds_start_disabled := (ds_queue s = []), ds_clear_disabled := False\<rparr>"

definition render :: "study \<Rightarrow> study" where
  "render s =
     updateBatch
       ((if ds_page s = St_Library then renderLibrary s
         else if ds_page s = St_Upload then renderUpload s
         else s\<lparr>ds_rendered := ds_page s\<rparr>)\<lparr>ds_breadcrumb := ds_page s\<rparr>)"

text \<open>The entry of the navigation that is marked: the image has none of its own.\<close>

definition marked_page :: "study \<Rightarrow> study_page" where
  "marked_page s = (if ds_breadcrumb s = St_Detail then St_Library else ds_breadcrumb s)"

fun run_update :: "study_update \<Rightarrow> study \<Rightarrow> study" where
  "run_update Up_Render s = render s"
| "run_update Up_Library s = renderLibrary s"
| "run_update (Up_Direction d) s = s\<lparr>ds_dark := (d = ''darkroom'')\<rparr>"

text \<open>\<open>animate\<close>: the browser has view transitions and the user has not asked for less motion.\<close>

definition transition :: "bool \<Rightarrow> study_update \<Rightarrow> study \<Rightarrow> study" where
  "transition animate u s = (if animate then s\<lparr>ds_pending := ds_pending s @ [u]\<rparr> else run_update u s)"

section \<open>Menus\<close>

definition closePrototypeMenu :: "bool \<Rightarrow> study \<Rightarrow> study" where
  "closePrototypeMenu restoreFocus s =
     (if ds_menu s = None then s
      else s\<lparr>ds_menu := None,
        ds_focus := (if restoreFocus then F_Anchor else case ds_focus s of F_Item i \<Rightarrow> F_Page | f \<Rightarrow> f)\<rparr>)"

definition openPrototypeMenu :: "study_action list \<Rightarrow> study \<Rightarrow> study" where
  "openPrototypeMenu acts s =
     (let s' = closePrototypeMenu False s
      in s'\<lparr>ds_menu := Some acts, ds_focus := (if acts = [] then ds_focus s' else F_Item 0)\<rparr>)"

text \<open>The upper left corner of a menu; \<open>dock_top\<close> where its button is in the bar of the selection.\<close>

definition study_menu_place :: "rat \<Rightarrow> rat \<Rightarrow> rat option \<Rightarrow> rat \<Rightarrow> rat \<Rightarrow> rat \<Rightarrow> rat \<Rightarrow> rat \<times> rat" where
  "study_menu_place innerWidth innerHeight dock_top rect_right rect_top rect_bottom h =
     (max 12 (min (innerWidth - 212) (rect_right - 200)),
      case dock_top of
        Some t \<Rightarrow> max 12 (t - h - 8)
      | None \<Rightarrow> if rect_bottom + h + 16 > innerHeight then max 12 (rect_top - h - 8) else rect_bottom + 8)"

definition study_next :: "menu_key \<Rightarrow> int \<Rightarrow> nat \<Rightarrow> int" where
  "study_next k current n =
     (if k = Key_Home then 0
      else if k = Key_End then int n - 1
      else (current + (if k = Arrow_Down then 1 else - 1) + int n) mod int n)"

definition study_keydown :: "menu_key \<Rightarrow> study \<Rightarrow> study" where
  "study_keydown k s =
     (case (ds_menu s, ds_focus s) of
        (Some acts, F_Item i) \<Rightarrow>
          if k = Key_Escape then closePrototypeMenu True s
          else if k = Key_Tab then closePrototypeMenu False s
          else if k \<notin> {Arrow_Up, Arrow_Down, Key_Home, Key_End} then s
          else s\<lparr>ds_focus := F_Item (nat (study_next k (int i) (length acts)))\<rparr>
      | _ \<Rightarrow> s)"

fun study_act :: "study_action \<Rightarrow> study \<Rightarrow> study" where
  "study_act (Choose_Format f) s = s\<lparr>ds_linkFormat := f\<rparr>"
| "study_act (Make_Private i b) s =
     notify (Image_Made b) (s\<lparr>ds_images := map (\<lambda>im. if si_id im = i then im\<lparr>si_private := b\<rparr> else im) (ds_images s)\<rparr>)"
| "study_act (Batch_Private b) s = notify (Batch_Made b (length (ds_selected s))) s"
| "study_act Batch_Delete s = notify Asks_First s"

definition choose_action :: "nat \<Rightarrow> study \<Rightarrow> study" where
  "choose_action i s =
     (case ds_menu s of
        Some acts \<Rightarrow> if i < length acts then closePrototypeMenu True (study_act (acts ! i) s) else s
      | None \<Rightarrow> s)"

definition format_actions :: "study_action list" where
  "format_actions = map Choose_Format [[CHR 0xE7, CHR 0x9B, CHR 0xB4, CHR 0xE9, CHR 0x93, CHR 0xBE], ''Markdown'', ''BBCode'', ''HTML'']"

section \<open>Navigation and the library\<close>

definition go :: "bool \<Rightarrow> study_page \<Rightarrow> study \<Rightarrow> study" where
  "go animate next s =
     (if next = ds_page s then s
      else transition animate Up_Render ((closePrototypeMenu False (s\<lparr>ds_page := next\<rparr>))\<lparr>ds_mobile_open := False\<rparr>))"

datatype library_event =
    Open_Image nat
  | Check_Image nat bool
  | Copy_Tile
  | Pick_Visibility study_filter
  | Pick_View bool
  | Toggle_Filters
  | Search_Form string

text \<open>The tiles that a search shows have no listeners but those that open an image (\<open>ds_bound\<close>).\<close>

fun library_step :: "bool \<Rightarrow> study \<Rightarrow> library_event \<Rightarrow> study" where
  "library_step animate s (Open_Image i) =
     (if i \<in> set (ds_shown s) then go animate St_Detail (s\<lparr>ds_activeImage := Some i\<rparr>) else s)"
| "library_step animate s (Check_Image i checked) =
     (if ds_bound s \<and> i \<in> set (ds_shown s)
      then updateBatch (s\<lparr>ds_selected := (if checked then jset_add i else jset_delete i) (ds_selected s)\<rparr>) else s)"
| "library_step animate s Copy_Tile = (if ds_bound s then notify Link_Copied s else s)"
| "library_step animate s (Pick_Visibility v) = transition animate Up_Library (s\<lparr>ds_visibility := v\<rparr>)"
| "library_step animate s (Pick_View l) = transition animate Up_Library (s\<lparr>ds_list_view := l\<rparr>)"
| "library_step animate s Toggle_Filters = s\<lparr>ds_filtersOpen := \<not> ds_filtersOpen s\<rparr>"
| "library_step animate s (Search_Form q) =
     s\<lparr>ds_shown := map si_id (filter (\<lambda>im. contains (si_name im) (trim q)) (ds_images s)), ds_bound := False\<rparr>"

section \<open>The simulated upload\<close>

definition startUpload :: "study \<Rightarrow> study" where
  "startUpload s =
     (if ds_upload s \<noteq> None \<or> ds_queue s = [] then s
      else s\<lparr>ds_start_disabled := True, ds_clear_disabled := True, ds_upload := Some 0\<rparr>)"

definition progress_at :: "int \<Rightarrow> nat \<Rightarrow> int" where
  "progress_at t i = max 0 (min 100 ((t - int i * 2) * 8))"

definition upload_tick :: "study \<Rightarrow> study" where
  "upload_tick s =
     (case ds_upload s of
        None \<Rightarrow> s
      | Some t \<Rightarrow>
          let s' = s\<lparr>ds_upload := Some (t + 1),
            ds_queue := map (\<lambda>(i, row). (fst row, progress_at (t + 1) i)) (enumerate 0 (ds_queue s))\<rparr>
          in if list_all (\<lambda>row. snd row = 100) (ds_queue s')
             then let s'' = s'\<lparr>ds_upload := None\<rparr>
                  in notify Samples_Uploaded (if ds_page s = St_Upload then renderUpload s'' else s'')
             else s')"

datatype upload_event = Add_Samples | Clear_Queue | Start_Upload | Copy_Result

fun upload_page_step :: "study \<Rightarrow> upload_event \<Rightarrow> study" where
  "upload_page_step s Add_Samples =
     (if ds_upload s \<noteq> None then s
      else notify Samples_Added (renderUpload (s\<lparr>ds_queue := map (\<lambda>im. (si_id im, 0)) (take 3 (ds_images s))\<rparr>)))"
| "upload_page_step s Clear_Queue =
     (if ds_clear_disabled s \<or> ds_queue s = [] then s else renderUpload (s\<lparr>ds_upload := None, ds_queue := []\<rparr>))"
| "upload_page_step s Start_Upload = (if ds_start_disabled s then s else startUpload s)"
| "upload_page_step s Copy_Result = (if ds_results s \<noteq> [] then notify Link_Copied s else s)"

section \<open>The image and the page around\<close>

definition detail_image :: "study \<Rightarrow> nat" where
  "detail_image s = (case ds_activeImage s of Some i \<Rightarrow> i | None \<Rightarrow> si_id (hd (ds_images s)))"

datatype detail_button = Detail_Back | Detail_Copy | Detail_Format | Detail_Privacy | Detail_Original | Detail_Alias | Detail_Delete

fun detail_page_step :: "bool \<Rightarrow> study \<Rightarrow> detail_button \<Rightarrow> study" where
  "detail_page_step animate s Detail_Back = go animate St_Library s"
| "detail_page_step animate s Detail_Copy = notify Image_Link_Copied s"
| "detail_page_step animate s Detail_Format = openPrototypeMenu format_actions s"
| "detail_page_step animate s Detail_Privacy =
     openPrototypeMenu [Make_Private (detail_image s) False, Make_Private (detail_image s) True] s"
| "detail_page_step animate s Detail_Original = notify Opens_Original s"
| "detail_page_step animate s Detail_Alias = notify Keeps_Paths s"
| "detail_page_step animate s Detail_Delete = notify Asks_First s"

datatype batch_button = Batch_Clear | Batch_Copy | Batch_Formats | Batch_Visibility | Batch_More

fun batch_step :: "study \<Rightarrow> batch_button \<Rightarrow> study" where
  "batch_step s Batch_Clear = updateBatch (renderLibrary (s\<lparr>ds_selected := []\<rparr>))"
| "batch_step s Batch_Copy = notify (Batch_Link_Copied (length (ds_selected s))) s"
| "batch_step s Batch_Formats = openPrototypeMenu format_actions s"
| "batch_step s Batch_Visibility = openPrototypeMenu [Batch_Private False, Batch_Private True] s"
| "batch_step s Batch_More = openPrototypeMenu [Batch_Delete] s"

definition global_search :: "bool \<Rightarrow> study \<Rightarrow> study" where
  "global_search animate s =
     (let s' = s\<lparr>ds_filtersOpen := True\<rparr>
      in if ds_page s \<noteq> St_Library then go animate St_Library s' else renderLibrary s')"

datatype study_event =
    Nav study_page
  | Library library_event
  | Uploads upload_event
  | Upload_Tick
  | Image_Page detail_button
  | Batch batch_button
  | Direction string
  | Theme_Toggle
  | Global_Search
  | Mobile_Menu
  | Escape_Pressed
  | Notes_Dialog bool
  | Menu_Choose nat
  | Menu_Keydown menu_key
  | Press_Away
  | Toast_Elapsed
  | Next_Frame

text \<open>
  What can be clicked is what the document shows: the handlers of a page while it is the one rendered, the
  bar of the selection while it is not hidden.
\<close>

fun study_step :: "bool \<Rightarrow> study \<Rightarrow> study_event \<Rightarrow> study \<times> unit list" where
  "study_step animate s (Nav p) = (if p = St_Detail then s else go animate p s, [])"
| "study_step animate s (Library e) = (if ds_rendered s = St_Library then library_step animate s e else s, [])"
| "study_step animate s (Uploads e) = (if ds_rendered s = St_Upload then upload_page_step s e else s, [])"
| "study_step animate s Upload_Tick = (upload_tick s, [])"
| "study_step animate s (Image_Page b) = (if ds_rendered s = St_Detail then detail_page_step animate s b else s, [])"
| "study_step animate s (Batch b) = (if ds_batch_hidden s then s else batch_step s b, [])"
| "study_step animate s (Direction d) = (transition animate (Up_Direction d) (s\<lparr>ds_direction := d\<rparr>), [])"
| "study_step animate s Theme_Toggle = (s\<lparr>ds_dark := \<not> ds_dark s\<rparr>, [])"
| "study_step animate s Global_Search = (global_search animate s, [])"
| "study_step animate s Mobile_Menu = (s\<lparr>ds_mobile_open := \<not> ds_mobile_open s\<rparr>, [])"
| "study_step animate s Escape_Pressed = (s\<lparr>ds_mobile_open := False\<rparr>, [])"
| "study_step animate s (Notes_Dialog b) = (s\<lparr>ds_notes_open := b\<rparr>, [])"
| "study_step animate s (Menu_Choose i) = (choose_action i s, [])"
| "study_step animate s (Menu_Keydown k) = (study_keydown k s, [])"
| "study_step animate s Press_Away = (closePrototypeMenu False s, [])"
| "study_step animate s Toast_Elapsed = (s\<lparr>ds_toast := None\<rparr>, [])"
| "study_step animate s Next_Frame =
     (case ds_pending s of [] \<Rightarrow> s | u # us \<Rightarrow> run_update u (s\<lparr>ds_pending := us\<rparr>), [])"

definition study_init :: study where
  "study_init = render
     \<lparr>ds_images = study_images, ds_selected = [], ds_page = St_Library, ds_direction = ''studio'',
      ds_visibility = Show_All, ds_list_view = False, ds_filtersOpen = False, ds_activeImage = None, ds_queue = [],
      ds_upload = None, ds_toast = None, ds_menu = None, ds_focus = F_Page,
      ds_linkFormat = [CHR 0xE7, CHR 0x9B, CHR 0xB4, CHR 0xE9, CHR 0x93, CHR 0xBE], ds_rendered = St_Library,
      ds_breadcrumb = St_Library, ds_shown = [], ds_bound = False, ds_results = [],
      ds_start_disabled = False, ds_clear_disabled = False,
      ds_batch_hidden = True, ds_mobile_open = False, ds_dark = False, ds_notes_open = False, ds_pending = []\<rparr>"

section \<open>Lemmas\<close>

text \<open>The menus of the study and the menus of the program move the focus alike.\<close>

theorem study_menus_agree:
  assumes "i < n"
  shows "study_next k (int i) n = int (menu_next k (Some i) n)"
  using assms by (auto simp: study_next_def menu_next_def of_nat_diff)

fun focus_in :: "study_focus \<Rightarrow> study_action list option \<Rightarrow> bool" where
  "focus_in (F_Item i) None = False"
| "focus_in (F_Item i) (Some acts) = (i < length acts)"
| "focus_in f acts = True"

fun upload_in :: "int option \<Rightarrow> (nat \<times> int) list \<Rightarrow> bool" where
  "upload_in None q = (length q \<le> 3)"
| "upload_in (Some t) q = (0 \<le> t \<and> t < 17 \<and> q \<noteq> [] \<and> length q \<le> 3)"

definition study_ok :: "study \<Rightarrow> bool" where
  "study_ok s \<longleftrightarrow> ds_pending s = [] \<and> distinct (ds_selected s) \<and> ds_rendered s = ds_page s \<and> ds_breadcrumb s = ds_page s \<and>
     (ds_batch_hidden s \<longleftrightarrow> ds_selected s = [] \<or> ds_page s \<noteq> St_Library) \<and>
     focus_in (ds_focus s) (ds_menu s) \<and> upload_in (ds_upload s) (ds_queue s)"

lemmas render_defs = render_def updateBatch_def renderLibrary_def renderUpload_def notify_def

lemma focus_in_closed [simp]: "focus_in (case f of F_Item i \<Rightarrow> F_Page | f \<Rightarrow> f) m"
  by (cases f; simp)

lemma focus_in_None: "focus_in f None \<Longrightarrow> focus_in f m"
  by (cases f; cases m) simp_all

lemma upload_in_length: "upload_in u q \<Longrightarrow> length q \<le> 3"
  by (cases u) simp_all

lemma enumerate_Nil [simp]: "enumerate n xs = [] \<longleftrightarrow> xs = []"
  by (cases xs) simp_all

lemma close_focus: "focus_in (ds_focus s) (ds_menu s) \<Longrightarrow> focus_in (ds_focus (closePrototypeMenu r s)) None"
  by (cases "ds_menu s") (simp_all add: closePrototypeMenu_def)

lemma close_frame [simp]:
  "ds_menu (closePrototypeMenu r s) = None" "ds_pending (closePrototypeMenu r s) = ds_pending s"
  "ds_selected (closePrototypeMenu r s) = ds_selected s" "ds_page (closePrototypeMenu r s) = ds_page s"
  "ds_rendered (closePrototypeMenu r s) = ds_rendered s" "ds_breadcrumb (closePrototypeMenu r s) = ds_breadcrumb s"
  "ds_batch_hidden (closePrototypeMenu r s) = ds_batch_hidden s" "ds_upload (closePrototypeMenu r s) = ds_upload s"
  "ds_queue (closePrototypeMenu r s) = ds_queue s"
  by (simp_all add: closePrototypeMenu_def)

lemma study_ok_close: "study_ok s \<Longrightarrow> study_ok (closePrototypeMenu r s)"
  by (simp add: study_ok_def close_focus)

lemma study_ok_open: "study_ok s \<Longrightarrow> study_ok (openPrototypeMenu acts s)"
proof -
  assume ok: "study_ok s"
  have "focus_in (ds_focus (closePrototypeMenu False s)) None"
    using ok by (simp add: study_ok_def close_focus)
  then show ?thesis using study_ok_close [OF ok, of False]
    by (cases acts) (simp_all add: openPrototypeMenu_def Let_def study_ok_def focus_in_None)
qed

lemma study_ok_notify [simp]: "study_ok (notify m s) = study_ok s"
  by (simp add: study_ok_def notify_def)

lemma study_ok_act: "study_ok s \<Longrightarrow> study_ok (study_act a s)"
  by (cases a) (simp_all add: study_ok_def notify_def)

lemma study_ok_go: "study_ok s \<Longrightarrow> study_ok (go False p s)"
  using close_focus [of "s\<lparr>ds_page := p\<rparr>" False]
  by (cases p) (simp_all add: go_def transition_def study_ok_def render_defs)

lemma tick_done:
  assumes "ds_upload s = Some t" "16 \<le> t" "length (ds_queue s) \<le> 3"
  shows "list_all (\<lambda>row. snd row = 100) (map (\<lambda>(i, row). (fst row, progress_at (t + 1) i)) (enumerate 0 (ds_queue s)))"
proof -
  have "progress_at (t + 1) i = 100" if "i < 3" for i
    using that assms(2) by (simp add: progress_at_def min_def)
  then show ?thesis using assms(3) by (auto simp: list_all_iff in_set_enumerate_eq)
qed

lemma study_ok_tick: "study_ok s \<Longrightarrow> study_ok (upload_tick s)"
proof (cases "ds_upload s")
  case (Some t)
  assume ok: "study_ok s"
  show ?thesis
  proof (cases "16 \<le> t")
    case True
    then show ?thesis using ok Some tick_done [OF Some True]
      by (simp add: upload_tick_def Let_def study_ok_def render_defs)
  next
    case False
    then show ?thesis using ok Some
      by (simp add: upload_tick_def Let_def study_ok_def render_defs)
  qed
qed (simp add: upload_tick_def)

lemma study_next_range: "0 < n \<Longrightarrow> i < n \<Longrightarrow> nat (study_next k (int i) n) < n"
  using menu_keys [of i n k] by (simp add: study_menus_agree)

lemma library_ok:
  assumes "study_ok s" "ds_rendered s = St_Library"
  shows "study_ok (library_step False s e)"
proof (cases e)
  case (Open_Image i)
  have "study_ok (s\<lparr>ds_activeImage := Some i\<rparr>)" using assms(1) by (simp add: study_ok_def)
  then show ?thesis using Open_Image study_ok_go assms(1) by simp
next
  case (Check_Image i c)
  then show ?thesis using assms by (simp add: study_ok_def updateBatch_def distinct_jset_add distinct_jset_delete)
qed (use assms in \<open>simp_all add: transition_def study_ok_def render_defs\<close>)

lemma uploads_ok:
  assumes "study_ok s" "ds_rendered s = St_Upload"
  shows "study_ok (upload_page_step s e)"
  using assms by (cases e) (auto simp: study_ok_def render_defs startUpload_def dest: upload_in_length)

lemma batch_ok:
  assumes "study_ok s" "\<not> ds_batch_hidden s"
  shows "study_ok (batch_step s b)"
  using assms study_ok_open by (cases b) (simp_all add: study_ok_def render_defs)

lemma study_keydown_ok:
  assumes "study_ok s"
  shows "study_ok (study_keydown k s)"
proof (cases "ds_focus s")
  case (F_Item i)
  then obtain acts where m: "ds_menu s = Some acts" "i < length acts"
    using assms by (cases "ds_menu s") (simp_all add: study_ok_def)
  then have "nat (study_next k (int i) (length acts)) < length acts" by (intro study_next_range) linarith+
  then show ?thesis using F_Item m assms study_ok_close by (simp add: study_keydown_def study_ok_def)
qed (use assms in \<open>simp_all add: study_keydown_def split: option.splits\<close>)

lemma global_search_ok: "study_ok s \<Longrightarrow> study_ok (global_search False s)"
  using study_ok_go [of "s\<lparr>ds_filtersOpen := True\<rparr>" St_Library] by (simp add: global_search_def Let_def study_ok_def render_defs)

interpretation study: reactive "study_step False" study_ok
proof
  fix s e assume ok: "study_ok s"
  show "study_ok (fst (study_step False s e))"
  proof (cases e)
    case (Image_Page b)
    then show ?thesis using ok study_ok_go study_ok_open by (cases b) simp_all
  next
    case (Menu_Choose i)
    then show ?thesis using ok study_ok_act study_ok_close by (simp add: choose_action_def split: option.splits)
  next
    case (Direction d)
    then show ?thesis using ok by (simp add: transition_def study_ok_def)
  next
    case Next_Frame
    then show ?thesis using ok by (simp add: study_ok_def)
  qed (use ok in \<open>simp_all add: study_ok_go study_ok_close study_ok_tick library_ok uploads_ok batch_ok study_keydown_ok global_search_ok\<close>,
      simp_all add: study_ok_def)
qed

section \<open>Properties\<close>

lemma study_init_ok: "study_ok study_init"
  by (simp add: study_init_def study_ok_def render_defs)

text \<open>
  Without view transitions, whatever is clicked: the document shows the page of the state and its name, the bar
  of the selection is there exactly in the library with something selected, nothing is selected twice, and the focus
  is on an item only while its menu is open.
\<close>

theorem study_consistent:
  fixes es
  defines "s \<equiv> fst (run_steps (study_step False) study_init es)"
  shows "ds_rendered s = ds_page s \<and> ds_breadcrumb s = ds_page s \<and>
    (ds_batch_hidden s \<longleftrightarrow> ds_selected s = [] \<or> ds_page s \<noteq> St_Library) \<and> distinct (ds_selected s) \<and>
    focus_in (ds_focus s) (ds_menu s)"
proof -
  have "study_ok s" unfolding s_def by (rule study.run_inv [OF study_init_ok])
  then show ?thesis by (simp add: study_ok_def)
qed

lemma tick_step:
  assumes "study_ok s" "ds_upload s = Some t"
  shows "(if ds_upload (upload_tick s) = None then list_all (\<lambda>row. snd row = 100) (ds_queue (upload_tick s)) \<and> ds_toast (upload_tick s) = Some Samples_Uploaded
    else t < 16 \<and> ds_upload (upload_tick s) = Some (t + 1))"
proof (cases "16 \<le> t")
  case True
  have "length (ds_queue s) \<le> 3" using assms by (simp add: study_ok_def)
  from tick_done [OF assms(2) True this] show ?thesis
    using assms(2) by (simp add: upload_tick_def Let_def render_defs)
next
  case False
  then show ?thesis using assms(2) by (simp add: upload_tick_def Let_def render_defs)
qed

text \<open>A simulated upload ends: after at most seventeen ticks of its timer all samples are complete, and it says so.\<close>

theorem study_upload_ends:
  assumes "study_ok s" "ds_upload s \<noteq> None"
  shows "\<exists>n \<le> 17. let s' = fst (run_steps (study_step False) s (replicate n Upload_Tick))
    in ds_upload s' = None \<and> list_all (\<lambda>row. snd row = 100) (ds_queue s') \<and> ds_toast s' = Some Samples_Uploaded"
proof -
  have ends: "\<exists>n. int n \<le> 17 - t \<and> (let s' = fst (run_steps (study_step False) s (replicate n Upload_Tick))
      in ds_upload s' = None \<and> list_all (\<lambda>row. snd row = 100) (ds_queue s') \<and> ds_toast s' = Some Samples_Uploaded)"
    if "study_ok s" "ds_upload s = Some t" for s t
    using that
  proof (induction "nat (17 - t)" arbitrary: s t rule: less_induct)
    case less
    let ?s = "upload_tick s"
    note step = tick_step [OF less.prems]
    have t: "t < 17" using less.prems by (simp add: study_ok_def)
    show ?case
    proof (cases "ds_upload ?s")
      case None
      then show ?thesis using step t by (intro exI [of _ 1]) (simp add: Let_def)
    next
      case (Some t')
      then have t': "t' = t + 1" "t < 16" using step by simp_all
      obtain n where n: "int n \<le> 17 - t'" "let s' = fst (run_steps (study_step False) ?s (replicate n Upload_Tick))
          in ds_upload s' = None \<and> list_all (\<lambda>row. snd row = 100) (ds_queue s') \<and> ds_toast s' = Some Samples_Uploaded"
        using less.hyps [OF _ study_ok_tick [OF less.prems(1)] Some] t' by auto
      then show ?thesis using t' by (intro exI [of _ "Suc n"]) simp
    qed
  qed
  obtain t where t: "ds_upload s = Some t" using assms(2) by blast
  have "0 \<le> t" using assms(1) t by (simp add: study_ok_def)
  moreover obtain n where "int n \<le> 17 - t" "let s' = fst (run_steps (study_step False) s (replicate n Upload_Tick))
      in ds_upload s' = None \<and> list_all (\<lambda>row. snd row = 100) (ds_queue s') \<and> ds_toast s' = Some Samples_Uploaded"
    using ends [OF assms(1) t] by (elim exE conjE)
  ultimately show ?thesis by (intro exI [of _ n]) simp
qed

text \<open>
  Two weaknesses of the study. With view transitions, a tab of the library that is pressed while the image is
  being opened leaves the library in the document although the page is the image; and the tiles a search has
  found cannot be selected.
\<close>

lemma late_tab_shows_library:
  defines "s \<equiv> fst (run_steps (study_step True) study_init
    [Library (Open_Image 12), Library (Pick_Visibility Show_All), Next_Frame, Next_Frame])"
  shows "ds_page s = St_Detail" "ds_rendered s = St_Library" "ds_pending s = []"
  by (simp_all add: s_def study_init_def render_defs go_def transition_def closePrototypeMenu_def library_current_def study_images_def)

lemma search_unbinds: "fst (study_step animate (fst (study_step animate s (Library (Search_Form q)))) (Library (Check_Image i b))) =
    fst (study_step animate s (Library (Search_Form q)))" if "ds_rendered s = St_Library"
  using that by simp

end
