(* ===== verification/Spec2Isabelle.thy ===== *)
theory Spec2Isabelle
  imports Upload_Correct Image_Links Controls Date_Picker Modal Requests Answers Messages Stored_Preferences Journey Window Menus Application Design_Study
begin

text \<open>
  The administration interface of ImageSilo, the TypeScript program under \<open>src/web/src\<close>: a single-page
  application with which one administrator uploads images, browses and deletes them, manages aliases,
  API tokens, an imported directory and the settings of the server.

  \<^bold>\<open>How the program is put together.\<close> \<open>app/App.tsx\<close> mounts the query cache, the session
  (\<open>features/auth/auth-provider.tsx\<close>), the router (\<open>app/router.tsx\<close>) and the messages. The guard shows the
  frame (\<open>components/layout/admin-layout.tsx\<close>) with one page per route. A page reads through the query
  cache and changes things with mutations that call \<open>lib/api-client.ts\<close>. A response 401 makes the client
  notify its listeners: the provider then drops the session and the cache, the upload page aborts its
  uploads.

  \<^bold>\<open>How it is modelled.\<close> The state of a component is a record with its state variables and references.
  A handler or effect is a function from the state to the next state and the list of what the code asks
  of its surroundings (\<open>effect\<close>, theory \<open>Effects\<close>): requests, navigation, messages, invalidations,
  storage, clipboard, focus. Each component has a type of events, what the user does and what the
  surroundings answer, and a step function, which \<open>run_steps\<close> (theory \<open>Prelude\<close>) folds over any list of
  events. A promise that is awaited is a field that says what is awaited, and its settlement an event,
  so the properties hold for every order of answers and user actions. A rejected promise or a thrown
  error is \<open>Inl\<close>, an absent value \<open>None\<close>. An event that the page does not offer in a state (a disabled
  button, an answer to nothing) leaves the state as it is.

  \<^bold>\<open>The theories.\<close>
  \<^item> The language: \<open>Prelude\<close> has JavaScript's insertion-ordered sets and maps and the locales \<open>js_set\<close>,
    \<open>reactive\<close> (a step keeps an invariant) and \<open>reactive_output\<close> (and what it asks for is in order).
    \<open>Js_Text\<close> has strings, \<open>Js_Number\<close> numbers as doubles with rounding, \<open>Uri\<close> percent-encoding and
    \<open>URLSearchParams\<close> with the locale \<open>keyed_store\<close>, \<open>Url\<close> the resolution of a path against an origin.
  \<^item> The server as the interface sees it: \<open>Api_Types\<close> (\<open>generated/openapi.d.ts\<close>: schemas and
    paths), \<open>Api_Operations\<close> (the same file: the operations with queries, tokens and bodies, and when a
    request conforms to one), \<open>Api_Client\<close> (\<open>lib/api-client.ts\<close>, \<open>lib/browser-storage.ts\<close>).
  \<^item> The upload page (\<open>features/upload/upload-page.tsx\<close>): \<open>Upload\<close> the model, \<open>Upload_Invariant\<close> the
    invariant of every reachable state, \<open>Upload_Correct\<close> order, bounds, object URLs, the lost session, the
    closing message, termination.
  \<^item> Shared parts: \<open>Image_Links\<close> (\<open>lib/image-links.ts\<close>), \<open>Controls\<close> (\<open>copy-link-control\<close>, \<open>dropdown-menu\<close>,
    \<open>select\<close>, \<open>preview-image\<close> of \<open>components/ui\<close>), \<open>Calendar\<close> and \<open>Date_Picker\<close> (\<open>date-picker.tsx\<close>), \<open>Modal\<close>
    (\<open>modal.tsx\<close>, \<open>confirm-dialog.tsx\<close>), \<open>Filters\<close> (what the two libraries share, locale \<open>filter_names\<close>).
  \<^item> Markup: \<open>Markup\<close> (\<open>button\<close>, \<open>badge\<close>, \<open>card\<close>, \<open>component-card\<close>, \<open>checkbox\<close>, \<open>input\<close>, \<open>icon\<close> of
    \<open>components/ui\<close>, as functions from properties to elements, locale \<open>passes_props\<close>), \<open>Menus\<close> (the elements of the
    menu and the select, the listeners of an open menu and the focus), \<open>Application\<close> (\<open>app/App.tsx\<close>,
    \<open>app/lazy-pages.tsx\<close>, the mounting in \<open>main.tsx\<close>, \<open>useAuth\<close>). \<open>Design_Study\<close> is the interactive study of the
    design, \<open>docs/design/study.js\<close>, a page of its own whose menus move the focus as those of the program.
  \<^item> Session and frame: \<open>Auth\<close> (\<open>features/auth\<close>, \<open>app/router.tsx\<close>), \<open>Layout\<close> (\<open>admin-layout.tsx\<close>,
    \<open>page-loaders.ts\<close>), \<open>Preferences\<close> (\<open>main.tsx\<close>, \<open>i18n/config.ts\<close>, \<open>app-footer.tsx\<close>).
  \<^item> Pages: \<open>Image_List\<close>, \<open>Detail_Page\<close> (\<open>features/images\<close>), \<open>Migration\<close>, \<open>Settings\<close>, \<open>Token_Page\<close>,
    \<open>Alias_Page\<close>, \<open>System_Page\<close> (the directories of the same names).
  \<^item> What the pages show: \<open>View\<close> (texts, fields and controls as assistive technology sees them, the locale
    \<open>page_view\<close> between the view of a page and its step function), \<open>Library_View\<close> (the two libraries),
    \<open>Admin_View\<close> (tokens, aliases, an image, the system), \<open>Form_View\<close> (uploads, settings, login, setup),
    \<open>Frame_View\<close> (the frame with its dialogs, the copy control, the date picker).
  \<^item> Across components: \<open>Requests\<close> holds every request of every page against the operations of the
    server; \<open>Answer_Types\<close> has the responses of the operations with the schemas of their contents, and \<open>Answers\<close>
    what the client makes of them; \<open>Messages\<close> follows the messages of all pages (locale \<open>loading_messages\<close>);
    \<open>Stored_Preferences\<close> follows the preferences of both libraries through the local storage (locale
    \<open>stored_preferences\<close>); \<open>Journey\<close> goes from a card of the library to the page of the image and back through the history; \<open>Window\<close> puts each page into the frame, as two systems that share what can be
    reached (locale \<open>framed_page\<close>).

  \<^bold>\<open>What is shown.\<close>
  \<^item> Uploads: a batch starts its files in order and none twice, never more at a time than the server
    processes; a lost session stops everything; no object URL leaks; a task ends, within a bound on the
    answers that are needed; the closing message is true.
  \<^item> Dialogs: what is behind an open dialog is inert, and exactly as before once none is open, for every
    order of opening and closing (a refinement of a counting specification); only the top one can be used.
  \<^item> Session: whatever the location carries, signing in leads to a path of this server's pages; a deep link
    survives signing in; redirects settle after two steps; a lost session leaves no data of it behind.
  \<^item> Libraries: the selection and every batch request are bounded and free of duplicates; a deletion
    names what was selected when it was asked for; a read-only directory is left alone; filters in the
    location are canonical; scroll positions are bounded and restored.
  \<^item> Texts: HTML and Markdown links read back to the name and the link, sizes are correctly rounded, dates
    and sizes survive the location, picked dates keep to the minimum, tokens expire when chosen.
  \<^item> Pages and server: every request conforms to an operation of the server in method, path, query
    names and body type, and carries the CSRF token where the operation asks for it; settings are sent in
    range only, an untouched form changes nothing, late answers do not navigate. Any answer the server
    documents reaches the page as a value of the type it reads or as the server's own error, in an upload as in any other
    request; a message that something is being worked on is shown exactly while it is.
  \<^item> Views: on every page a disabled control does nothing and an enabled one is answered, with the
    exceptions named by the \<open>deaf\<close> predicates; an empty library says why and leads on. In the frame nothing
    behind an open dialog can be reached, and of the dialogs of the frame one is open at most.
  \<^item> Elements: what a component is given reaches the element, so a disabled button calls no handler; icons
    are not read; an item of a menu can be clicked exactly while the menu is open, and with the keyboard alone the
    focus does not leave it; a form sends the value of the option that was picked; every page finds the session.
  \<^item> Between pages: the libraries come back from the storage as they were left; a deleted image leads
    back to the library at the position it was left at.

  \<^bold>\<open>Recursion and bounds.\<close> Every function is total without fuel: the loops of the source run over lists, or
  shrink a text (\<open>utf8_text\<close>, \<open>trim\<close>, \<open>decode_uri\<close>, \<open>decimal\<close>, each with its measure). The loop of the
  upload workers and the redirects, which depend on answers, are steps, and their ends are theorems
  (\<open>upload_task_ends\<close>, \<open>redirects_settle\<close>). Numbers are doubles; where a property needs an exact one, it
  assumes a size below \<open>2^53\<close> bytes or \<open>2^33\<close> MiB. Dates are exact from the year 1000 on: earlier years
  are written without leading zeros and do not read back.

  \<^bold>\<open>Parameters.\<close> Code that is not in the repository is an argument of the definitions that use it. The
  query cache is a \<open>query_client\<close> whose removal and session write do what the library documents
  (\<open>query_client_ok\<close>); the router is a function that finds the three static routes (\<open>router_ok\<close>); the
  browser's local time and \<open>Date.parse\<close> are a \<open>clock\<close> that reads back the instants it writes (\<open>clock_ok\<close>);
  each has a concrete instance among the witnesses. The libraries that put class names together are a
  \<open>class_library\<close>, of which nothing is assumed. The network, timers, focus and geometry are events.
  Identifiers the server makes and the pages put into paths are non-empty and have no slash and no
  question mark (\<open>plain_id\<close>).

  \<^bold>\<open>Not modelled.\<close> The meaning of styles and class names, animations and translated texts (messages
  are their keys); the infinite queries of the lists beyond their
  requests and next pages, since caching and refetching are the query library's; how a date is written in
  the language of the page (a parameter); the double mounting of React's
  \<open>StrictMode\<close>; the values of the operations' parameters in \<open>openapi.d.ts\<close> beyond the names; the
  static texts of \<open>docs/design/study.js\<close>; the build configuration; the server, which is written in Go. A reference that
  \<open>new URL\<close> resolves to anything but a path of the page's origin is \<open>None\<close> in theory \<open>Url\<close>.
\<close>

end
